theory Spec2Isabelle
  imports Main "HOL-Library.Word" "HOL-Library.Monad_Syntax"
begin

unbundle bit_operations_syntax

section \<open>Machine types and the byte layout of integers\<close>

text \<open>
  The C integer types of the sources. \<open>int32\<close>, \<open>ALint\<close>, \<open>ALenum\<close> and \<open>ALsizei\<close> are
  32-bit patterns; where the source reads one as a signed number the model does so with
  \<open>sint\<close> or \<open>scast\<close>. \<open>ALfloat\<close> is kept as the bit pattern that \<open>IO_FLOAT\<close> puts on
  the wire. A \<open>char *\<close> is \<open>None\<close> for NULL and otherwise the bytes found in memory from the
  pointer on; \<open>strlen\<close> counts the bytes before the first NUL.
\<close>

type_synonym uint8 = "8 word"
type_synonym uint32 = "32 word"
type_synonym uint64 = "64 word"
type_synonym cstring = "uint8 list option"
type_synonym ptr = nat

definition strlen :: "uint8 list \<Rightarrow> nat" where
  "strlen m = length (takeWhile (\<lambda>b. b \<noteq> 0) m)"

definition strdup :: "uint8 list \<Rightarrow> uint8 list" where
  "strdup m = takeWhile (\<lambda>b. b \<noteq> 0) m @ [0]"

text \<open>The string a \<open>char *\<close> denotes: nothing for NULL, else the bytes before the NUL.\<close>

definition c_str :: "cstring \<Rightarrow> uint8 list option" where
  "c_str p = map_option (takeWhile (\<lambda>b. b \<noteq> 0)) p"

text \<open>
  \<open>swap32\<close>/\<open>swap64\<close> followed by \<open>write\<close> put the value on the file least significant
  byte first, whatever the host's byte order; \<open>read\<close> followed by the swap reads it back.
\<close>

definition le32 :: "uint32 \<Rightarrow> uint8 list" where
  "le32 x = [ucast x, ucast (drop_bit 8 x), ucast (drop_bit 16 x), ucast (drop_bit 24 x)]"

definition le64 :: "uint64 \<Rightarrow> uint8 list" where
  "le64 x = [ucast x, ucast (drop_bit 8 x), ucast (drop_bit 16 x), ucast (drop_bit 24 x),
     ucast (drop_bit 32 x), ucast (drop_bit 40 x), ucast (drop_bit 48 x), ucast (drop_bit 56 x)]"

fun le_word :: "uint8 list \<Rightarrow> 'a::len word" where
  "le_word [] = 0"
| "le_word (b # bs) = ucast b OR push_bit 8 (le_word bs)"

section \<open>Constants of the OpenAL 1.1 headers\<close>

text \<open>The values are those of \<open>al.h\<close> and \<open>alc.h\<close> of OpenAL 1.1, which the sources include.\<close>

definition AL_NO_ERROR :: uint32 where "AL_NO_ERROR = 0"
definition ALC_NO_ERROR :: uint32 where "ALC_NO_ERROR = 0"
definition AL_TRUE :: uint8 where "AL_TRUE = 1"
definition AL_FALSE :: uint8 where "AL_FALSE = 0"
definition ALC_TRUE :: uint8 where "ALC_TRUE = 1"
definition ALC_FALSE :: uint8 where "ALC_FALSE = 0"
definition AL_INVALID_NAME :: uint32 where "AL_INVALID_NAME = 0xA001"
definition AL_INVALID_ENUM :: uint32 where "AL_INVALID_ENUM = 0xA002"
definition AL_INVALID_VALUE :: uint32 where "AL_INVALID_VALUE = 0xA003"
definition AL_INVALID_OPERATION :: uint32 where "AL_INVALID_OPERATION = 0xA004"
definition ALC_INVALID_DEVICE :: uint32 where "ALC_INVALID_DEVICE = 0xA001"
definition ALC_INVALID_CONTEXT :: uint32 where "ALC_INVALID_CONTEXT = 0xA002"
definition AL_SOURCE_RELATIVE :: uint32 where "AL_SOURCE_RELATIVE = 0x202"
definition AL_CONE_INNER_ANGLE :: uint32 where "AL_CONE_INNER_ANGLE = 0x1001"
definition AL_CONE_OUTER_ANGLE :: uint32 where "AL_CONE_OUTER_ANGLE = 0x1002"
definition AL_PITCH :: uint32 where "AL_PITCH = 0x1003"
definition AL_POSITION :: uint32 where "AL_POSITION = 0x1004"
definition AL_DIRECTION :: uint32 where "AL_DIRECTION = 0x1005"
definition AL_VELOCITY :: uint32 where "AL_VELOCITY = 0x1006"
definition AL_LOOPING :: uint32 where "AL_LOOPING = 0x1007"
definition AL_BUFFER :: uint32 where "AL_BUFFER = 0x1009"
definition AL_GAIN :: uint32 where "AL_GAIN = 0x100A"
definition AL_MIN_GAIN :: uint32 where "AL_MIN_GAIN = 0x100D"
definition AL_MAX_GAIN :: uint32 where "AL_MAX_GAIN = 0x100E"
definition AL_SOURCE_STATE :: uint32 where "AL_SOURCE_STATE = 0x1010"
definition AL_INITIAL :: uint32 where "AL_INITIAL = 0x1011"
definition AL_PLAYING :: uint32 where "AL_PLAYING = 0x1012"
definition AL_PAUSED :: uint32 where "AL_PAUSED = 0x1013"
definition AL_STOPPED :: uint32 where "AL_STOPPED = 0x1014"
definition AL_BUFFERS_QUEUED :: uint32 where "AL_BUFFERS_QUEUED = 0x1015"
definition AL_BUFFERS_PROCESSED :: uint32 where "AL_BUFFERS_PROCESSED = 0x1016"
definition AL_REFERENCE_DISTANCE :: uint32 where "AL_REFERENCE_DISTANCE = 0x1020"
definition AL_ROLLOFF_FACTOR :: uint32 where "AL_ROLLOFF_FACTOR = 0x1021"
definition AL_CONE_OUTER_GAIN :: uint32 where "AL_CONE_OUTER_GAIN = 0x1022"
definition AL_MAX_DISTANCE :: uint32 where "AL_MAX_DISTANCE = 0x1023"
definition AL_SEC_OFFSET :: uint32 where "AL_SEC_OFFSET = 0x1024"
definition AL_SAMPLE_OFFSET :: uint32 where "AL_SAMPLE_OFFSET = 0x1025"
definition AL_BYTE_OFFSET :: uint32 where "AL_BYTE_OFFSET = 0x1026"
definition AL_SOURCE_TYPE :: uint32 where "AL_SOURCE_TYPE = 0x1027"
definition AL_UNDETERMINED :: uint32 where "AL_UNDETERMINED = 0x1030"
definition AL_FREQUENCY :: uint32 where "AL_FREQUENCY = 0x2001"
definition AL_BITS :: uint32 where "AL_BITS = 0x2002"
definition AL_CHANNELS :: uint32 where "AL_CHANNELS = 0x2003"
definition AL_SIZE :: uint32 where "AL_SIZE = 0x2004"
definition ALC_CAPTURE_SAMPLES :: uint32 where "ALC_CAPTURE_SAMPLES = 0x312"
definition ALC_CONNECTED :: uint32 where "ALC_CONNECTED = 0x313"

text \<open>Bit patterns of the \<open>float\<close> literals of \<open>init_source_state\<close>.\<close>

definition float_0 :: uint32 where "float_0 = 0"
definition float_1 :: uint32 where "float_1 = 0x3F800000"
definition float_360 :: uint32 where "float_360 = 0x43B40000"
definition FLT_MAX :: uint32 where "FLT_MAX = 0x7F7FFFFF"

text \<open>
  A \<open>float\<close> is kept as its bit pattern (IEEE 754 single precision). C's \<open>!=\<close> on two
  \<open>float\<close>s: a NaN differs from every value and from itself, the two zeros are equal,
  and any other two values differ exactly when their bits do.
\<close>

definition float_is_nan :: "uint32 \<Rightarrow> bool" where
  "float_is_nan x \<longleftrightarrow> x AND 0x7F800000 = 0x7F800000 \<and> x AND 0x007FFFFF \<noteq> 0"

definition float_is_zero :: "uint32 \<Rightarrow> bool" where
  "float_is_zero x \<longleftrightarrow> x AND 0x7FFFFFFF = 0"

definition float_ne :: "uint32 \<Rightarrow> uint32 \<Rightarrow> bool" where
  "float_ne a b \<longleftrightarrow>
     float_is_nan a \<or> float_is_nan b \<or> (a \<noteq> b \<and> \<not> (float_is_zero a \<and> float_is_zero b))"

section \<open>The recorder (altrace\_record.c): data\<close>

text \<open>
  The tags of the event stream. The enumeration itself is declared in
  \<open>altrace_common.h\<close>, which is not among the sources: the constructors below are the tags
  the modelled functions name, and the number of each tag is a parameter (\<open>ALEE\<close> of the
  environment record).
\<close>

datatype EventEnum =
    ALEE_EOS
  | ALEE_NEW_CALLSTACK_SYMS
  | ALEE_ALERROR_TRIGGERED
  | ALEE_ALCERROR_TRIGGERED
  | ALEE_DEVICE_STATE_CHANGED_BOOL
  | ALEE_DEVICE_STATE_CHANGED_INT
  | ALEE_SOURCE_STATE_CHANGED_BOOL
  | ALEE_SOURCE_STATE_CHANGED_ENUM
  | ALEE_SOURCE_STATE_CHANGED_INT
  | ALEE_SOURCE_STATE_CHANGED_UINT
  | ALEE_SOURCE_STATE_CHANGED_FLOAT
  | ALEE_SOURCE_STATE_CHANGED_FLOAT3
  | ALEE_BUFFER_STATE_CHANGED_INT
  | ALEE_alcCloseDevice
  | ALEE_alcDestroyContext
  | ALEE_alcGetError
  | ALEE_alGetError
  | ALEE_alGenSources
  | ALEE_alDeleteSources
  | ALEE_alDeleteBuffers
  | ALEE_alSourcePlay

record BufferWrapper =
  buf_name :: uint32
  buf_channels :: uint32
  buf_bits :: uint32
  buf_frequency :: uint32
  buf_size :: uint32
  buf_hash_prev :: ptr
  buf_hash_next :: ptr

record SourceWrapper =
  src_name :: uint32
  src_state :: uint32
  src_type :: uint32
  src_buffer :: uint32
  src_buffers_queued :: uint32
  src_buffers_processed :: uint32
  src_source_relative :: uint8
  src_looping :: uint8
  src_sec_offset :: uint32
  src_sample_offset :: uint32
  src_byte_offset :: uint32
  src_gain :: uint32
  src_min_gain :: uint32
  src_max_gain :: uint32
  src_reference_distance :: uint32
  src_rolloff_factor :: uint32
  src_max_distance :: uint32
  src_pitch :: uint32
  src_cone_inner_angle :: uint32
  src_cone_outer_angle :: uint32
  src_cone_outer_gain :: uint32
  src_position :: "uint32 \<times> uint32 \<times> uint32"
  src_velocity :: "uint32 \<times> uint32 \<times> uint32"
  src_direction :: "uint32 \<times> uint32 \<times> uint32"
  src_playlist_next :: ptr
  src_playlist_prev :: ptr
  src_hash_prev :: ptr
  src_hash_next :: ptr

record DeviceWrapper =
  dev_device :: uint64
  dev_errorlatch :: uint32
  dev_iscapture :: uint8
  dev_connected :: uint8
  dev_supports_disconnect_ext :: uint8
  dev_capture_samples :: uint32
  dev_samplesize :: uint32
  dev_extension_string :: cstring
  dev_wrapped_buffer_hash :: "uint8 \<Rightarrow> ptr"
  dev_contexts :: ptr
  dev_prev :: ptr
  dev_next :: ptr

record ContextWrapper =
  ctx_ctx :: uint64
  ctx_device :: ptr
  ctx_extension_string :: cstring
  ctx_errorlatch :: uint32
  ctx_checked_static_state :: uint8
  ctx_wrapped_source_hash :: "uint8 \<Rightarrow> ptr"
  ctx_distance_model :: uint32
  ctx_doppler_factor :: uint32
  ctx_doppler_velocity :: uint32
  ctx_speed_of_sound :: uint32
  ctx_listener_position :: "uint32 \<times> uint32 \<times> uint32"
  ctx_listener_velocity :: "uint32 \<times> uint32 \<times> uint32"
  ctx_listener_orientation :: "uint32 list"
  ctx_listener_gain :: uint32
  ctx_playlist :: ptr
  ctx_next :: ptr
  ctx_prev :: ptr

text \<open>
  The state of the recording process. Pointers to wrapper structs are addresses
  (\<open>ptr\<close>, with 0 for NULL); each struct type has its own store from addresses to
  records and its set of allocated addresses. \<open>free\<close> takes the address out of the set and
  leaves the store as it is; a read through NULL or through a freed pointer, undefined in C,
  reads the store at that address. \<open>logfile\<close> is the sequence of bytes written to
  \<open>logfd\<close> so far. \<open>world\<close> is the state of everything outside the recorder: the real
  OpenAL library, the clock, the call stack of the application.
\<close>

record 'w recorder =
  logfile :: "uint8 list"
  world :: 'w
  stackframe_map :: "uint64 \<Rightarrow> cstring"
  devices :: "ptr \<Rightarrow> DeviceWrapper"
  contexts :: "ptr \<Rightarrow> ContextWrapper"
  sources :: "ptr \<Rightarrow> SourceWrapper"
  buffers :: "ptr \<Rightarrow> BufferWrapper"
  allocated_devices :: "ptr set"
  allocated_contexts :: "ptr set"
  allocated_sources :: "ptr set"
  allocated_buffers :: "ptr set"
  null_context_errorlatch :: uint32
  current_context :: ptr

text \<open>The address of the static \<open>null_device\<close>: some fixed address that is not NULL.\<close>

definition null_device :: ptr where
  "null_device = 1"


text \<open>
  What the recorder calls but does not define: the numbering of the event tags and
  \<open>MAX_CALLSTACKS\<close> (both of \<open>altrace_common.h\<close>), the operating system (\<open>now\<close>,
  \<open>backtrace\<close>, \<open>backtrace_symbols\<close>, \<open>pthread_self\<close>, \<open>malloc\<close>) and the entry points
  of the real OpenAL library (\<open>REAL_...\<close>).
  Each call takes the world and returns its result with the world after the call; a
  query that writes through an out-pointer returns the value found there afterwards (the
  recorder zeroes it before the call). Nothing is assumed of these functions.
\<close>

record 'w env =
  ALEE :: "EventEnum \<Rightarrow> uint32"
  MAX_CALLSTACKS :: nat
  now :: "'w \<Rightarrow> uint32 \<times> 'w"
  backtrace :: "nat \<Rightarrow> 'w \<Rightarrow> uint64 list \<times> 'w"
  backtrace_symbols :: "uint64 \<Rightarrow> 'w \<Rightarrow> cstring \<times> 'w"
  pthread_self :: "'w \<Rightarrow> uint64 \<times> 'w"
  malloc :: "'w \<Rightarrow> ptr \<times> 'w"
  REAL_alGetError :: "'w \<Rightarrow> uint32 \<times> 'w"
  REAL_alcGetError :: "uint64 \<Rightarrow> 'w \<Rightarrow> uint32 \<times> 'w"
  REAL_alcGetIntegerv :: "uint64 \<Rightarrow> uint32 \<Rightarrow> 'w \<Rightarrow> uint32 \<times> 'w"
  REAL_alGetSourcei :: "uint32 \<Rightarrow> uint32 \<Rightarrow> 'w \<Rightarrow> uint32 \<times> 'w"
  REAL_alGetSourcef :: "uint32 \<Rightarrow> uint32 \<Rightarrow> 'w \<Rightarrow> uint32 \<times> 'w"
  REAL_alGetSourcefv :: "uint32 \<Rightarrow> uint32 \<Rightarrow> 'w \<Rightarrow> (uint32 \<times> uint32 \<times> uint32) \<times> 'w"
  REAL_alcCloseDevice :: "uint64 \<Rightarrow> 'w \<Rightarrow> uint8 \<times> 'w"
  REAL_alcDestroyContext :: "uint64 \<Rightarrow> 'w \<Rightarrow> 'w"
  REAL_alGenSources :: "uint32 \<Rightarrow> 'w \<Rightarrow> uint32 list \<times> 'w"
  REAL_alDeleteSources :: "uint32 \<Rightarrow> uint32 list \<Rightarrow> 'w \<Rightarrow> 'w"
  REAL_alDeleteBuffers :: "uint32 \<Rightarrow> uint32 list \<Rightarrow> 'w \<Rightarrow> 'w"
  REAL_alSourcePlay :: "uint32 \<Rightarrow> 'w \<Rightarrow> 'w"

section \<open>The recorder: byte codec\<close>

text \<open>
  \<open>write(logfd, ...)\<close> appends to the log. The model takes every write to succeed: the
  abort of the process on a short write (\<open>IO_WRITE_FAIL\<close>) and on a failed lock
  (\<open>APILOCK\<close>) are outside it, and a wrapped call runs from \<open>IO_START\<close> to \<open>IO_END\<close>
  without another thread in between, as the mutex ensures.
\<close>

definition write_log :: "uint8 list \<Rightarrow> 'w recorder \<Rightarrow> 'w recorder" where
  "write_log bs s = s\<lparr>logfile := logfile s @ bs\<rparr>"

definition writele32 :: "uint32 \<Rightarrow> 'w recorder \<Rightarrow> 'w recorder" where
  "writele32 x = write_log (le32 x)"

definition writele64 :: "uint64 \<Rightarrow> 'w recorder \<Rightarrow> 'w recorder" where
  "writele64 x = write_log (le64 x)"

definition IO_INT32 :: "uint32 \<Rightarrow> 'w recorder \<Rightarrow> 'w recorder" where
  "IO_INT32 x = writele32 x"

definition IO_UINT32 :: "uint32 \<Rightarrow> 'w recorder \<Rightarrow> 'w recorder" where
  "IO_UINT32 x = writele32 x"

definition IO_UINT64 :: "uint64 \<Rightarrow> 'w recorder \<Rightarrow> 'w recorder" where
  "IO_UINT64 x = writele64 x"

text \<open>\<open>ALsizei\<close> and \<open>ALCsizei\<close> are \<open>int\<close>: the cast to \<open>uint64\<close> extends the sign.\<close>

definition IO_ALCSIZEI :: "uint32 \<Rightarrow> 'w recorder \<Rightarrow> 'w recorder" where
  "IO_ALCSIZEI x = IO_UINT64 (scast x)"

definition IO_ALSIZEI :: "uint32 \<Rightarrow> 'w recorder \<Rightarrow> 'w recorder" where
  "IO_ALSIZEI x = IO_UINT64 (scast x)"

definition IO_FLOAT :: "uint32 \<Rightarrow> 'w recorder \<Rightarrow> 'w recorder" where
  "IO_FLOAT x = IO_UINT32 x"

definition IO_STRING :: "cstring \<Rightarrow> 'w recorder \<Rightarrow> 'w recorder" where
  "IO_STRING str s =
     (case str of
        None \<Rightarrow> IO_UINT64 0xFFFFFFFFFFFFFFFF s
      | Some m \<Rightarrow>
          (let len = strlen m;
               s1 = IO_UINT64 (of_nat len) s
           in if len > 0 then write_log (take len m) s1 else s1))"

definition IO_BLOB :: "uint8 list option \<Rightarrow> uint64 \<Rightarrow> 'w recorder \<Rightarrow> 'w recorder" where
  "IO_BLOB data len s =
     (case data of
        None \<Rightarrow> IO_UINT64 0xFFFFFFFFFFFFFFFF s
      | Some m \<Rightarrow>
          (let slen = unat len;
               s1 = IO_UINT64 len s
           in if len > 0 then write_log (take slen m) s1 else s1))"

definition IO_EVENTENUM :: "'w env \<Rightarrow> EventEnum \<Rightarrow> 'w recorder \<Rightarrow> 'w recorder" where
  "IO_EVENTENUM R x = IO_UINT32 (ALEE R x)"

definition IO_PTR :: "uint64 \<Rightarrow> 'w recorder \<Rightarrow> 'w recorder" where
  "IO_PTR p = IO_UINT64 p"

definition IO_ALCENUM :: "uint32 \<Rightarrow> 'w recorder \<Rightarrow> 'w recorder" where
  "IO_ALCENUM e = IO_UINT32 e"

definition IO_ENUM :: "uint32 \<Rightarrow> 'w recorder \<Rightarrow> 'w recorder" where
  "IO_ENUM e = IO_UINT32 e"

text \<open>\<open>ALboolean\<close> and \<open>ALCboolean\<close> are \<open>char\<close>, taken as signed (as on x86).\<close>

definition IO_ALCBOOLEAN :: "uint8 \<Rightarrow> 'w recorder \<Rightarrow> 'w recorder" where
  "IO_ALCBOOLEAN b = IO_UINT32 (scast b)"

definition IO_BOOLEAN :: "uint8 \<Rightarrow> 'w recorder \<Rightarrow> 'w recorder" where
  "IO_BOOLEAN b = IO_UINT32 (scast b)"

text \<open>Statements run one after the other: \<open>in_order [f, g] s\<close> is \<open>g (f s)\<close>.\<close>

definition in_order :: "('s \<Rightarrow> 's) list \<Rightarrow> 's \<Rightarrow> 's" where
  "in_order fs s = fold (\<lambda>f t. f t) fs s"

section \<open>The recorder: call-stack collector\<close>

text \<open>
  Modelled from the spec: the \<open>HASH_MAP(stackframe, void *, char *)\<close> macro of
  \<open>altrace_common.h\<close> is not among the sources. Following the spec's frame-map
  ("interns frame-address to symbol strings"), \<open>get_mapped_stackframe\<close> is a lookup that
  yields NULL for an address never added, and \<open>add_stackframe_to_map\<close> stores the pair.
\<close>

definition get_mapped_stackframe :: "uint64 \<Rightarrow> 'w recorder \<Rightarrow> cstring" where
  "get_mapped_stackframe frame s = stackframe_map s frame"

definition add_stackframe_to_map :: "uint64 \<Rightarrow> uint8 list \<Rightarrow> 'w recorder \<Rightarrow> 'w recorder" where
  "add_stackframe_to_map frame str s = s\<lparr>stackframe_map := (stackframe_map s)(frame := Some str)\<rparr>"

text \<open>
  \<open>get_callstack_sym\<close> returns the symbol and \<open>seen_before\<close>. The character \<open>'0'\<close> is
  byte 48 and the space byte 32.
\<close>

definition get_callstack_sym :: "'w env \<Rightarrow> uint64 \<Rightarrow> 'w recorder \<Rightarrow> cstring \<times> bool \<times> 'w recorder" where
  "get_callstack_sym R frame s =
     (case get_mapped_stackframe frame s of
        Some retval \<Rightarrow> (Some retval, True, s)
      | None \<Rightarrow>
          (let (syms0, w) = backtrace_symbols R frame (world s);
               s1 = s\<lparr>world := w\<rparr>;
               sym = (case syms0 of
                        None \<Rightarrow> None
                      | Some m \<Rightarrow>
                          (if m \<noteq> [] \<and> hd m = 48 then Some (dropWhile (\<lambda>b. b = 32) (tl m))
                           else Some m))
           in case sym of
                None \<Rightarrow> (None, False, s1)
              | Some m \<Rightarrow> (Some (strdup m), False, add_stackframe_to_map frame (strdup m) s1)))"

text \<open>
  The first loop of \<open>IO_ENTRYINFO\<close> over \<open>callstack[2 ..]\<close>: it returns the final \<open>i\<close>
  (the number of frames kept), the pairs stored in \<open>new_strings_ptrs\<close> and
  \<open>new_strings\<close>, and the state.
\<close>

fun IO_ENTRYINFO_scan ::
  "'w env \<Rightarrow> uint64 list \<Rightarrow> 'w recorder \<Rightarrow> nat \<times> (uint64 \<times> cstring) list \<times> 'w recorder" where
  "IO_ENTRYINFO_scan R [] s = (0, [], s)"
| "IO_ENTRYINFO_scan R (p # rest) s =
     (case get_callstack_sym R p s of
        (str, seen_before, s1) \<Rightarrow>
          if str = None \<and> \<not> seen_before then (0, [], s1)
          else (case IO_ENTRYINFO_scan R rest s1 of
                  (i, news, s2) \<Rightarrow>
                    (Suc i, (if \<not> seen_before then [(p, str)] else []) @ news, s2)))"

text \<open>
  The frames the loops of \<open>IO_ENTRYINFO\<close> run over: \<open>backtrace\<close> fills at most
  \<open>MAX_CALLSTACKS\<close> entries and the first two (IO\_ENTRYINFO and the entry point) are skipped.
\<close>

definition captured_frames :: "'w env \<Rightarrow> uint64 list \<Rightarrow> uint64 list" where
  "captured_frames R bt = drop 2 (take (MAX_CALLSTACKS R) bt)"

definition IO_ENTRYINFO :: "'w env \<Rightarrow> EventEnum \<Rightarrow> 'w recorder \<Rightarrow> 'w recorder" where
  "IO_ENTRYINFO R entryid s =
     (case now R (world s) of (currentms, w1) \<Rightarrow>
      case backtrace R (MAX_CALLSTACKS R) w1 of (bt, w2) \<Rightarrow>
      case IO_ENTRYINFO_scan R (captured_frames R bt) (s\<lparr>world := w2\<rparr>) of (i, news, s1) \<Rightarrow>
        (let s2 = (if length news > 0
                   then fold (\<lambda>(p, str) t. IO_STRING str (IO_PTR p t)) news
                          (IO_UINT32 (of_nat (length news)) (IO_EVENTENUM R ALEE_NEW_CALLSTACK_SYMS s1))
                   else s1);
             s3 = IO_UINT32 currentms (IO_EVENTENUM R entryid s2)
         in case pthread_self R (world s3) of (tid, w3) \<Rightarrow>
              fold IO_PTR (take i (captured_frames R bt))
                (IO_UINT32 (of_nat i) (IO_UINT64 tid (s3\<lparr>world := w3\<rparr>)))))"

text \<open>
  What one \<open>IO_ENTRYINFO\<close> puts into the stream, as values: the pairs of its
  new-callstack-symbols event (empty: no such event) and the frame addresses of the call
  event's caller-info.
\<close>

definition IO_ENTRYINFO_emitted ::
  "'w env \<Rightarrow> 'w recorder \<Rightarrow> (uint64 \<times> cstring) list \<times> uint64 list" where
  "IO_ENTRYINFO_emitted R s =
     (case now R (world s) of (currentms, w1) \<Rightarrow>
      case backtrace R (MAX_CALLSTACKS R) w1 of (bt, w2) \<Rightarrow>
      case IO_ENTRYINFO_scan R (captured_frames R bt) (s\<lparr>world := w2\<rparr>) of (i, news, s1) \<Rightarrow>
        (news, take i (captured_frames R bt)))"


section \<open>The player (altrace\_playback.c): data and byte codec\<close>

text \<open>
  Both files define \<open>IO_UINT32\<close>, \<open>IO_STRING\<close>, \<open>IO_ENTRYINFO\<close> and so on; the player's
  carry the suffix \<open>_play\<close> here. The diagnostics are the messages the player prints on
  \<open>stderr\<close>; the visits are the visitor callbacks it invokes, in order.
\<close>

datatype diagnostic =
    Failed_to_read_from_log bool
  | Failed_to_open_log_file
  | Not_an_OpenAL_log_file
  | Unsupported_log_file_format_version
  | Cancelled_file_processing

record CallerInfo =
  num_callstack_frames :: uint32
  threadid :: uint32
  ci_trace_scope :: uint32
  wait_until :: uint32
  callstack :: "(uint64 \<times> cstring) list"
  fdoffset :: nat

datatype visit =
    Visit_progress nat nat
  | Visit_eos bool uint32
  | Visit_alGetError CallerInfo uint32
  | Visit_alGenSources CallerInfo uint32 uint64 "uint32 list"
  | Visit_alDeleteSources CallerInfo uint32 uint64 "uint32 list"

text \<open>
  The state of the player process: the open log (\<open>logfd\<close>; \<open>None\<close> is -1) with the file
  offset, the file's static variables, what was printed and what was visited. The log is
  a regular file: \<open>lseek\<close> does not fail on it and \<open>read\<close> returns the bytes up to its end.
\<close>

record player =
  logfd :: "uint8 list option"
  offset :: nat
  io_failure :: bool
  trace_scope :: uint32
  next_mapped_threadid :: uint32
  threadid_map :: "uint64 \<Rightarrow> uint32"
  stackframe_map_play :: "uint64 \<Rightarrow> cstring"
  sourcelabel_map :: "uint32 \<Rightarrow> cstring"
  stderr :: "diagnostic list"
  visits :: "visit list"

definition IO_READ_FAIL :: "bool \<Rightarrow> player \<Rightarrow> player" where
  "IO_READ_FAIL eof p =
     (if \<not> io_failure p
      then p\<lparr>stderr := stderr p @ [Failed_to_read_from_log eof], io_failure := True\<rparr>
      else p)"

text \<open>
  \<open>read(logfd, buf, n)\<close>: the bytes read and the state. On a closed descriptor it reads
  nothing and returns -1 (\<open>None\<close>); else it returns the count \<open>br\<close> of bytes read.
\<close>

definition read_log :: "nat \<Rightarrow> player \<Rightarrow> uint8 list \<times> nat option \<times> player" where
  "read_log n p =
     (case logfd p of
        None \<Rightarrow> ([], None, p)
      | Some f \<Rightarrow>
          (let bs = take n (drop (offset p) f)
           in (bs, Some (length bs), p\<lparr>offset := offset p + length bs\<rparr>)))"

definition readle32 :: "player \<Rightarrow> uint32 \<times> player" where
  "readle32 p =
     (if \<not> io_failure p
      then (case read_log 4 p of (bs, br, p1) \<Rightarrow>
              (le_word bs, if br \<noteq> Some 4 then IO_READ_FAIL (br \<noteq> None) p1 else p1))
      else (0, p))"

definition readle64 :: "player \<Rightarrow> uint64 \<times> player" where
  "readle64 p =
     (if \<not> io_failure p
      then (case read_log 8 p of (bs, br, p1) \<Rightarrow>
              (le_word bs, if br \<noteq> Some 8 then IO_READ_FAIL (br \<noteq> None) p1 else p1))
      else (0, p))"

definition IO_UINT32_play :: "player \<Rightarrow> uint32 \<times> player" where
  "IO_UINT32_play p = readle32 p"

definition IO_UINT64_play :: "player \<Rightarrow> uint64 \<times> player" where
  "IO_UINT64_play p = readle64 p"

text \<open>The cast from \<open>uint64\<close> to \<open>ALsizei\<close> (\<open>int\<close>) keeps the low 32 bits.\<close>

definition IO_ALSIZEI_play :: "player \<Rightarrow> uint32 \<times> player" where
  "IO_ALSIZEI_play p = (case IO_UINT64_play p of (x, p1) \<Rightarrow> (ucast x, p1))"

definition IO_EVENTENUM_play :: "player \<Rightarrow> uint32 \<times> player" where
  "IO_EVENTENUM_play p = IO_UINT32_play p"

definition IO_PTR_play :: "player \<Rightarrow> uint64 \<times> player" where
  "IO_PTR_play p = IO_UINT64_play p"

definition IO_ENUM_play :: "player \<Rightarrow> uint32 \<times> player" where
  "IO_ENUM_play p = IO_UINT32_play p"

text \<open>
  \<open>IO_BLOB\<close> returns the pointer, the value stored to \<open>*_len\<close> (\<open>None\<close>: nothing stored)
  and the state. \<open>get_ioblob\<close> is not among the sources: \<open>ioblob n\<close> stands for the
  contents of the \<open>n\<close>-byte buffer it hands out, over which the bytes read are written.
  \<open>size_t\<close> has 64 bits.
\<close>

definition IO_BLOB_play ::
  "(nat \<Rightarrow> uint8 list) \<Rightarrow> player \<Rightarrow> uint8 list option \<times> uint64 option \<times> player" where
  "IO_BLOB_play ioblob p =
     (case IO_UINT64_play p of (len, p1) \<Rightarrow>
        (let slen = unat len in
         if io_failure p1 then (None, None, p1)
         else if len = 0xFFFFFFFFFFFFFFFF then (None, Some 0, p1)
         else (case read_log slen p1 of (bs, br, p2) \<Rightarrow>
                 (Some (take slen (bs @ drop (length bs) (ioblob (slen + 1))) @ [0]),
                  Some len,
                  if br \<noteq> Some slen then IO_READ_FAIL (br \<noteq> None) p2 else p2))))"

definition IO_STRING_play :: "(nat \<Rightarrow> uint8 list) \<Rightarrow> player \<Rightarrow> cstring \<times> player" where
  "IO_STRING_play ioblob p = (case IO_BLOB_play ioblob p of (ptr, len, p1) \<Rightarrow> (ptr, p1))"

section \<open>Initial states\<close>

text \<open>
  Zeroed structs (\<open>calloc\<close>, \<open>memset\<close>, static storage) and the static variables of the
  two programs when the process starts.
\<close>

definition zero_BufferWrapper :: BufferWrapper where
  "zero_BufferWrapper = \<lparr>buf_name = 0, buf_channels = 0, buf_bits = 0, buf_frequency = 0,
     buf_size = 0, buf_hash_prev = 0, buf_hash_next = 0\<rparr>"

definition zero_SourceWrapper :: SourceWrapper where
  "zero_SourceWrapper = \<lparr>src_name = 0, src_state = 0, src_type = 0, src_buffer = 0,
     src_buffers_queued = 0, src_buffers_processed = 0, src_source_relative = 0,
     src_looping = 0, src_sec_offset = 0, src_sample_offset = 0, src_byte_offset = 0,
     src_gain = 0, src_min_gain = 0, src_max_gain = 0, src_reference_distance = 0,
     src_rolloff_factor = 0, src_max_distance = 0, src_pitch = 0, src_cone_inner_angle = 0,
     src_cone_outer_angle = 0, src_cone_outer_gain = 0, src_position = (0, 0, 0),
     src_velocity = (0, 0, 0), src_direction = (0, 0, 0), src_playlist_next = 0,
     src_playlist_prev = 0, src_hash_prev = 0, src_hash_next = 0\<rparr>"

definition zero_DeviceWrapper :: DeviceWrapper where
  "zero_DeviceWrapper = \<lparr>dev_device = 0, dev_errorlatch = 0, dev_iscapture = 0,
     dev_connected = 0, dev_supports_disconnect_ext = 0, dev_capture_samples = 0,
     dev_samplesize = 0, dev_extension_string = None, dev_wrapped_buffer_hash = (\<lambda>h. 0),
     dev_contexts = 0, dev_prev = 0, dev_next = 0\<rparr>"

definition zero_ContextWrapper :: ContextWrapper where
  "zero_ContextWrapper = \<lparr>ctx_ctx = 0, ctx_device = 0, ctx_extension_string = None,
     ctx_errorlatch = 0, ctx_checked_static_state = 0, ctx_wrapped_source_hash = (\<lambda>h. 0),
     ctx_distance_model = 0, ctx_doppler_factor = 0, ctx_doppler_velocity = 0,
     ctx_speed_of_sound = 0, ctx_listener_position = (0, 0, 0),
     ctx_listener_velocity = (0, 0, 0), ctx_listener_orientation = [0, 0, 0, 0, 0, 0],
     ctx_listener_gain = 0, ctx_playlist = 0, ctx_next = 0, ctx_prev = 0\<rparr>"

definition recorder_start :: "'w \<Rightarrow> 'w recorder" where
  "recorder_start w = \<lparr>logfile = [], world = w, stackframe_map = (\<lambda>a. None),
     devices = (\<lambda>a. zero_DeviceWrapper), contexts = (\<lambda>a. zero_ContextWrapper),
     sources = (\<lambda>a. zero_SourceWrapper), buffers = (\<lambda>a. zero_BufferWrapper),
     allocated_devices = {}, allocated_contexts = {}, allocated_sources = {},
     allocated_buffers = {}, null_context_errorlatch = AL_NO_ERROR, current_context = 0\<rparr>"

definition player_start :: player where
  "player_start = \<lparr>logfd = None, offset = 0, io_failure = False, trace_scope = 0,
     next_mapped_threadid = 0, threadid_map = (\<lambda>t. 0), stackframe_map_play = (\<lambda>a. None),
     sourcelabel_map = (\<lambda>n. None), stderr = [], visits = []\<rparr>"

section \<open>The wire format as byte strings\<close>

text \<open>
  The bytes of a string field, of a new-callstack-symbols event (nothing when there is no
  new symbol) and of the header of a call event, used to state what the recorder's
  functions append to the log.
\<close>

definition string_bytes :: "cstring \<Rightarrow> uint8 list" where
  "string_bytes str =
     (case c_str str of
        None \<Rightarrow> le64 0xFFFFFFFFFFFFFFFF
      | Some cs \<Rightarrow> le64 (of_nat (length cs)) @ cs)"

definition newsyms_bytes :: "'w env \<Rightarrow> (uint64 \<times> cstring) list \<Rightarrow> uint8 list" where
  "newsyms_bytes R news =
     (if news = [] then []
      else le32 (ALEE R ALEE_NEW_CALLSTACK_SYMS) @ le32 (of_nat (length news)) @
           concat (map (\<lambda>(p, str). le64 p @ string_bytes str) news))"

definition callerinfo_bytes ::
  "'w env \<Rightarrow> EventEnum \<Rightarrow> uint32 \<Rightarrow> uint64 \<Rightarrow> uint64 list \<Rightarrow> uint8 list" where
  "callerinfo_bytes R e ms tid frames =
     le32 (ALEE R e) @ le32 ms @ le64 tid @ le32 (of_nat (length frames)) @
     concat (map le64 frames)"

section \<open>A recording session, seen from the call-stack collector\<close>

text \<open>
  A session is a sequence of wrapped calls. Each starts with \<open>IO_ENTRYINFO\<close> for its tag;
  \<open>rest\<close> stands for the remainder of the call and whatever the process does until the
  next one. \<open>session_emitted\<close> lists, call by call, what \<open>IO_ENTRYINFO\<close> put into the
  stream.
\<close>

fun session_emitted ::
  "'w env \<Rightarrow> (EventEnum \<times> ('w recorder \<Rightarrow> 'w recorder)) list \<Rightarrow> 'w recorder \<Rightarrow>
     ((uint64 \<times> cstring) list \<times> uint64 list) list" where
  "session_emitted R [] s = []"
| "session_emitted R ((e, rest) # calls) s =
     IO_ENTRYINFO_emitted R s # session_emitted R calls (rest (IO_ENTRYINFO R e s))"

section \<open>Example environments\<close>

text \<open>
  A world in which nothing happens: the clock stands at 0, the call stack is empty, every
  symbol resolves to \<open>f\<close>, the real library reports no error and answers 0. The tags are
  numbered in the order of the datatype. The examples below change single fields.
\<close>

fun example_ALEE :: "EventEnum \<Rightarrow> uint32" where
  "example_ALEE ALEE_EOS = 0"
| "example_ALEE ALEE_NEW_CALLSTACK_SYMS = 1"
| "example_ALEE ALEE_ALERROR_TRIGGERED = 2"
| "example_ALEE ALEE_ALCERROR_TRIGGERED = 3"
| "example_ALEE ALEE_DEVICE_STATE_CHANGED_BOOL = 4"
| "example_ALEE ALEE_DEVICE_STATE_CHANGED_INT = 5"
| "example_ALEE ALEE_SOURCE_STATE_CHANGED_BOOL = 6"
| "example_ALEE ALEE_SOURCE_STATE_CHANGED_ENUM = 7"
| "example_ALEE ALEE_SOURCE_STATE_CHANGED_INT = 8"
| "example_ALEE ALEE_SOURCE_STATE_CHANGED_UINT = 9"
| "example_ALEE ALEE_SOURCE_STATE_CHANGED_FLOAT = 10"
| "example_ALEE ALEE_SOURCE_STATE_CHANGED_FLOAT3 = 11"
| "example_ALEE ALEE_BUFFER_STATE_CHANGED_INT = 12"
| "example_ALEE ALEE_alcCloseDevice = 13"
| "example_ALEE ALEE_alcDestroyContext = 14"
| "example_ALEE ALEE_alcGetError = 15"
| "example_ALEE ALEE_alGetError = 16"
| "example_ALEE ALEE_alGenSources = 17"
| "example_ALEE ALEE_alDeleteSources = 18"
| "example_ALEE ALEE_alDeleteBuffers = 19"
| "example_ALEE ALEE_alSourcePlay = 20"

definition quiet_env :: "'w env" where
  "quiet_env = \<lparr>ALEE = example_ALEE, MAX_CALLSTACKS = 32,
     now = (\<lambda>w. (0, w)), backtrace = (\<lambda>n w. ([], w)),
     backtrace_symbols = (\<lambda>a w. (Some [102, 0], w)), pthread_self = (\<lambda>w. (0, w)),
     malloc = (\<lambda>w. (0, w)),
     REAL_alGetError = (\<lambda>w. (0, w)), REAL_alcGetError = (\<lambda>d w. (0, w)),
     REAL_alcGetIntegerv = (\<lambda>d e w. (0, w)), REAL_alGetSourcei = (\<lambda>n e w. (0, w)),
     REAL_alGetSourcef = (\<lambda>n e w. (0, w)), REAL_alGetSourcefv = (\<lambda>n e w. ((0, 0, 0), w)),
     REAL_alcCloseDevice = (\<lambda>d w. (1, w)), REAL_alcDestroyContext = (\<lambda>c w. w),
     REAL_alGenSources = (\<lambda>n w. ([], w)), REAL_alDeleteSources = (\<lambda>n names w. w),
     REAL_alDeleteBuffers = (\<lambda>n names w. w), REAL_alSourcePlay = (\<lambda>n w. w)\<rparr>"


text \<open>The call stack has two frames of the application, at addresses 10 and 11.\<close>

definition stack_env :: "unit env" where
  "stack_env = quiet_env\<lparr>backtrace := (\<lambda>n w. (take n [1, 2, 10, 11], w))\<rparr>"

section \<open>The recorder: error latches and state checks\<close>

text \<open>A write through a pointer to a wrapper struct.\<close>

definition set_source :: "ptr \<Rightarrow> (SourceWrapper \<Rightarrow> SourceWrapper) \<Rightarrow> 'w recorder \<Rightarrow> 'w recorder" where
  "set_source p f s = s\<lparr>sources := (sources s)(p := f (sources s p))\<rparr>"

definition set_buffer :: "ptr \<Rightarrow> (BufferWrapper \<Rightarrow> BufferWrapper) \<Rightarrow> 'w recorder \<Rightarrow> 'w recorder" where
  "set_buffer p f s = s\<lparr>buffers := (buffers s)(p := f (buffers s p))\<rparr>"

definition set_context :: "ptr \<Rightarrow> (ContextWrapper \<Rightarrow> ContextWrapper) \<Rightarrow> 'w recorder \<Rightarrow> 'w recorder" where
  "set_context p f s = s\<lparr>contexts := (contexts s)(p := f (contexts s p))\<rparr>"

definition set_device :: "ptr \<Rightarrow> (DeviceWrapper \<Rightarrow> DeviceWrapper) \<Rightarrow> 'w recorder \<Rightarrow> 'w recorder" where
  "set_device p f s = s\<lparr>devices := (devices s)(p := f (devices s p))\<rparr>"

definition check_al_error_events :: "'w env \<Rightarrow> 'w recorder \<Rightarrow> uint32 \<times> 'w recorder" where
  "check_al_error_events R s =
     (if current_context s = 0 then (AL_NO_ERROR, s)
      else (case REAL_alGetError R (world s) of (alerr, w) \<Rightarrow>
        (let s1 = s\<lparr>world := w\<rparr> in
         if alerr \<noteq> AL_NO_ERROR
         then (let s2 = IO_ENUM alerr (IO_EVENTENUM R ALEE_ALERROR_TRIGGERED s1)
               in (alerr,
                   if current_context s2 \<noteq> 0
                   then (if ctx_errorlatch (contexts s2 (current_context s2)) = AL_NO_ERROR
                         then set_context (current_context s2) (\<lambda>c. c\<lparr>ctx_errorlatch := alerr\<rparr>) s2
                         else s2)
                   else (if null_context_errorlatch s2 = AL_NO_ERROR
                         then s2\<lparr>null_context_errorlatch := alerr\<rparr>
                         else s2)))
         else (alerr, s1))))"

definition check_alc_error_events :: "'w env \<Rightarrow> ptr \<Rightarrow> 'w recorder \<Rightarrow> uint32 \<times> 'w recorder" where
  "check_alc_error_events R device s =
     (if device \<noteq> 0
      then (case REAL_alcGetError R (dev_device (devices s device)) (world s) of (alcerr, w) \<Rightarrow>
        (let s1 = s\<lparr>world := w\<rparr> in
         if alcerr \<noteq> ALC_NO_ERROR
         then (let s2 = IO_ALCENUM alcerr (IO_PTR (of_nat device)
                          (IO_EVENTENUM R ALEE_ALCERROR_TRIGGERED s1))
               in (alcerr,
                   if dev_errorlatch (devices s2 device) = ALC_NO_ERROR
                   then set_device device (\<lambda>d. d\<lparr>dev_errorlatch := alcerr\<rparr>) s2
                   else s2))
         else (alcerr, s1)))
      else (ALC_NO_ERROR, s))"

text \<open>
  The \<open>check_source_state_...\<close> functions take a pointer to the field that caches the
  property: here the field's selector \<open>cur\<close> and its update \<open>upd\<close>.
\<close>

definition check_source_state_bool ::
  "'w env \<Rightarrow> ptr \<Rightarrow> uint32 \<Rightarrow> (SourceWrapper \<Rightarrow> uint8) \<Rightarrow>
     (uint8 \<Rightarrow> SourceWrapper \<Rightarrow> SourceWrapper) \<Rightarrow> 'w recorder \<Rightarrow> 'w recorder" where
  "check_source_state_bool R src param cur upd s =
     (case REAL_alGetSourcei R (src_name (sources s src)) param (world s) of (ival, w) \<Rightarrow>
        (let s1 = s\<lparr>world := w\<rparr>;
             newval = (if ival \<noteq> 0 then AL_TRUE else AL_FALSE)
         in if newval \<noteq> cur (sources s1 src)
            then set_source src (upd newval)
                   (IO_BOOLEAN newval (IO_ENUM param (IO_UINT32 (src_name (sources s1 src))
                      (IO_EVENTENUM R ALEE_SOURCE_STATE_CHANGED_BOOL s1))))
            else s1))"

definition check_source_state_enum ::
  "'w env \<Rightarrow> ptr \<Rightarrow> uint32 \<Rightarrow> (SourceWrapper \<Rightarrow> uint32) \<Rightarrow>
     (uint32 \<Rightarrow> SourceWrapper \<Rightarrow> SourceWrapper) \<Rightarrow> 'w recorder \<Rightarrow> 'w recorder" where
  "check_source_state_enum R src param cur upd s =
     (case REAL_alGetSourcei R (src_name (sources s src)) param (world s) of (ival, w) \<Rightarrow>
        (let s1 = s\<lparr>world := w\<rparr>;
             newval = ival
         in if newval \<noteq> cur (sources s1 src)
            then set_source src (upd newval)
                   (IO_ENUM newval (IO_ENUM param (IO_UINT32 (src_name (sources s1 src))
                      (IO_EVENTENUM R ALEE_SOURCE_STATE_CHANGED_ENUM s1))))
            else s1))"

definition check_source_state_int ::
  "'w env \<Rightarrow> ptr \<Rightarrow> uint32 \<Rightarrow> (SourceWrapper \<Rightarrow> uint32) \<Rightarrow>
     (uint32 \<Rightarrow> SourceWrapper \<Rightarrow> SourceWrapper) \<Rightarrow> 'w recorder \<Rightarrow> 'w recorder" where
  "check_source_state_int R src param cur upd s =
     (case REAL_alGetSourcei R (src_name (sources s src)) param (world s) of (ival, w) \<Rightarrow>
        (let s1 = s\<lparr>world := w\<rparr>
         in if ival \<noteq> cur (sources s1 src)
            then set_source src (upd ival)
                   (IO_INT32 ival (IO_ENUM param (IO_UINT32 (src_name (sources s1 src))
                      (IO_EVENTENUM R ALEE_SOURCE_STATE_CHANGED_INT s1))))
            else s1))"

definition check_source_state_uint ::
  "'w env \<Rightarrow> ptr \<Rightarrow> uint32 \<Rightarrow> (SourceWrapper \<Rightarrow> uint32) \<Rightarrow>
     (uint32 \<Rightarrow> SourceWrapper \<Rightarrow> SourceWrapper) \<Rightarrow> 'w recorder \<Rightarrow> 'w recorder" where
  "check_source_state_uint R src param cur upd s =
     (case REAL_alGetSourcei R (src_name (sources s src)) param (world s) of (ival, w) \<Rightarrow>
        (let s1 = s\<lparr>world := w\<rparr>;
             newval = ival
         in if newval \<noteq> cur (sources s1 src)
            then set_source src (upd newval)
                   (IO_UINT32 newval (IO_ENUM param (IO_UINT32 (src_name (sources s1 src))
                      (IO_EVENTENUM R ALEE_SOURCE_STATE_CHANGED_UINT s1))))
            else s1))"

definition check_source_state_float ::
  "'w env \<Rightarrow> ptr \<Rightarrow> uint32 \<Rightarrow> (SourceWrapper \<Rightarrow> uint32) \<Rightarrow>
     (uint32 \<Rightarrow> SourceWrapper \<Rightarrow> SourceWrapper) \<Rightarrow> 'w recorder \<Rightarrow> 'w recorder" where
  "check_source_state_float R src param cur upd s =
     (case REAL_alGetSourcef R (src_name (sources s src)) param (world s) of (fval, w) \<Rightarrow>
        (let s1 = s\<lparr>world := w\<rparr>
         in if float_ne fval (cur (sources s1 src))
            then set_source src (upd fval)
                   (IO_FLOAT fval (IO_ENUM param (IO_UINT32 (src_name (sources s1 src))
                      (IO_EVENTENUM R ALEE_SOURCE_STATE_CHANGED_FLOAT s1))))
            else s1))"

text \<open>\<open>memcmp\<close> compares the bit patterns.\<close>

definition check_source_state_float3 ::
  "'w env \<Rightarrow> ptr \<Rightarrow> uint32 \<Rightarrow> (SourceWrapper \<Rightarrow> uint32 \<times> uint32 \<times> uint32) \<Rightarrow>
     (uint32 \<times> uint32 \<times> uint32 \<Rightarrow> SourceWrapper \<Rightarrow> SourceWrapper) \<Rightarrow>
     'w recorder \<Rightarrow> 'w recorder" where
  "check_source_state_float3 R src param cur upd s =
     (case REAL_alGetSourcefv R (src_name (sources s src)) param (world s) of (fval, w) \<Rightarrow>
        (let s1 = s\<lparr>world := w\<rparr>
         in if fval \<noteq> cur (sources s1 src)
            then set_source src (upd fval)
                   (IO_FLOAT (snd (snd fval)) (IO_FLOAT (fst (snd fval)) (IO_FLOAT (fst fval)
                      (IO_ENUM param (IO_UINT32 (src_name (sources s1 src))
                         (IO_EVENTENUM R ALEE_SOURCE_STATE_CHANGED_FLOAT3 s1))))))
            else s1))"

definition check_source_state :: "'w env \<Rightarrow> ptr \<Rightarrow> 'w recorder \<Rightarrow> 'w recorder" where
  "check_source_state R src s =
     (let name = (if src \<noteq> 0 then src_name (sources s src) else 0) in
      if name \<noteq> 0
      then in_order
        [check_source_state_enum R src AL_SOURCE_STATE src_state (\<lambda>v r. r\<lparr>src_state := v\<rparr>),
         check_source_state_enum R src AL_SOURCE_TYPE src_type (\<lambda>v r. r\<lparr>src_type := v\<rparr>),
         check_source_state_uint R src AL_BUFFER src_buffer (\<lambda>v r. r\<lparr>src_buffer := v\<rparr>),
         check_source_state_int R src AL_BUFFERS_QUEUED src_buffers_queued
           (\<lambda>v r. r\<lparr>src_buffers_queued := v\<rparr>),
         check_source_state_int R src AL_BUFFERS_PROCESSED src_buffers_processed
           (\<lambda>v r. r\<lparr>src_buffers_processed := v\<rparr>),
         check_source_state_bool R src AL_SOURCE_RELATIVE src_source_relative
           (\<lambda>v r. r\<lparr>src_source_relative := v\<rparr>),
         check_source_state_bool R src AL_LOOPING src_looping (\<lambda>v r. r\<lparr>src_looping := v\<rparr>),
         check_source_state_int R src AL_SEC_OFFSET src_sec_offset
           (\<lambda>v r. r\<lparr>src_sec_offset := v\<rparr>),
         check_source_state_int R src AL_SAMPLE_OFFSET src_sample_offset
           (\<lambda>v r. r\<lparr>src_sample_offset := v\<rparr>),
         check_source_state_int R src AL_BYTE_OFFSET src_byte_offset
           (\<lambda>v r. r\<lparr>src_byte_offset := v\<rparr>),
         check_source_state_float R src AL_GAIN src_gain (\<lambda>v r. r\<lparr>src_gain := v\<rparr>),
         check_source_state_float R src AL_MIN_GAIN src_min_gain (\<lambda>v r. r\<lparr>src_min_gain := v\<rparr>),
         check_source_state_float R src AL_MAX_GAIN src_max_gain (\<lambda>v r. r\<lparr>src_max_gain := v\<rparr>),
         check_source_state_float R src AL_REFERENCE_DISTANCE src_reference_distance
           (\<lambda>v r. r\<lparr>src_reference_distance := v\<rparr>),
         check_source_state_float R src AL_ROLLOFF_FACTOR src_rolloff_factor
           (\<lambda>v r. r\<lparr>src_rolloff_factor := v\<rparr>),
         check_source_state_float R src AL_MAX_DISTANCE src_max_distance
           (\<lambda>v r. r\<lparr>src_max_distance := v\<rparr>),
         check_source_state_float R src AL_PITCH src_pitch (\<lambda>v r. r\<lparr>src_pitch := v\<rparr>),
         check_source_state_float R src AL_CONE_INNER_ANGLE src_cone_inner_angle
           (\<lambda>v r. r\<lparr>src_cone_inner_angle := v\<rparr>),
         check_source_state_float R src AL_CONE_OUTER_ANGLE src_cone_outer_angle
           (\<lambda>v r. r\<lparr>src_cone_outer_angle := v\<rparr>),
         check_source_state_float R src AL_CONE_OUTER_GAIN src_cone_outer_gain
           (\<lambda>v r. r\<lparr>src_cone_outer_gain := v\<rparr>),
         check_source_state_float3 R src AL_POSITION src_position
           (\<lambda>v r. r\<lparr>src_position := v\<rparr>),
         check_source_state_float3 R src AL_VELOCITY src_velocity
           (\<lambda>v r. r\<lparr>src_velocity := v\<rparr>),
         check_source_state_float3 R src AL_DIRECTION src_direction
           (\<lambda>v r. r\<lparr>src_direction := v\<rparr>)] s
      else s)"

definition check_device_state_bool ::
  "'w env \<Rightarrow> ptr \<Rightarrow> uint32 \<Rightarrow> (DeviceWrapper \<Rightarrow> uint8) \<Rightarrow>
     (uint8 \<Rightarrow> DeviceWrapper \<Rightarrow> DeviceWrapper) \<Rightarrow> 'w recorder \<Rightarrow> 'w recorder" where
  "check_device_state_bool R device param cur upd s =
     (case REAL_alcGetIntegerv R (dev_device (devices s device)) param (world s) of (ival, w) \<Rightarrow>
        (let s1 = s\<lparr>world := w\<rparr>;
             newval = (if ival \<noteq> 0 then ALC_TRUE else ALC_FALSE)
         in if newval \<noteq> cur (devices s1 device)
            then set_device device (upd newval)
                   (IO_ALCBOOLEAN newval (IO_ENUM param (IO_PTR (of_nat device)
                      (IO_EVENTENUM R ALEE_DEVICE_STATE_CHANGED_BOOL s1))))
            else s1))"

definition check_device_state_int ::
  "'w env \<Rightarrow> ptr \<Rightarrow> uint32 \<Rightarrow> (DeviceWrapper \<Rightarrow> uint32) \<Rightarrow>
     (uint32 \<Rightarrow> DeviceWrapper \<Rightarrow> DeviceWrapper) \<Rightarrow> 'w recorder \<Rightarrow> 'w recorder" where
  "check_device_state_int R device param cur upd s =
     (case REAL_alcGetIntegerv R (dev_device (devices s device)) param (world s) of (ival, w) \<Rightarrow>
        (let s1 = s\<lparr>world := w\<rparr>
         in if ival \<noteq> cur (devices s1 device)
            then set_device device (upd ival)
                   (IO_INT32 ival (IO_ALCENUM param (IO_PTR (of_nat device)
                      (IO_EVENTENUM R ALEE_DEVICE_STATE_CHANGED_INT s1))))
            else s1))"

section \<open>The recorder: the polling pass\<close>

text \<open>
  The three nested loops of \<open>check_al_async_states\<close>, innermost first. They follow
  pointers, so they need not end: a result \<open>None\<close> says that the loop, and with it the
  wrapped call, does not return. The innermost loop polls the source \<open>src\<close> of the
  playlist of context \<open>ctx\<close> and takes it out of the list when it no longer plays.
\<close>

partial_function (option) check_al_async_states_playlist ::
  "'w env \<Rightarrow> ptr \<Rightarrow> ptr \<Rightarrow> 'w recorder \<Rightarrow> 'w recorder option" where
  "check_al_async_states_playlist R ctx src s =
     (if src = 0 then Some s
      else (let next = src_playlist_next (sources s src);
                s1 = check_source_state R src s;
                s2 = (if src_state (sources s1 src) \<noteq> AL_PLAYING
                      then (let a = (if next \<noteq> 0
                                     then set_source next
                                            (\<lambda>r. r\<lparr>src_playlist_prev := src_playlist_prev (sources s1 src)\<rparr>) s1
                                     else s1);
                                b = (if src_playlist_prev (sources a src) \<noteq> 0
                                     then set_source (src_playlist_prev (sources a src))
                                            (\<lambda>r. r\<lparr>src_playlist_next := next\<rparr>) a
                                     else set_context ctx (\<lambda>c. c\<lparr>ctx_playlist := next\<rparr>) a);
                                c = set_source src (\<lambda>r. r\<lparr>src_playlist_prev := 0\<rparr>) b
                            in set_source src (\<lambda>r. r\<lparr>src_playlist_next := 0\<rparr>) c)
                      else s1)
            in check_al_async_states_playlist R ctx next s2))"

partial_function (option) check_al_async_states_contexts ::
  "'w env \<Rightarrow> ptr \<Rightarrow> 'w recorder \<Rightarrow> 'w recorder option" where
  "check_al_async_states_contexts R ctx s =
     (if ctx = 0 then Some s
      else (case check_al_async_states_playlist R ctx (ctx_playlist (contexts s ctx)) s of
              None \<Rightarrow> None
            | Some s1 \<Rightarrow> check_al_async_states_contexts R (ctx_next (contexts s1 ctx)) s1))"

partial_function (option) check_al_async_states_devices ::
  "'w env \<Rightarrow> ptr \<Rightarrow> 'w recorder \<Rightarrow> 'w recorder option" where
  "check_al_async_states_devices R device s =
     (if device = 0 then Some s
      else (let s1 = (if dev_supports_disconnect_ext (devices s device) \<noteq> 0
                      then check_device_state_bool R device ALC_CONNECTED dev_connected
                             (\<lambda>v d. d\<lparr>dev_connected := v\<rparr>) s
                      else s)
            in case (if dev_iscapture (devices s1 device) \<noteq> 0
                     then Some (check_device_state_int R device ALC_CAPTURE_SAMPLES
                                  dev_capture_samples (\<lambda>v d. d\<lparr>dev_capture_samples := v\<rparr>) s1)
                     else check_al_async_states_contexts R (dev_contexts (devices s1 device)) s1) of
                 None \<Rightarrow> None
               | Some s2 \<Rightarrow> check_al_async_states_devices R (dev_next (devices s2 device)) s2))"

definition check_al_async_states :: "'w env \<Rightarrow> 'w recorder \<Rightarrow> 'w recorder option" where
  "check_al_async_states R s =
     check_al_async_states_devices R (dev_next (devices s null_device)) s"

text \<open>The macros that open and close every wrapped call.\<close>

definition IO_START :: "'w env \<Rightarrow> EventEnum \<Rightarrow> 'w recorder \<Rightarrow> 'w recorder" where
  "IO_START R e s = IO_ENTRYINFO R e s"

definition IO_END :: "'w env \<Rightarrow> 'w recorder \<Rightarrow> 'w recorder option" where
  "IO_END R s = check_al_async_states R (snd (check_al_error_events R s))"

definition IO_END_ALC :: "'w env \<Rightarrow> ptr \<Rightarrow> 'w recorder \<Rightarrow> 'w recorder option" where
  "IO_END_ALC R dev s = check_al_async_states R (snd (check_alc_error_events R dev s))"

section \<open>The recorder: wrapped entry points\<close>

definition hash_alname :: "uint32 \<Rightarrow> uint8" where
  "hash_alname name = ucast (name AND 0xFF)"

text \<open>
  The walks along a hash bucket, from \<open>retval\<close> on. They follow \<open>hash_next\<close> and so
  need not end; \<open>None\<close> says that they do not. The result 0 is NULL.
\<close>

partial_function (option) source_wrapped_lookup_walk ::
  "(ptr \<Rightarrow> SourceWrapper) \<Rightarrow> uint32 \<Rightarrow> ptr \<Rightarrow> ptr option" where
  "source_wrapped_lookup_walk h name retval =
     (if retval = 0 then Some 0
      else if src_name (h retval) = name then Some retval
      else source_wrapped_lookup_walk h name (src_hash_next (h retval)))"

definition source_wrapped_lookup :: "uint32 \<Rightarrow> 'w recorder \<Rightarrow> ptr option" where
  "source_wrapped_lookup name s =
     (let ctx = current_context s in
      if ctx \<noteq> 0 \<and> name \<noteq> 0
      then source_wrapped_lookup_walk (sources s) name
             (ctx_wrapped_source_hash (contexts s ctx) (hash_alname name))
      else Some 0)"

partial_function (option) buffer_wrapped_lookup_walk ::
  "(ptr \<Rightarrow> BufferWrapper) \<Rightarrow> uint32 \<Rightarrow> ptr \<Rightarrow> ptr option" where
  "buffer_wrapped_lookup_walk h name retval =
     (if retval = 0 then Some 0
      else if buf_name (h retval) = name then Some retval
      else buffer_wrapped_lookup_walk h name (buf_hash_next (h retval)))"

definition buffer_wrapped_lookup :: "uint32 \<Rightarrow> 'w recorder \<Rightarrow> ptr option" where
  "buffer_wrapped_lookup name s =
     (let device = (if current_context s \<noteq> 0 then ctx_device (contexts s (current_context s)) else 0) in
      if device \<noteq> 0 \<and> name \<noteq> 0
      then buffer_wrapped_lookup_walk (buffers s) name
             (dev_wrapped_buffer_hash (devices s device) (hash_alname name))
      else Some 0)"

text \<open>
  The first \<open>n\<close> entries of an array argument, \<open>n\<close> an \<open>ALsizei\<close>: a loop
  \<open>for (i = 0; i < n; i++)\<close> runs over them, and over none when \<open>n\<close> is negative.
\<close>

definition counted :: "uint32 \<Rightarrow> 'a list \<Rightarrow> 'a list" where
  "counted n xs = take (nat (sint n)) xs"

definition alGetError :: "'w env \<Rightarrow> 'w recorder \<Rightarrow> (uint32 \<times> 'w recorder) option" where
  "alGetError R s =
     (let s1 = IO_START R ALEE_alGetError s;
          retval = (if current_context s1 = 0 then null_context_errorlatch s1
                    else ctx_errorlatch (contexts s1 (current_context s1)));
          s2 = (if current_context s1 = 0 then s1\<lparr>null_context_errorlatch := AL_NO_ERROR\<rparr>
                else set_context (current_context s1) (\<lambda>c. c\<lparr>ctx_errorlatch := AL_NO_ERROR\<rparr>) s1)
      in map_option (\<lambda>s3. (retval, s3)) (IO_END R (IO_ENUM retval s2)))"

definition alcGetError :: "'w env \<Rightarrow> ptr \<Rightarrow> 'w recorder \<Rightarrow> (uint32 \<times> 'w recorder) option" where
  "alcGetError R device' s =
     (let device = (if device' \<noteq> 0 then device' else null_device);
          s1 = IO_PTR (of_nat device') (IO_START R ALEE_alcGetError s);
          retval = dev_errorlatch (devices s1 device);
          s2 = set_device device (\<lambda>d. d\<lparr>dev_errorlatch := ALC_NO_ERROR\<rparr>) s1
      in map_option (\<lambda>s3. (retval, s3)) (IO_END_ALC R device (IO_ALCENUM retval s2)))"

text \<open>
  \<open>free\<close> of the extension string has no effect on the model's state; \<open>free\<close> of a
  wrapper takes its address out of the allocated set. \<open>alcCloseDevice(NULL)\<close> works on
  the static \<open>null_device\<close>; when the real call then reports \<open>ALC_TRUE\<close>, the source
  passes the address of this static object to \<open>free\<close>, which ends the process: the
  call does not return.
\<close>

definition alcCloseDevice :: "'w env \<Rightarrow> ptr \<Rightarrow> 'w recorder \<Rightarrow> (uint8 \<times> 'w recorder) option" where
  "alcCloseDevice R device' s =
     (let device = (if device' \<noteq> 0 then device' else null_device);
          s1 = IO_PTR (of_nat device') (IO_START R ALEE_alcCloseDevice s)
      in case REAL_alcCloseDevice R (dev_device (devices s1 device)) (world s1) of (retval, w) \<Rightarrow>
        (let s2 = IO_ALCBOOLEAN retval (s1\<lparr>world := w\<rparr>)
         in case (if retval = ALC_TRUE
                  then (let a = (if device \<noteq> null_device
                                 then (let a1 = (if dev_next (devices s2 device) \<noteq> 0
                                                 then set_device (dev_next (devices s2 device))
                                                        (\<lambda>d. d\<lparr>dev_prev := dev_prev (devices s2 device)\<rparr>) s2
                                                 else s2)
                                       in if dev_prev (devices a1 device) \<noteq> 0
                                          then set_device (dev_prev (devices a1 device))
                                                 (\<lambda>d. d\<lparr>dev_next := dev_next (devices a1 device)\<rparr>) a1
                                          else a1)
                                 else s2)
                        in if device = null_device then None
                           else Some (a\<lparr>allocated_devices := allocated_devices a - {device}\<rparr>))
                  else Some s2) of
              None \<Rightarrow> None
            | Some s3 \<Rightarrow>
                map_option (\<lambda>s4. (retval, s4))
                  (IO_END_ALC R (if retval = ALC_TRUE then 0 else device) s3)))"

definition alcDestroyContext :: "'w env \<Rightarrow> ptr \<Rightarrow> 'w recorder \<Rightarrow> 'w recorder option" where
  "alcDestroyContext R ctx s =
     (let s1 = IO_PTR (of_nat ctx) (IO_START R ALEE_alcDestroyContext s);
          s2 = s1\<lparr>world := REAL_alcDestroyContext R
                   (if ctx \<noteq> 0 then ctx_ctx (contexts s1 ctx) else 0) (world s1)\<rparr>;
          device = (if ctx \<noteq> 0 then ctx_device (contexts s2 ctx) else 0);
          s3 = (if ctx \<noteq> 0
                then (let a = (if ctx_next (contexts s2 ctx) \<noteq> 0
                               then set_context (ctx_next (contexts s2 ctx))
                                      (\<lambda>c. c\<lparr>ctx_prev := ctx_prev (contexts s2 ctx)\<rparr>) s2
                               else s2);
                          b = (if ctx_prev (contexts a ctx) \<noteq> 0
                               then set_context (ctx_prev (contexts a ctx))
                                      (\<lambda>c. c\<lparr>ctx_next := ctx_next (contexts a ctx)\<rparr>) a
                               else set_device device
                                      (\<lambda>d. d\<lparr>dev_contexts := ctx_next (contexts a ctx)\<rparr>) a)
                      in b\<lparr>allocated_contexts := allocated_contexts b - {ctx}\<rparr>)
                else s2)
      in IO_END_ALC R device s3)"

definition init_source_state :: "'w env \<Rightarrow> ptr \<Rightarrow> uint32 \<Rightarrow> 'w recorder \<Rightarrow> 'w recorder" where
  "init_source_state R src name s =
     check_source_state R src
       (set_source src (\<lambda>r. zero_SourceWrapper\<lparr>src_name := name, src_state := AL_INITIAL,
          src_type := AL_UNDETERMINED, src_gain := float_1, src_max_gain := float_1,
          src_reference_distance := float_1, src_max_distance := FLT_MAX,
          src_rolloff_factor := float_1, src_pitch := float_1,
          src_cone_inner_angle := float_360, src_cone_outer_angle := float_360\<rparr>) s)"

text \<open>
  The second loop of \<open>alGenSources\<close>, over the names. \<open>malloc\<close> returning NULL ends the
  process (\<open>out_of_memory\<close>): the call does not return.
\<close>

fun alGenSources_wrap :: "'w env \<Rightarrow> ptr \<Rightarrow> uint32 list \<Rightarrow> 'w recorder \<Rightarrow> 'w recorder option" where
  "alGenSources_wrap R ctx [] s = Some s"
| "alGenSources_wrap R ctx (name # names) s =
     (if name \<noteq> 0
      then (case malloc R (world s) of (src, w) \<Rightarrow>
              if src = 0 then None
              else (let hash = hash_alname name;
                        s1 = init_source_state R src name
                               (s\<lparr>world := w, allocated_sources := insert src (allocated_sources s)\<rparr>);
                        s2 = set_source src
                               (\<lambda>r. r\<lparr>src_hash_next := ctx_wrapped_source_hash (contexts s1 ctx) hash\<rparr>) s1;
                        s3 = (if ctx_wrapped_source_hash (contexts s2 ctx) hash \<noteq> 0
                              then set_source (ctx_wrapped_source_hash (contexts s2 ctx) hash)
                                     (\<lambda>r. r\<lparr>src_hash_prev := src\<rparr>) s2
                              else s2);
                        s4 = set_context ctx
                               (\<lambda>c. c\<lparr>ctx_wrapped_source_hash := (ctx_wrapped_source_hash c)(hash := src)\<rparr>) s3
                    in alGenSources_wrap R ctx names s4))
      else alGenSources_wrap R ctx names s)"

text \<open>
  The arguments of \<open>alGenSources\<close>, \<open>alDeleteSources\<close> and \<open>alDeleteBuffers\<close> as they go
  to the log: \<open>IO_ALSIZEI(n); IO_PTR(names);\<close> and \<open>IO_UINT32(names[i])\<close> for \<open>i < n\<close>.
\<close>

definition IO_name_array :: "uint32 \<Rightarrow> uint64 \<Rightarrow> uint32 list \<Rightarrow> 'w recorder \<Rightarrow> 'w recorder" where
  "IO_name_array n names_ptr names s =
     fold IO_UINT32 (counted n names) (IO_PTR names_ptr (IO_ALSIZEI n s))"

text \<open>
  \<open>alGenSources\<close>: the array \<open>names\<close> is zeroed and then filled by the real library;
  \<open>REAL_alGenSources\<close> yields the entries it wrote.
\<close>

definition alGenSources ::
  "'w env \<Rightarrow> uint32 \<Rightarrow> uint64 \<Rightarrow> 'w recorder \<Rightarrow> (uint32 list \<times> 'w recorder) option" where
  "alGenSources R n names_ptr s =
     (let ctx = current_context s in
      case REAL_alGenSources R n (world s) of (written, w) \<Rightarrow>
        (let names = counted n (written @ replicate (nat (sint n)) 0);
             s1 = IO_name_array n names_ptr names (IO_START R ALEE_alGenSources (s\<lparr>world := w\<rparr>))
         in case (if ctx \<noteq> 0 then alGenSources_wrap R ctx names s1 else Some s1) of
              None \<Rightarrow> None
            | Some s2 \<Rightarrow> map_option (\<lambda>s3. (names, s3)) (IO_END R s2)))"



fun alDeleteBuffers_unwrap :: "ptr \<Rightarrow> uint32 list \<Rightarrow> 'w recorder \<Rightarrow> 'w recorder option" where
  "alDeleteBuffers_unwrap device [] s = Some s"
| "alDeleteBuffers_unwrap device (name # names) s =
     (case buffer_wrapped_lookup name s of
        None \<Rightarrow> None
      | Some buf \<Rightarrow>
          if buf \<noteq> 0
          then (let a = (if buf_hash_prev (buffers s buf) \<noteq> 0
                         then set_buffer (buf_hash_prev (buffers s buf))
                                (\<lambda>r. r\<lparr>buf_hash_next := buf_hash_next (buffers s buf)\<rparr>) s
                         else set_device device
                                (\<lambda>d. d\<lparr>dev_wrapped_buffer_hash :=
                                   (dev_wrapped_buffer_hash d)(hash_alname name := buf_hash_next (buffers s buf))\<rparr>) s);
                    b = (if buf_hash_next (buffers a buf) \<noteq> 0
                         then set_buffer (buf_hash_next (buffers a buf))
                                (\<lambda>r. r\<lparr>buf_hash_prev := buf_hash_prev (buffers a buf)\<rparr>) a
                         else a)
                in alDeleteBuffers_unwrap device names
                     (b\<lparr>allocated_buffers := allocated_buffers b - {buf}\<rparr>))
          else alDeleteBuffers_unwrap device names s)"

definition alDeleteBuffers ::
  "'w env \<Rightarrow> uint32 \<Rightarrow> uint64 \<Rightarrow> uint32 list \<Rightarrow> 'w recorder \<Rightarrow> 'w recorder option" where
  "alDeleteBuffers R n names_ptr names s =
     (let device = (if current_context s \<noteq> 0 then ctx_device (contexts s (current_context s)) else 0);
          s1 = IO_name_array n names_ptr names (IO_START R ALEE_alDeleteBuffers s);
          s2 = s1\<lparr>world := REAL_alDeleteBuffers R n (counted n names) (world s1)\<rparr>
      in case check_al_error_events R s2 of (err, s3) \<Rightarrow>
           (case (if err = AL_NO_ERROR \<and> device \<noteq> 0
                  then alDeleteBuffers_unwrap device (counted n names) s3
                  else Some s3) of
              None \<Rightarrow> None
            | Some s4 \<Rightarrow> IO_END R s4))"

definition add_source_to_playlist :: "uint32 \<Rightarrow> 'w recorder \<Rightarrow> 'w recorder option" where
  "add_source_to_playlist name s =
     (case source_wrapped_lookup name s of
        None \<Rightarrow> None
      | Some src \<Rightarrow>
          (let ctx = current_context s in
           if src \<noteq> 0 \<and> ctx \<noteq> 0 \<and> src_playlist_next (sources s src) = 0
              \<and> src_playlist_prev (sources s src) = 0
           then (let a = set_source src (\<lambda>r. r\<lparr>src_playlist_prev := 0\<rparr>) s;
                     b = set_source src (\<lambda>r. r\<lparr>src_playlist_next := ctx_playlist (contexts a ctx)\<rparr>) a;
                     c = set_context ctx (\<lambda>c. c\<lparr>ctx_playlist := src\<rparr>) b
                 in Some (if src_playlist_next (sources c src) \<noteq> 0
                          then set_source (src_playlist_next (sources c src))
                                 (\<lambda>r. r\<lparr>src_playlist_prev := src\<rparr>) c
                          else c))
           else Some s))"

definition alSourcePlay :: "'w env \<Rightarrow> uint32 \<Rightarrow> 'w recorder \<Rightarrow> 'w recorder option" where
  "alSourcePlay R name s =
     (let s1 = IO_UINT32 name (IO_START R ALEE_alSourcePlay s);
          s2 = s1\<lparr>world := REAL_alSourcePlay R name (world s1)\<rparr>
      in case add_source_to_playlist name s2 of
           None \<Rightarrow> None
         | Some s3 \<Rightarrow> IO_END R s3)"

section \<open>Example states\<close>

text \<open>
  The state after one device was opened and one context created on it: the device's
  wrapper at address 2, linked behind \<open>null_device\<close>, the context's wrapper at address
  3, alone on the device's list. The real handles are 100 and 200.
\<close>

definition one_context_state :: "'w \<Rightarrow> 'w recorder" where
  "one_context_state w = (recorder_start w)\<lparr>
     devices := (\<lambda>a. zero_DeviceWrapper)
       (null_device := zero_DeviceWrapper\<lparr>dev_next := 2\<rparr>,
        2 := zero_DeviceWrapper\<lparr>dev_device := 100, dev_connected := ALC_TRUE,
               dev_prev := null_device, dev_contexts := 3\<rparr>),
     contexts := (\<lambda>a. zero_ContextWrapper)
       (3 := zero_ContextWrapper\<lparr>ctx_ctx := 200, ctx_device := 2\<rparr>),
     allocated_devices := {2},
     allocated_contexts := {3}\<rparr>"

text \<open>
  The context is current and one source, named 1, was generated in it: its wrapper is at
  address 4, alone in its hash bucket, in state \<open>AL_INITIAL\<close> and not on the playlist.
\<close>

definition one_source_state :: "'w \<Rightarrow> 'w recorder" where
  "one_source_state w = (recorder_start w)\<lparr>
     devices := (\<lambda>a. zero_DeviceWrapper)
       (null_device := zero_DeviceWrapper\<lparr>dev_next := 2\<rparr>,
        2 := zero_DeviceWrapper\<lparr>dev_device := 100, dev_connected := ALC_TRUE,
               dev_prev := null_device, dev_contexts := 3\<rparr>),
     contexts := (\<lambda>a. zero_ContextWrapper)
       (3 := zero_ContextWrapper\<lparr>ctx_ctx := 200, ctx_device := 2,
               ctx_wrapped_source_hash := (\<lambda>h. 0)(hash_alname 1 := 4)\<rparr>),
     sources := (\<lambda>a. zero_SourceWrapper)
       (4 := zero_SourceWrapper\<lparr>src_name := 1, src_state := AL_INITIAL\<rparr>),
     allocated_devices := {2},
     allocated_contexts := {3},
     allocated_sources := {4},
     current_context := 3\<rparr>"

text \<open>
  The real \<open>alcDestroyContext\<close> fails: it leaves an error for \<open>alcGetError\<close> to report.
  The world is whether an ALC error is pending.
\<close>

definition failing_destroy_env :: "bool env" where
  "failing_destroy_env = quiet_env\<lparr>
     REAL_alcDestroyContext := (\<lambda>c w. True),
     REAL_alcGetError := (\<lambda>d w. (if w then ALC_INVALID_CONTEXT else ALC_NO_ERROR, False))\<rparr>"

text \<open>
  A source that plays for a while: the real library answers the first two queries of
  \<open>AL_SOURCE_STATE\<close> with \<open>AL_PLAYING\<close> and the later ones with \<open>AL_STOPPED\<close>. The world
  is the number of these queries so far.
\<close>

definition playing_env :: "nat env" where
  "playing_env = quiet_env\<lparr>
     REAL_alGetSourcei := (\<lambda>name param w.
        if param = AL_SOURCE_STATE then (if w < 2 then AL_PLAYING else AL_STOPPED, Suc w)
        else (0, w))\<rparr>"

text \<open>The state after the context was made current.\<close>

definition current_context_state :: "'w \<Rightarrow> 'w recorder" where
  "current_context_state w = (one_context_state w)\<lparr>current_context := 3\<rparr>"

text \<open>
  The real library has an AL error pending: its \<open>alGetError\<close> answers the first query
  with \<open>AL_INVALID_NAME\<close> and the later ones with \<open>AL_NO_ERROR\<close>. The world is the
  number of these queries so far.
\<close>

definition pending_error_env :: "nat env" where
  "pending_error_env = quiet_env\<lparr>
     REAL_alGetError := (\<lambda>w. (if w = 0 then AL_INVALID_NAME else AL_NO_ERROR, Suc w))\<rparr>"

section \<open>The player: reading a trace\<close>

text \<open>
  What the player uses but does not define: the magic value, the format version and
  \<open>MAX_CALLSTACKS\<close> of \<open>altrace_common.h\<close>; the number of the tag \<open>ALEE_EOS\<close>; the
  front-end's \<open>visit_progress\<close>, which sees the callbacks made so far, the offset and
  the size; and the cases of the \<open>switch\<close> in \<open>process_tracelog\<close> other than
  \<open>ALEE_EOS\<close> and \<open>default\<close>, which the source generates from
  \<open>altrace_entrypoints.h\<close> or lists one by one: \<open>decoders tag\<close> is the decoder the
  \<open>switch\<close> runs for \<open>tag\<close>, and \<open>None\<close> when it has no case for it.
\<close>

record penv =
  ALTRACE_LOG_FILE_MAGIC :: uint32
  ALTRACE_LOG_FILE_FORMAT :: uint32
  MAX_CALLSTACKS_play :: nat
  EOS_tag :: uint32
  visit_progress :: "visit list \<Rightarrow> nat \<Rightarrow> nat \<Rightarrow> bool"
  decoders :: "uint32 \<Rightarrow> (player \<Rightarrow> player) option"

text \<open>
  Modelled from the spec: the \<open>SIMPLE_MAP\<close> and \<open>HASH_MAP\<close> macros of
  \<open>altrace_common.h\<close> are not among the sources. Following the spec's thread-id map
  ("resolving the raw thread id to its dense id, creating the dense id on first sight"),
  \<open>get_mapped_threadid\<close> yields 0 for a raw id never added, \<open>add_threadid_to_map\<close>
  stores the pair, and \<open>free_threadid_map\<close> (like the other \<open>free_..._map\<close>) empties the
  map.
\<close>

definition get_mapped_threadid :: "uint64 \<Rightarrow> player \<Rightarrow> uint32" where
  "get_mapped_threadid logthreadid p = threadid_map p logthreadid"

definition add_threadid_to_map :: "uint64 \<Rightarrow> uint32 \<Rightarrow> player \<Rightarrow> player" where
  "add_threadid_to_map logthreadid t p = p\<lparr>threadid_map := (threadid_map p)(logthreadid := t)\<rparr>"

text \<open>
  The loop of \<open>IO_ENTRYINFO\<close> over the frames, from index \<open>i\<close> with \<open>k\<close> frames to go:
  the entries it stores into \<open>callerinfo->callstack\<close> and the state.
\<close>

fun IO_ENTRYINFO_play_frames ::
  "nat \<Rightarrow> nat \<Rightarrow> nat \<Rightarrow> player \<Rightarrow> (uint64 \<times> cstring) list \<times> player" where
  "IO_ENTRYINFO_play_frames maxc 0 i p = ([], p)"
| "IO_ENTRYINFO_play_frames maxc (Suc k) i p =
     (case IO_PTR_play p of (ptr, p1) \<Rightarrow>
      case IO_ENTRYINFO_play_frames maxc k (Suc i) p1 of (rest, p2) \<Rightarrow>
        ((if \<not> io_failure p1 \<and> i < maxc then [(ptr, stackframe_map_play p1 ptr)] else []) @ rest,
         p2))"

text \<open>
  \<open>IO_ENTRYINFO\<close> fills the caller's \<open>CallerInfo\<close>; on an IO failure it returns early
  and leaves the struct as it was (here: zeroed), and \<open>IO_START\<close> then skips the body.
\<close>

definition zero_CallerInfo :: CallerInfo where
  "zero_CallerInfo = \<lparr>num_callstack_frames = 0, threadid = 0, ci_trace_scope = 0,
     wait_until = 0, callstack = [], fdoffset = 0\<rparr>"

definition IO_ENTRYINFO_play :: "penv \<Rightarrow> player \<Rightarrow> CallerInfo \<times> player" where
  "IO_ENTRYINFO_play P p =
     (case IO_UINT32_play p of (wait, p1) \<Rightarrow>
      case IO_UINT64_play p1 of (logthreadid, p2) \<Rightarrow>
      case IO_UINT32_play p2 of (frames, p3) \<Rightarrow>
        if io_failure p3 then (zero_CallerInfo, p3)
        else (let p4 = (if get_mapped_threadid logthreadid p3 = 0
                        then add_threadid_to_map logthreadid (next_mapped_threadid p3 + 1)
                               (p3\<lparr>next_mapped_threadid := next_mapped_threadid p3 + 1\<rparr>)
                        else p3);
                  tid = (if get_mapped_threadid logthreadid p3 = 0
                         then next_mapped_threadid p3 + 1
                         else get_mapped_threadid logthreadid p3)
              in case IO_ENTRYINFO_play_frames (MAX_CALLSTACKS_play P) (unat frames) 0 p4 of
                   (stack, p5) \<Rightarrow>
                     (\<lparr>num_callstack_frames =
                          (if unat frames < MAX_CALLSTACKS_play P then frames
                           else of_nat (MAX_CALLSTACKS_play P)),
                        threadid = tid, ci_trace_scope = trace_scope p4, wait_until = wait,
                        callstack = stack, fdoffset = offset p5\<rparr>, p5)))"

definition decode_alGetError :: "penv \<Rightarrow> player \<Rightarrow> player" where
  "decode_alGetError P p =
     (case IO_ENTRYINFO_play P p of (callerinfo, p1) \<Rightarrow>
        if \<not> io_failure p1
        then (case IO_ENUM_play p1 of (retval, p2) \<Rightarrow>
                if \<not> io_failure p2
                then p2\<lparr>visits := visits p2 @ [Visit_alGetError callerinfo retval]\<rparr>
                else p2)
        else p1)"

definition decode_eos :: "player \<Rightarrow> player" where
  "decode_eos p =
     (case IO_UINT32_play p of (ticks, p1) \<Rightarrow>
        if \<not> io_failure p1 then p1\<lparr>visits := visits p1 @ [Visit_eos True ticks]\<rparr> else p1)"

text \<open>
  \<open>quit_altrace_playback\<close> closes the log and frees the maps. It leaves
  \<open>next_mapped_threadid\<close>, \<open>trace_scope\<close> and \<open>io_failure\<close> as they are.
\<close>

definition quit_altrace_playback :: "player \<Rightarrow> player" where
  "quit_altrace_playback p =
     p\<lparr>logfd := None, threadid_map := (\<lambda>t. 0), stackframe_map_play := (\<lambda>a. None),
       sourcelabel_map := (\<lambda>n. None)\<rparr>"

text \<open>
  \<open>init_altrace_playback\<close>: \<open>file\<close> is the contents of the file named \<open>filename\<close>, or
  \<open>None\<close> when it cannot be opened. The result is \<open>okay\<close>.
\<close>

definition init_altrace_playback :: "penv \<Rightarrow> uint8 list option \<Rightarrow> player \<Rightarrow> bool \<times> player" where
  "init_altrace_playback P file p =
     (let p0 = p\<lparr>io_failure := False, logfd := file, offset := 0\<rparr>;
          (okay, p1) =
            (if file = None then (False, p0\<lparr>stderr := stderr p0 @ [Failed_to_open_log_file]\<rparr>)
             else (case IO_UINT32_play p0 of (magic, q1) \<Rightarrow>
                     if magic \<noteq> ALTRACE_LOG_FILE_MAGIC P
                     then (False, q1\<lparr>stderr := stderr q1 @ [Not_an_OpenAL_log_file]\<rparr>)
                     else (case IO_UINT32_play q1 of (version, q2) \<Rightarrow>
                             if version \<noteq> ALTRACE_LOG_FILE_FORMAT P
                             then (False, q2\<lparr>stderr := stderr q2 @ [Unsupported_log_file_format_version]\<rparr>)
                             else (True, q2))))
      in if \<not> okay then (okay, quit_altrace_playback p1) else (okay, p1))"

text \<open>
  The \<open>while (!eos)\<close> loop of \<open>process_tracelog\<close>, with its result \<open>retval\<close>. A decoder
  of the table may do anything, so the loop need not end: \<open>None\<close> says that it does not.
\<close>

partial_function (option) process_tracelog_loop ::
  "penv \<Rightarrow> nat \<Rightarrow> player \<Rightarrow> (int \<times> player) option" where
  "process_tracelog_loop P fdsize p =
     (if io_failure p
      then Some (0, p\<lparr>visits := visits p @ [Visit_eos False 0]\<rparr>)
      else if \<not> visit_progress P (visits p) (offset p) fdsize
      then Some (- 1, p\<lparr>visits := visits p @ [Visit_progress (offset p) fdsize, Visit_eos False 0],
                         stderr := stderr p @ [Cancelled_file_processing]\<rparr>)
      else (case IO_EVENTENUM_play (p\<lparr>visits := visits p @ [Visit_progress (offset p) fdsize]\<rparr>) of
              (tag, p1) \<Rightarrow>
                if tag = EOS_tag P then Some (1, decode_eos p1)
                else (case decoders P tag of
                        None \<Rightarrow> Some (0, p1\<lparr>visits := visits p1 @ [Visit_eos False 0]\<rparr>)
                      | Some decode \<Rightarrow> process_tracelog_loop P fdsize (decode p1))))"

definition process_tracelog :: "penv \<Rightarrow> uint8 list option \<Rightarrow> player \<Rightarrow> (int \<times> player) option" where
  "process_tracelog P file p =
     (case init_altrace_playback P file p of (okay, p1) \<Rightarrow>
        if \<not> okay then Some (0, p1)
        else (case process_tracelog_loop P (case file of None \<Rightarrow> 0 | Some f \<Rightarrow> length f)
                      (p1\<lparr>trace_scope := 0\<rparr>) of
                None \<Rightarrow> None
              | Some (retval, p2) \<Rightarrow> Some (retval, quit_altrace_playback p2)))"

text \<open>
  The states in which the \<open>while\<close> loop of \<open>process_tracelog\<close> is at its head:
  \<open>loop_reaches P fdsize p q\<close> says that the loop, started in \<open>p\<close>, is at its head in
  \<open>q\<close> after some iterations, each of which passed the two checks, read a tag other than
  \<open>ALEE_EOS\<close> that has a case in the \<open>switch\<close>, and ran the decoder of this case.
\<close>

inductive loop_reaches :: "penv \<Rightarrow> nat \<Rightarrow> player \<Rightarrow> player \<Rightarrow> bool" for P fdsize where
  start: "loop_reaches P fdsize p p"
| event: "loop_reaches P fdsize p q \<Longrightarrow> \<not> io_failure q \<Longrightarrow>
          visit_progress P (visits q) (offset q) fdsize \<Longrightarrow>
          IO_EVENTENUM_play (q\<lparr>visits := visits q @ [Visit_progress (offset q) fdsize]\<rparr>) = (tag, q1) \<Longrightarrow>
          tag \<noteq> EOS_tag P \<Longrightarrow> decoders P tag = Some decode \<Longrightarrow>
          loop_reaches P fdsize p (decode q1)"

text \<open>
  An example player: magic 0x0104E5A1, format 1, the tag of \<open>ALEE_EOS\<close> is 0, a visitor
  that never cancels, and a \<open>switch\<close> with the one case \<open>ALEE_alGetError\<close> at tag 16.
\<close>

definition example_penv :: penv where
  "example_penv = \<lparr>ALTRACE_LOG_FILE_MAGIC = 0x0104E5A1, ALTRACE_LOG_FILE_FORMAT = 1,
     MAX_CALLSTACKS_play = 32, EOS_tag = 0, visit_progress = (\<lambda>vs off size. True),
     decoders = (\<lambda>tag. None)\<rparr>"

definition example_player :: penv where
  "example_player = example_penv\<lparr>decoders :=
     (\<lambda>tag. if tag = 16 then Some (decode_alGetError example_penv) else None)\<rparr>"

text \<open>The mapped thread ids the visitor was handed with its call events, in order.\<close>

fun visit_threadids :: "visit list \<Rightarrow> uint32 list" where
  "visit_threadids [] = []"
| "visit_threadids (Visit_alGetError ci r # vs) = threadid ci # visit_threadids vs"
| "visit_threadids (Visit_alGenSources ci n p names # vs) = threadid ci # visit_threadids vs"
| "visit_threadids (Visit_alDeleteSources ci n p names # vs) = threadid ci # visit_threadids vs"
| "visit_threadids (v # vs) = visit_threadids vs"

text \<open>
  A trace with one event: \<open>alGetError\<close>, called at time 0 by the thread with raw id 7
  from an empty stack, returned 0; the session ended at time 5.
\<close>

definition one_call_trace :: "uint8 list" where
  "one_call_trace = [0xA1, 0xE5, 0x04, 0x01, 1, 0, 0, 0,
     16, 0, 0, 0, 0, 0, 0, 0, 7, 0, 0, 0, 0, 0, 0, 0, 0, 0, 0, 0, 0, 0, 0, 0,
     0, 0, 0, 0, 5, 0, 0, 0]"

text \<open>
  A trace that breaks off with a tag the player does not know: the same \<open>alGetError\<close>
  event, then the tag 99.
\<close>

definition unknown_tag_trace :: "uint8 list" where
  "unknown_tag_trace = [0xA1, 0xE5, 0x04, 0x01, 1, 0, 0, 0,
     16, 0, 0, 0, 0, 0, 0, 0, 7, 0, 0, 0, 0, 0, 0, 0, 0, 0, 0, 0, 0, 0, 0, 0,
     99, 0, 0, 0]"

section \<open>Well-formed lists of the recorder\<close>

text \<open>
  The lists the polling pass walks, as the lists of their nodes: a singly linked list
  from \<open>p\<close> along \<open>nxt\<close> to NULL, and a doubly linked one whose first node has \<open>q\<close>
  as its predecessor.
\<close>

fun path :: "(ptr \<Rightarrow> ptr) \<Rightarrow> ptr \<Rightarrow> ptr list \<Rightarrow> bool" where
  "path nxt p [] = (p = 0)"
| "path nxt p (a # as) = (p = a \<and> a \<noteq> 0 \<and> path nxt (nxt a) as)"

fun dpath :: "(ptr \<Rightarrow> ptr) \<Rightarrow> (ptr \<Rightarrow> ptr) \<Rightarrow> ptr \<Rightarrow> ptr \<Rightarrow> ptr list \<Rightarrow> bool" where
  "dpath nxt prv q p [] = (p = 0)"
| "dpath nxt prv q p (a # as) = (p = a \<and> a \<noteq> 0 \<and> prv a = q \<and> dpath nxt prv a (nxt a) as)"

abbreviation playlist_next_of :: "'w recorder \<Rightarrow> ptr \<Rightarrow> ptr" where
  "playlist_next_of s \<equiv> (\<lambda>p. src_playlist_next (sources s p))"

abbreviation playlist_prev_of :: "'w recorder \<Rightarrow> ptr \<Rightarrow> ptr" where
  "playlist_prev_of s \<equiv> (\<lambda>p. src_playlist_prev (sources s p))"

text \<open>
  The playlist of context \<open>c\<close> is the well-formed list \<open>ps\<close>: doubly linked from the
  head \<open>ctx->playlist\<close>, without repetition.
\<close>

definition playlist_is :: "'w recorder \<Rightarrow> ptr \<Rightarrow> ptr list \<Rightarrow> bool" where
  "playlist_is s c ps \<longleftrightarrow>
     dpath (playlist_next_of s) (playlist_prev_of s) 0 (ctx_playlist (contexts s c)) ps
     \<and> distinct ps"

text \<open>
  The playlists \<open>pl\<close> of the contexts in \<open>C\<close> are well formed, and no source is on
  two of them.
\<close>

definition playlists_ok :: "ptr set \<Rightarrow> 'w recorder \<Rightarrow> (ptr \<Rightarrow> ptr list) \<Rightarrow> bool" where
  "playlists_ok C s pl \<longleftrightarrow>
     (\<forall>c\<in>C. playlist_is s c (pl c))
     \<and> (\<forall>c c'. c \<noteq> c' \<longrightarrow> set (pl c) \<inter> set (pl c') = {})
     \<and> (\<forall>c. 0 \<notin> set (pl c))"

text \<open>
  The state's lists are well formed: the device list behind \<open>null_device\<close> ends, the
  context list of each of its devices ends, each of these contexts has a well-formed
  playlist, and no source is on two playlists. \<open>ds\<close>, \<open>cs\<close> and \<open>pl\<close> name the lists.
\<close>

definition lists_are :: "'w recorder \<Rightarrow> ptr list \<Rightarrow> (ptr \<Rightarrow> ptr list) \<Rightarrow> (ptr \<Rightarrow> ptr list) \<Rightarrow> bool" where
  "lists_are s ds cs pl \<longleftrightarrow>
     path (\<lambda>d. dev_next (devices s d)) (dev_next (devices s null_device)) ds
     \<and> (\<forall>d\<in>set ds. path (\<lambda>c. ctx_next (contexts s c)) (dev_contexts (devices s d)) (cs d))
     \<and> playlists_ok (\<Union>d\<in>set ds. set (cs d)) s pl"

definition lists_ok :: "'w recorder \<Rightarrow> bool" where
  "lists_ok s \<longleftrightarrow> (\<exists>ds cs pl. lists_are s ds cs pl)"

text \<open>
  What a polling pass may change, from \<open>s\<close> to \<open>s'\<close>: the world, the log (it grows),
  the cached properties and playlist links of sources, the playlist heads of contexts,
  the cached \<open>connected\<close> and \<open>capture_samples\<close> of devices. Everything else stays.
\<close>

definition pass_frame :: "'w recorder \<Rightarrow> 'w recorder \<Rightarrow> bool" where
  "pass_frame s s' \<longleftrightarrow>
     (\<exists>bs. logfile s' = logfile s @ bs)
     \<and> stackframe_map s' = stackframe_map s
     \<and> buffers s' = buffers s
     \<and> allocated_devices s' = allocated_devices s
     \<and> allocated_contexts s' = allocated_contexts s
     \<and> allocated_sources s' = allocated_sources s
     \<and> allocated_buffers s' = allocated_buffers s
     \<and> null_context_errorlatch s' = null_context_errorlatch s
     \<and> current_context s' = current_context s
     \<and> (\<forall>p. src_name (sources s' p) = src_name (sources s p)
            \<and> src_hash_next (sources s' p) = src_hash_next (sources s p)
            \<and> src_hash_prev (sources s' p) = src_hash_prev (sources s p))
     \<and> (\<forall>c. (contexts s' c)\<lparr>ctx_playlist := 0\<rparr> = (contexts s c)\<lparr>ctx_playlist := 0\<rparr>)
     \<and> (\<forall>d. (devices s' d)\<lparr>dev_connected := 0, dev_capture_samples := 0\<rparr> =
              (devices s d)\<lparr>dev_connected := 0, dev_capture_samples := 0\<rparr>)"

text \<open>
  The fields of a source that the polling of its properties leaves alone, and what the
  polling of source \<open>src\<close> does to the state: it queries the world, appends to the log
  and writes to the record of \<open>src\<close>, keeping its name and links.
\<close>

definition src_links :: "SourceWrapper \<Rightarrow> uint32 \<times> ptr \<times> ptr \<times> ptr \<times> ptr" where
  "src_links r =
     (src_name r, src_playlist_next r, src_playlist_prev r, src_hash_next r, src_hash_prev r)"

definition polls :: "ptr \<Rightarrow> ('w recorder \<Rightarrow> 'w recorder) \<Rightarrow> bool" where
  "polls src f \<longleftrightarrow> (\<forall>s. \<exists>w bs r.
      f s = s\<lparr>world := w, logfile := logfile s @ bs, sources := (sources s)(src := r)\<rparr>
      \<and> src_links r = src_links (sources s src))"

text \<open>
  The branch of the playlist loop that takes \<open>src\<close> out of the list, \<open>next\<close> the
  successor read before the poll and \<open>s1\<close> the state after it.
\<close>

definition unlink_source :: "ptr \<Rightarrow> ptr \<Rightarrow> ptr \<Rightarrow> 'w recorder \<Rightarrow> 'w recorder" where
  "unlink_source ctx src next s1 =
     (let a = (if next \<noteq> 0
               then set_source next
                      (\<lambda>r. r\<lparr>src_playlist_prev := src_playlist_prev (sources s1 src)\<rparr>) s1
               else s1);
          b = (if src_playlist_prev (sources a src) \<noteq> 0
               then set_source (src_playlist_prev (sources a src))
                      (\<lambda>r. r\<lparr>src_playlist_next := next\<rparr>) a
               else set_context ctx (\<lambda>c. c\<lparr>ctx_playlist := next\<rparr>) a);
          c = set_source src (\<lambda>r. r\<lparr>src_playlist_prev := 0\<rparr>) b
      in set_source src (\<lambda>r. r\<lparr>src_playlist_next := 0\<rparr>) c)"

text \<open>
  What the playlist loop has done when it returns \<open>s'\<close>, started in \<open>s\<close> at a node
  whose predecessor is \<open>q\<close> and whose list is \<open>ps\<close>: the list behind \<open>q\<close> is now
  \<open>ps'\<close>, a part of \<open>ps\<close>, every source on it has the cached state PLAYING, and
  outside of \<open>ps\<close> only the successor of \<open>q\<close> or the head of the list has changed.
\<close>

definition playlist_pass ::
  "ptr \<Rightarrow> ptr \<Rightarrow> ptr list \<Rightarrow> 'w recorder \<Rightarrow> 'w recorder \<Rightarrow> ptr list \<Rightarrow> bool" where
  "playlist_pass ctx q ps s s' ps' \<longleftrightarrow>
     dpath (playlist_next_of s') (playlist_prev_of s') q
       (if q = 0 then ctx_playlist (contexts s' ctx) else playlist_next_of s' q) ps'
     \<and> set ps' \<subseteq> set ps \<and> distinct ps'
     \<and> list_all (\<lambda>p. src_state (sources s' p) = AL_PLAYING) ps'
     \<and> pass_frame s s'
     \<and> (\<forall>p. p \<notin> set ps \<longrightarrow> p \<noteq> q \<longrightarrow> sources s' p = sources s p)
     \<and> (\<forall>p. p \<notin> set ps \<longrightarrow> playlist_prev_of s' p = playlist_prev_of s p)
     \<and> (\<forall>c. c \<noteq> ctx \<longrightarrow> contexts s' c = contexts s c)
     \<and> (q \<noteq> 0 \<longrightarrow> contexts s' = contexts s)
     \<and> devices s' = devices s
     \<and> (q \<noteq> 0 \<longrightarrow> (sources s' q)\<lparr>src_playlist_next := 0\<rparr> =
                       (sources s q)\<lparr>src_playlist_next := 0\<rparr>)"

text \<open>
  What a part of the polling pass has done when it returns \<open>s'\<close>, having walked the
  playlists of the contexts \<open>polled\<close>: the playlists are now \<open>pl'\<close>, parts of the
  former ones, every source on a walked playlist has the cached state PLAYING, and no
  source outside the walked playlists has changed.
\<close>

definition pass_result ::
  "ptr set \<Rightarrow> ptr list \<Rightarrow> (ptr \<Rightarrow> ptr list) \<Rightarrow> 'w recorder \<Rightarrow> 'w recorder \<Rightarrow>
     (ptr \<Rightarrow> ptr list) \<Rightarrow> bool" where
  "pass_result C polled pl s s' pl' \<longleftrightarrow>
     (\<forall>c\<in>C. playlist_is s' c (pl' c))
     \<and> (\<forall>c. set (pl' c) \<subseteq> set (pl c))
     \<and> (\<forall>c\<in>set polled. list_all (\<lambda>p. src_state (sources s' p) = AL_PLAYING) (pl' c))
     \<and> pass_frame s s'
     \<and> (\<forall>p. p \<noteq> 0 \<longrightarrow> (\<forall>c\<in>set polled. p \<notin> set (pl c)) \<longrightarrow> sources s' p = sources s p)"

text \<open>
  The contexts whose playlists a pass walks: those of the devices that are not capture
  devices.
\<close>

definition polled_contexts :: "'w recorder \<Rightarrow> ptr list \<Rightarrow> (ptr \<Rightarrow> ptr list) \<Rightarrow> ptr list" where
  "polled_contexts s ds cs =
     concat (map cs (filter (\<lambda>d. dev_iscapture (devices s d) = 0) ds))"

text \<open>The latch that \<open>alGetError\<close> reads and clears.\<close>

definition al_errorlatch :: "'w recorder \<Rightarrow> uint32" where
  "al_errorlatch s =
     (if current_context s = 0 then null_context_errorlatch s
      else ctx_errorlatch (contexts s (current_context s)))"

section \<open>Byte codec: integers and strings survive the file\<close>

lemma byte_window: "0 < m \<Longrightarrow> (n - k < (m::nat)) = (n < k + m)"
  by arith

lemma le_word_le32: "le_word (le32 x) = x"
  unfolding le32_def
  apply simp
  apply (rule bit_eqI)
  apply (simp add: bit_simps byte_window)
  subgoal for n
    by (cases "n < 8"; cases "n < 16"; cases "n < 24"; simp)
  done

lemma le_word_le64: "le_word (le64 x) = x"
  unfolding le64_def
  apply simp
  apply (rule bit_eqI)
  apply (simp add: bit_simps byte_window)
  subgoal for n
    by (cases "n < 8"; cases "n < 16"; cases "n < 24"; cases "n < 32"; cases "n < 40";
        cases "n < 48"; cases "n < 56"; simp)
  done

lemma length_le32 [simp]: "length (le32 x) = 4"
  by (simp add: le32_def)

lemma length_le64 [simp]: "length (le64 x) = 8"
  by (simp add: le64_def)

lemma readle64_le64:
  assumes "logfd p = Some f" "\<not> io_failure p" "drop (offset p) f = le64 x @ rest"
  shows "readle64 p = (x, p\<lparr>offset := offset p + 8\<rparr>)"
  using assms by (simp add: readle64_def read_log_def le_word_le64)

lemma readle32_le32:
  assumes "logfd p = Some f" "\<not> io_failure p" "drop (offset p) f = le32 x @ rest"
  shows "readle32 p = (x, p\<lparr>offset := offset p + 4\<rparr>)"
  using assms by (simp add: readle32_def read_log_def le_word_le32)

lemma take_strlen: "take (strlen m) m = takeWhile (\<lambda>b. b \<noteq> 0) m"
  unfolding strlen_def by (metis takeWhile_eq_take)

lemma logfile_IO_UINT64: "logfile (IO_UINT64 x s) = logfile s @ le64 x"
  by (simp add: IO_UINT64_def writele64_def write_log_def)

lemma logfile_IO_UINT32: "logfile (IO_UINT32 x s) = logfile s @ le32 x"
  by (simp add: IO_UINT32_def writele32_def write_log_def)

lemma logfile_IO_STRING:
  "logfile (IO_STRING str s) = logfile s @
     (case str of None \<Rightarrow> le64 0xFFFFFFFFFFFFFFFF
      | Some m \<Rightarrow> le64 (of_nat (strlen m)) @ take (strlen m) m)"
  by (cases str) (simp_all add: IO_STRING_def Let_def logfile_IO_UINT64 write_log_def)

lemma IO_STRING_play_NULL:
  assumes "logfd p = Some f" "\<not> io_failure p"
    "drop (offset p) f = le64 0xFFFFFFFFFFFFFFFF @ rest"
  shows "IO_STRING_play ioblob p = (None, p\<lparr>offset := offset p + 8\<rparr>)"
  using assms
  by (simp add: IO_STRING_play_def IO_BLOB_play_def IO_UINT64_play_def readle64_le64 [OF assms])

lemma IO_STRING_play_bytes:
  assumes "logfd p = Some f" "\<not> io_failure p"
    "drop (offset p) f = le64 (of_nat (length bs)) @ bs @ rest"
    "length bs < 2 ^ 64 - 1"
  shows "IO_STRING_play ioblob p = (Some (bs @ [0]), p\<lparr>offset := offset p + 8 + length bs\<rparr>)"
proof -
  have n: "unat (of_nat (length bs) :: uint64) = length bs"
    using assms(4) by (simp add: unat_of_nat)
  have ne: "(of_nat (length bs) :: uint64) \<noteq> 0xFFFFFFFFFFFFFFFF"
  proof
    assume "(of_nat (length bs) :: uint64) = 0xFFFFFFFFFFFFFFFF"
    then have "unat (of_nat (length bs) :: uint64) = unat (0xFFFFFFFFFFFFFFFF :: uint64)" by simp
    with n assms(4) show False by simp
  qed
  have r: "readle64 p = (of_nat (length bs), p\<lparr>offset := offset p + 8\<rparr>)"
    using assms(1-3) by (rule readle64_le64)
  have d: "drop (offset p + 8) f = bs @ rest"
    using assms(3) by (metis add.commute drop_drop length_le64 append_eq_conv_conj)
  show ?thesis
    by (simp add: IO_STRING_play_def IO_BLOB_play_def IO_UINT64_play_def r n ne assms(1,2)
        read_log_def d Let_def)
qed

text \<open>
  Claim C6. For every string value (NULL, empty or not), \<open>IO_STRING\<close> of the recorder
  writes a 64-bit length and then exactly that many bytes, without the terminator, and
  the length 0xFFFFFFFFFFFFFFFF alone for NULL; \<open>IO_STRING\<close> of the player, reading these
  bytes, returns the same string (NULL for NULL, the empty string for the empty string)
  and leaves the offset behind the last byte. A C string is shorter than
  \<open>2 ^ 64 - 1\<close> bytes.
\<close>

theorem string_codec_roundtrip:
  assumes len: "\<forall>cs. c_str str = Some cs \<longrightarrow> length cs < 2 ^ 64 - 1"
    and enc: "logfile (IO_STRING str s) = logfile s @ enc"
    and p: "logfd p = Some f" "\<not> io_failure p" "drop (offset p) f = enc @ rest"
  shows "enc = (case c_str str of
                  None \<Rightarrow> le64 0xFFFFFFFFFFFFFFFF
                | Some cs \<Rightarrow> le64 (of_nat (length cs)) @ cs)
       \<and> c_str (fst (IO_STRING_play ioblob p)) = c_str str
       \<and> snd (IO_STRING_play ioblob p) = p\<lparr>offset := offset p + length enc\<rparr>"
proof (cases str)
  case None
  with enc have e: "enc = le64 0xFFFFFFFFFFFFFFFF"
    by (simp add: logfile_IO_STRING)
  from p e have "IO_STRING_play ioblob p = (None, p\<lparr>offset := offset p + 8\<rparr>)"
    by (simp add: IO_STRING_play_NULL)
  with None e show ?thesis by (simp add: c_str_def)
next
  case (Some m)
  let ?cs = "takeWhile (\<lambda>b. b \<noteq> 0) m"
  have c: "c_str str = Some ?cs" using Some by (simp add: c_str_def)
  have l: "length ?cs < 2 ^ 64 - 1" using len c by blast
  have e: "enc = le64 (of_nat (length ?cs)) @ ?cs"
    using enc Some take_strlen [of m] by (simp add: logfile_IO_STRING) (simp add: strlen_def)
  have "IO_STRING_play ioblob p = (Some (?cs @ [0]), p\<lparr>offset := offset p + 8 + length ?cs\<rparr>)"
    using p e l by (intro IO_STRING_play_bytes) simp_all
  moreover have "c_str (Some (?cs @ [0])) = Some ?cs"
    by (simp add: c_str_def takeWhile_tail)
  ultimately show ?thesis by (simp add: c e)
qed

theorem string_codec_roundtrip_witness:
  "logfile (IO_STRING (Some [104, 105, 0]) (recorder_start ())) = [2, 0, 0, 0, 0, 0, 0, 0, 104, 105]
   \<and> c_str (fst (IO_STRING_play (\<lambda>n. replicate n 7)
        (player_start\<lparr>logfd := Some [2, 0, 0, 0, 0, 0, 0, 0, 104, 105, 9]\<rparr>))) = Some [104, 105]
   \<and> offset (snd (IO_STRING_play (\<lambda>n. replicate n 7)
        (player_start\<lparr>logfd := Some [2, 0, 0, 0, 0, 0, 0, 0, 104, 105, 9]\<rparr>))) = 10"
proof -
  have e: "logfile (IO_STRING (Some [104, 105, 0]) (recorder_start ())) =
      logfile (recorder_start ()) @ [2, 0, 0, 0, 0, 0, 0, 0, 104, 105]"
    by (simp add: IO_STRING_def IO_UINT64_def writele64_def write_log_def recorder_start_def
        strlen_def le64_def Let_def)
  have l: "\<forall>cs. c_str (Some [104, 105, 0 :: uint8]) = Some cs \<longrightarrow> length cs < 2 ^ 64 - 1"
    by (simp add: c_str_def)
  show ?thesis
    using string_codec_roundtrip [OF l e, of "player_start\<lparr>logfd := Some [2, 0, 0, 0, 0, 0, 0, 0, 104, 105, 9]\<rparr>"
        "[2, 0, 0, 0, 0, 0, 0, 0, 104, 105, 9]" "[9]" "\<lambda>n. replicate n 7"] e
    by (simp add: player_start_def recorder_start_def c_str_def)
qed

section \<open>Writes only append to the log\<close>

lemma write_log_fields [simp]:
  "logfile (write_log bs s) = logfile s @ bs"
  "world (write_log bs s) = world s"
  "stackframe_map (write_log bs s) = stackframe_map s"
  "devices (write_log bs s) = devices s"
  "contexts (write_log bs s) = contexts s"
  "sources (write_log bs s) = sources s"
  "buffers (write_log bs s) = buffers s"
  "allocated_devices (write_log bs s) = allocated_devices s"
  "allocated_contexts (write_log bs s) = allocated_contexts s"
  "allocated_sources (write_log bs s) = allocated_sources s"
  "allocated_buffers (write_log bs s) = allocated_buffers s"
  "null_context_errorlatch (write_log bs s) = null_context_errorlatch s"
  "current_context (write_log bs s) = current_context s"
  by (simp_all add: write_log_def)

lemma write_log_write_log [simp]: "write_log bs (write_log as s) = write_log (as @ bs) s"
  by (simp add: write_log_def)

lemma write_log_Nil [simp]: "write_log [] s = s"
  by (simp add: write_log_def)

lemma write_log_world [simp]: "write_log bs (s\<lparr>world := w\<rparr>) = (write_log bs s)\<lparr>world := w\<rparr>"
  by (simp add: write_log_def)

lemma string_bytes_eq:
  "string_bytes str = (case str of None \<Rightarrow> le64 0xFFFFFFFFFFFFFFFF
      | Some m \<Rightarrow> le64 (of_nat (strlen m)) @ take (strlen m) m)"
  by (cases str) (simp_all add: string_bytes_def c_str_def take_strlen, simp add: strlen_def)

lemma IO_as_write_log:
  "IO_UINT32 x = write_log (le32 x)"
  "IO_INT32 x = write_log (le32 x)"
  "IO_UINT64 y = write_log (le64 y)"
  "IO_PTR y = write_log (le64 y)"
  "IO_ENUM x = write_log (le32 x)"
  "IO_ALCENUM x = write_log (le32 x)"
  "IO_FLOAT x = write_log (le32 x)"
  "IO_ALSIZEI x = write_log (le64 (scast x))"
  "IO_ALCSIZEI x = write_log (le64 (scast x))"
  "IO_BOOLEAN b = write_log (le32 (scast b))"
  "IO_ALCBOOLEAN b = write_log (le32 (scast b))"
  "IO_EVENTENUM R e = write_log (le32 (ALEE R e))"
  by (simp_all add: IO_UINT32_def IO_INT32_def IO_UINT64_def IO_PTR_def IO_ENUM_def
      IO_ALCENUM_def IO_FLOAT_def IO_ALSIZEI_def IO_ALCSIZEI_def IO_BOOLEAN_def
      IO_ALCBOOLEAN_def IO_EVENTENUM_def writele32_def writele64_def)

lemma IO_STRING_as_write_log: "IO_STRING str = write_log (string_bytes str)"
  by (rule ext, cases str)
     (simp_all add: IO_STRING_def Let_def string_bytes_eq IO_as_write_log strlen_def)

section \<open>Unfolding the loops\<close>

lemma playlist_NULL [simp]: "check_al_async_states_playlist R ctx 0 s = Some s"
  by (subst check_al_async_states_playlist.simps) simp

lemma contexts_NULL [simp]: "check_al_async_states_contexts R 0 s = Some s"
  by (subst check_al_async_states_contexts.simps) simp

lemma devices_NULL [simp]: "check_al_async_states_devices R 0 s = Some s"
  by (subst check_al_async_states_devices.simps) simp

lemma source_walk_NULL [simp]: "source_wrapped_lookup_walk h name 0 = Some 0"
  by (subst source_wrapped_lookup_walk.simps) simp

lemma buffer_walk_NULL [simp]: "buffer_wrapped_lookup_walk h name 0 = Some 0"
  by (subst buffer_wrapped_lookup_walk.simps) simp

lemma playlist_step:
  "src \<noteq> 0 \<Longrightarrow> check_al_async_states_playlist R ctx src s =
     (let next = src_playlist_next (sources s src);
          s1 = check_source_state R src s;
          s2 = (if src_state (sources s1 src) \<noteq> AL_PLAYING
                then (let a = (if next \<noteq> 0
                               then set_source next
                                      (\<lambda>r. r\<lparr>src_playlist_prev := src_playlist_prev (sources s1 src)\<rparr>) s1
                               else s1);
                          b = (if src_playlist_prev (sources a src) \<noteq> 0
                               then set_source (src_playlist_prev (sources a src))
                                      (\<lambda>r. r\<lparr>src_playlist_next := next\<rparr>) a
                               else set_context ctx (\<lambda>c. c\<lparr>ctx_playlist := next\<rparr>) a);
                          c = set_source src (\<lambda>r. r\<lparr>src_playlist_prev := 0\<rparr>) b
                      in set_source src (\<lambda>r. r\<lparr>src_playlist_next := 0\<rparr>) c)
                else s1)
      in check_al_async_states_playlist R ctx next s2)"
  by (subst check_al_async_states_playlist.simps) simp

lemma contexts_step:
  "ctx \<noteq> 0 \<Longrightarrow> check_al_async_states_contexts R ctx s =
     (case check_al_async_states_playlist R ctx (ctx_playlist (contexts s ctx)) s of
        None \<Rightarrow> None
      | Some s1 \<Rightarrow> check_al_async_states_contexts R (ctx_next (contexts s1 ctx)) s1)"
  by (subst check_al_async_states_contexts.simps) simp

lemma devices_step:
  "device \<noteq> 0 \<Longrightarrow> check_al_async_states_devices R device s =
     (let s1 = (if dev_supports_disconnect_ext (devices s device) \<noteq> 0
                then check_device_state_bool R device ALC_CONNECTED dev_connected
                       (\<lambda>v d. d\<lparr>dev_connected := v\<rparr>) s
                else s)
      in case (if dev_iscapture (devices s1 device) \<noteq> 0
               then Some (check_device_state_int R device ALC_CAPTURE_SAMPLES
                            dev_capture_samples (\<lambda>v d. d\<lparr>dev_capture_samples := v\<rparr>) s1)
               else check_al_async_states_contexts R (dev_contexts (devices s1 device)) s1) of
           None \<Rightarrow> None
         | Some s2 \<Rightarrow> check_al_async_states_devices R (dev_next (devices s2 device)) s2)"
  by (subst check_al_async_states_devices.simps) simp

lemma source_walk_step:
  "retval \<noteq> 0 \<Longrightarrow> source_wrapped_lookup_walk h name retval =
     (if src_name (h retval) = name then Some retval
      else source_wrapped_lookup_walk h name (src_hash_next (h retval)))"
  by (subst source_wrapped_lookup_walk.simps) simp

lemma buffer_walk_step:
  "retval \<noteq> 0 \<Longrightarrow> buffer_wrapped_lookup_walk h name retval =
     (if buf_name (h retval) = name then Some retval
      else buffer_wrapped_lookup_walk h name (buf_hash_next (h retval)))"
  by (subst buffer_wrapped_lookup_walk.simps) simp

section \<open>The polling pass on well-formed lists\<close>

lemma polls_id: "polls src (\<lambda>s. s)"
  unfolding polls_def
proof
  fix s :: "'a recorder"
  have "s = s\<lparr>world := world s, logfile := logfile s @ [], sources := (sources s)(src := sources s src)\<rparr>"
    by simp
  then show "\<exists>w bs r. s = s\<lparr>world := w, logfile := logfile s @ bs, sources := (sources s)(src := r)\<rparr>
      \<and> src_links r = src_links (sources s src)"
    by blast
qed

lemma polls_if:
  assumes "polls src f"
  shows "polls src (\<lambda>s. if c s then f s else s)"
  unfolding polls_def
proof
  fix s :: "'a recorder"
  show "\<exists>w bs r. (if c s then f s else s) =
      s\<lparr>world := w, logfile := logfile s @ bs, sources := (sources s)(src := r)\<rparr>
      \<and> src_links r = src_links (sources s src)"
  proof (cases "c s")
    case True
    with assms show ?thesis unfolding polls_def by simp
  next
    case False
    have "polls src (\<lambda>s::'a recorder. s)" by (rule polls_id)
    then have "\<exists>w bs r. s =
      s\<lparr>world := w, logfile := logfile s @ bs, sources := (sources s)(src := r)\<rparr>
      \<and> src_links r = src_links (sources s src)"
      unfolding polls_def by blast
    with False show ?thesis by simp
  qed
qed

lemma polls_comp:
  assumes "polls src f" "polls src g"
  shows "polls src (\<lambda>s. g (f s))"
  unfolding polls_def
proof
  fix s :: "'a recorder"
  from assms(1) obtain w bs r where
    f: "f s = s\<lparr>world := w, logfile := logfile s @ bs, sources := (sources s)(src := r)\<rparr>"
    and fl: "src_links r = src_links (sources s src)"
    unfolding polls_def by blast
  from assms(2) obtain w' bs' r' where
    g: "g (f s) = (f s)\<lparr>world := w', logfile := logfile (f s) @ bs', sources := (sources (f s))(src := r')\<rparr>"
    and gl: "src_links r' = src_links (sources (f s) src)"
    unfolding polls_def by blast
  have "g (f s) = s\<lparr>world := w', logfile := logfile s @ (bs @ bs'), sources := (sources s)(src := r')\<rparr>"
    unfolding g by (simp add: f)
  moreover have "src_links r' = src_links (sources s src)"
    using gl fl by (simp add: f)
  ultimately show "\<exists>w bs r. g (f s) = s\<lparr>world := w, logfile := logfile s @ bs, sources := (sources s)(src := r)\<rparr>
      \<and> src_links r = src_links (sources s src)"
    by blast
qed

lemma polls_in_order: "list_all (polls src) fs \<Longrightarrow> polls src (in_order fs)"
proof (induction fs rule: rev_induct)
  case Nil
  have "in_order [] = (\<lambda>s::'a recorder. s)" by (rule ext) (simp add: in_order_def)
  then show ?case by (simp add: polls_id)
next
  case (snoc f fs)
  have "in_order (fs @ [f]) = (\<lambda>s. f (in_order fs s))" by (rule ext) (simp add: in_order_def)
  with snoc show ?case by (simp add: polls_comp)
qed

lemma polls_write:
  assumes "\<And>r. src_links (g r) = src_links r"
  shows "\<exists>w' bs' r. set_source src g ((write_log bs s)\<lparr>world := w\<rparr>) =
      s\<lparr>world := w', logfile := logfile s @ bs', sources := (sources s)(src := r)\<rparr>
      \<and> src_links r = src_links (sources s src)"
proof -
  have "set_source src g ((write_log bs s)\<lparr>world := w\<rparr>) =
      s\<lparr>world := w, logfile := logfile s @ bs, sources := (sources s)(src := g (sources s src))\<rparr>"
    by (simp add: set_source_def write_log_def)
  with assms show ?thesis by blast
qed

lemma polls_skip:
  "\<exists>w' bs' r. s\<lparr>world := w\<rparr> =
      s\<lparr>world := w', logfile := logfile s @ bs', sources := (sources s)(src := r)\<rparr>
      \<and> src_links r = src_links (sources s src)"
proof -
  have "s\<lparr>world := w\<rparr> = s\<lparr>world := w, logfile := logfile s @ [], sources := (sources s)(src := sources s src)\<rparr>"
    by simp
  then show ?thesis by blast
qed

lemma polls_enum:
  assumes "\<And>v r. src_links (upd v r) = src_links r"
  shows "polls src (check_source_state_enum R src param cur upd)"
  unfolding polls_def check_source_state_enum_def
  by (auto simp: Let_def IO_as_write_log split: prod.splits intro: polls_write polls_skip assms)


lemma polls_uint:
  assumes "\<And>v r. src_links (upd v r) = src_links r"
  shows "polls src (check_source_state_uint R src param cur upd)"
  unfolding polls_def check_source_state_uint_def
  by (auto simp: Let_def IO_as_write_log split: prod.splits intro: polls_write polls_skip assms)

lemma polls_int:
  assumes "\<And>v r. src_links (upd v r) = src_links r"
  shows "polls src (check_source_state_int R src param cur upd)"
  unfolding polls_def check_source_state_int_def
  by (auto simp: Let_def IO_as_write_log split: prod.splits intro: polls_write polls_skip assms)

lemma polls_bool:
  assumes "\<And>v r. src_links (upd v r) = src_links r"
  shows "polls src (check_source_state_bool R src param cur upd)"
  unfolding polls_def check_source_state_bool_def
  by (auto simp: Let_def IO_as_write_log split: prod.splits intro: polls_write polls_skip assms)

lemma polls_float:
  assumes "\<And>v r. src_links (upd v r) = src_links r"
  shows "polls src (check_source_state_float R src param cur upd)"
  unfolding polls_def check_source_state_float_def
  by (auto simp: Let_def IO_as_write_log split: prod.splits intro: polls_write polls_skip assms)

lemma polls_float3:
  assumes "\<And>v r. src_links (upd v r) = src_links r"
  shows "polls src (check_source_state_float3 R src param cur upd)"
  unfolding polls_def check_source_state_float3_def
  by (auto simp: Let_def IO_as_write_log split: prod.splits intro: polls_write polls_skip assms)

lemma polls_check_source_state: "polls src (check_source_state R src)"
proof -
  have "polls src (\<lambda>s. check_source_state R src s)"
    unfolding check_source_state_def Let_def
    apply (rule polls_if)
     apply (rule polls_in_order)
     apply (simp only: list.pred_inject)
     apply (intro conjI TrueI polls_enum polls_uint polls_int polls_bool polls_float polls_float3)
                        apply (simp_all add: src_links_def polls_id)
    done
  then show ?thesis .
qed

lemma pass_frame_refl: "pass_frame s s"
  by (simp add: pass_frame_def)

lemma pass_frame_trans: "pass_frame s s1 \<Longrightarrow> pass_frame s1 s2 \<Longrightarrow> pass_frame s s2"
  unfolding pass_frame_def by (elim conjE exE, intro conjI) (simp_all)

lemma pass_frame_polls:
  assumes "polls src f"
  shows "pass_frame s (f s)"
proof -
  from assms obtain w bs r where
    f: "f s = s\<lparr>world := w, logfile := logfile s @ bs, sources := (sources s)(src := r)\<rparr>"
    and l: "src_links r = src_links (sources s src)"
    unfolding polls_def by blast
  from l show ?thesis by (simp add: f pass_frame_def src_links_def)
qed

lemma pass_frame_set_source:
  assumes "\<And>r. src_name (g r) = src_name r \<and> src_hash_next (g r) = src_hash_next r
              \<and> src_hash_prev (g r) = src_hash_prev r"
  shows "pass_frame s (set_source p g s)"
  by (simp add: pass_frame_def set_source_def assms)

lemma pass_frame_set_playlist:
  "pass_frame s (set_context c (\<lambda>r. r\<lparr>ctx_playlist := n\<rparr>) s)"
  by (simp add: pass_frame_def set_context_def)

lemma dpath_cong:
  "(\<And>x. x \<in> set ps \<Longrightarrow> nxt' x = nxt x \<and> prv' x = prv x) \<Longrightarrow>
     dpath nxt' prv' q p ps = dpath nxt prv q p ps"
  by (induction ps arbitrary: q p) auto

lemma playlist_loop_Nil:
  assumes "if q = 0 then ctx_playlist (contexts s ctx) = 0 else playlist_next_of s q = 0"
  shows "playlist_pass ctx q [] s s []"
  using assms by (simp add: playlist_pass_def pass_frame_refl split: if_splits)

lemma playlist_loop_keep:
  assumes a: "a \<noteq> 0" "q \<noteq> a" "a \<notin> set rest" "q \<notin> set rest"
    and s1: "s1 = s\<lparr>world := w, logfile := logfile s @ bs, sources := (sources s)(a := r)\<rparr>"
    and r: "src_playlist_prev r = q" "src_state r = AL_PLAYING"
           "src_name r = src_name (sources s a)" "src_hash_next r = src_hash_next (sources s a)"
           "src_hash_prev r = src_hash_prev (sources s a)"
    and link: "if q = 0 then ctx_playlist (contexts s ctx) = a else playlist_next_of s q = a"
    and ih: "playlist_pass ctx a rest s1 s' ps'"
  shows "playlist_pass ctx q (a # rest) s s' (a # ps')"
proof -
  from ih a(1) have
    p1: "dpath (playlist_next_of s') (playlist_prev_of s') a (playlist_next_of s' a) ps'"
    and p2: "set ps' \<subseteq> set rest" "distinct ps'"
    and p3: "list_all (\<lambda>p. src_state (sources s' p) = AL_PLAYING) ps'"
    and p4: "pass_frame s1 s'"
    and p5: "\<And>p. p \<notin> set rest \<Longrightarrow> p \<noteq> a \<Longrightarrow> sources s' p = sources s1 p"
    and p6: "\<And>p. p \<notin> set rest \<Longrightarrow> playlist_prev_of s' p = playlist_prev_of s1 p"
    and p7: "contexts s' = contexts s1"
    and p8: "devices s' = devices s1"
    and p9: "(sources s' a)\<lparr>src_playlist_next := 0\<rparr> = (sources s1 a)\<lparr>src_playlist_next := 0\<rparr>"
    unfolding playlist_pass_def by simp_all
  have f0: "pass_frame s s1"
    by (simp add: s1 pass_frame_def r)
  have c1: "dpath (playlist_next_of s') (playlist_prev_of s') q
       (if q = 0 then ctx_playlist (contexts s' ctx) else playlist_next_of s' q) (a # ps')"
  proof -
    have "(if q = 0 then ctx_playlist (contexts s' ctx) else playlist_next_of s' q) = a"
      using link a p5 [of q] by (simp add: p7 s1 split: if_splits)
    moreover have "playlist_prev_of s' a = q"
      using p6 [of a] a r by (simp add: s1)
    ultimately show ?thesis using p1 a by simp
  qed
  have c2: "set (a # ps') \<subseteq> set (a # rest)" "distinct (a # ps')"
    using p2 a by auto
  have "src_state (sources s' a) = src_state (sources s1 a)"
    using arg_cong [OF p9, of src_state] by simp
  then have c3: "list_all (\<lambda>p. src_state (sources s' p) = AL_PLAYING) (a # ps')"
    using p3 r by (simp add: s1)
  have c4: "pass_frame s s'"
    using f0 p4 by (rule pass_frame_trans)
  have c5: "\<forall>p. p \<notin> set (a # rest) \<longrightarrow> p \<noteq> q \<longrightarrow> sources s' p = sources s p"
    using p5 by (simp add: s1)
  have c6: "\<forall>p. p \<notin> set (a # rest) \<longrightarrow> playlist_prev_of s' p = playlist_prev_of s p"
    using p6 by (simp add: s1)
  have c7: "contexts s' = contexts s" "devices s' = devices s"
    by (simp_all add: p7 p8 s1)
  have c8: "q \<noteq> 0 \<longrightarrow> (sources s' q)\<lparr>src_playlist_next := 0\<rparr> = (sources s q)\<lparr>src_playlist_next := 0\<rparr>"
    using p5 [of q] a by (simp add: s1)
  show ?thesis
    unfolding playlist_pass_def using c1 c2 c3 c4 c5 c6 c7 c8 by simp
qed

lemma playlist_step_unlink:
  "src \<noteq> 0 \<Longrightarrow> check_al_async_states_playlist R ctx src s =
     check_al_async_states_playlist R ctx (src_playlist_next (sources s src))
       (if src_state (sources (check_source_state R src s) src) \<noteq> AL_PLAYING
        then unlink_source ctx src (src_playlist_next (sources s src)) (check_source_state R src s)
        else check_source_state R src s)"
  by (simp add: playlist_step Let_def unlink_source_def)

lemma unlink_source_sources:
  assumes "n \<noteq> a" "q \<noteq> a" "n \<noteq> q \<or> n = 0" "src_playlist_prev (sources s1 a) = q"
  shows "sources (unlink_source ctx a n s1) =
     (\<lambda>x. if x = a then (sources s1 a)\<lparr>src_playlist_prev := 0, src_playlist_next := 0\<rparr>
      else if x = q \<and> q \<noteq> 0 then (sources s1 q)\<lparr>src_playlist_next := n\<rparr>
      else if x = n \<and> n \<noteq> 0 then (sources s1 n)\<lparr>src_playlist_prev := q\<rparr>
      else sources s1 x)"
proof (cases "n = 0")
  case True
  show ?thesis
  proof (cases "q = 0")
    case q: True
    with True assms show ?thesis
      by (simp add: unlink_source_def Let_def set_source_def set_context_def fun_eq_iff)
  next
    case q: False
    with True assms show ?thesis
      by (simp add: unlink_source_def Let_def set_source_def set_context_def fun_eq_iff)
  qed
next
  case False
  show ?thesis
  proof (cases "q = 0")
    case q: True
    with False assms show ?thesis
      by (simp add: unlink_source_def Let_def set_source_def set_context_def fun_eq_iff)
  next
    case q: False
    with False assms show ?thesis
      by (simp add: unlink_source_def Let_def set_source_def set_context_def fun_eq_iff)
  qed
qed

lemma unlink_source_contexts:
  assumes "n \<noteq> a" "src_playlist_prev (sources s1 a) = q"
  shows "contexts (unlink_source ctx a n s1) =
           (if q \<noteq> 0 then contexts s1
            else (contexts s1)(ctx := (contexts s1 ctx)\<lparr>ctx_playlist := n\<rparr>))"
  using assms by (simp add: unlink_source_def Let_def set_source_def set_context_def)

lemma unlink_source_devices: "devices (unlink_source ctx a n s1) = devices s1"
  by (simp add: unlink_source_def Let_def set_source_def set_context_def)

lemma unlink_source_frame: "pass_frame s1 (unlink_source ctx a n s1)"
  by (simp add: unlink_source_def Let_def set_source_def set_context_def pass_frame_def)

lemma playlist_loop_drop:
  assumes a: "a \<noteq> 0" "q \<noteq> a" "a \<notin> set rest" "q \<notin> set rest" "n = 0 \<or> n \<in> set rest"
    and s1: "s1 = s\<lparr>world := w, logfile := logfile s @ bs, sources := (sources s)(a := r)\<rparr>"
    and r: "src_playlist_prev r = q"
           "src_name r = src_name (sources s a)" "src_hash_next r = src_hash_next (sources s a)"
           "src_hash_prev r = src_hash_prev (sources s a)"
    and ih: "playlist_pass ctx q rest (unlink_source ctx a n s1) s' ps'"
  shows "playlist_pass ctx q (a # rest) s s' ps'"
proof -
  have na: "n \<noteq> a" and nq: "n \<noteq> q \<or> n = 0"
    using a by auto
  have pq: "src_playlist_prev (sources s1 a) = q"
    by (simp add: s1 r)
  note H = unlink_source_sources [OF na a(2) nq pq, of ctx]
  note C = unlink_source_contexts [OF na pq, of ctx]
  from ih have
    p1: "dpath (playlist_next_of s') (playlist_prev_of s') q
       (if q = 0 then ctx_playlist (contexts s' ctx) else playlist_next_of s' q) ps'"
    and p2: "set ps' \<subseteq> set rest" "distinct ps'"
    and p3: "list_all (\<lambda>p. src_state (sources s' p) = AL_PLAYING) ps'"
    and p4: "pass_frame (unlink_source ctx a n s1) s'"
    and p5: "\<And>p. p \<notin> set rest \<Longrightarrow> p \<noteq> q \<Longrightarrow> sources s' p = sources (unlink_source ctx a n s1) p"
    and p6: "\<And>p. p \<notin> set rest \<Longrightarrow>
               playlist_prev_of s' p = playlist_prev_of (unlink_source ctx a n s1) p"
    and p7: "\<And>c. c \<noteq> ctx \<Longrightarrow> contexts s' c = contexts (unlink_source ctx a n s1) c"
    and p7': "q \<noteq> 0 \<Longrightarrow> contexts s' = contexts (unlink_source ctx a n s1)"
    and p8: "devices s' = devices (unlink_source ctx a n s1)"
    and p9: "q \<noteq> 0 \<Longrightarrow> (sources s' q)\<lparr>src_playlist_next := 0\<rparr> =
               (sources (unlink_source ctx a n s1) q)\<lparr>src_playlist_next := 0\<rparr>"
    unfolding playlist_pass_def by simp_all
  have f0: "pass_frame s s1"
    by (simp add: s1 pass_frame_def r)
  have c2: "set ps' \<subseteq> set (a # rest)"
    using p2 by auto
  have c4: "pass_frame s s'"
    using pass_frame_trans [OF pass_frame_trans [OF f0 unlink_source_frame] p4] .
  have c5: "\<forall>p. p \<notin> set (a # rest) \<longrightarrow> p \<noteq> q \<longrightarrow> sources s' p = sources s p"
  proof (intro allI impI)
    fix p assume p: "p \<notin> set (a # rest)" "p \<noteq> q"
    then have "sources s' p = sources (unlink_source ctx a n s1) p"
      using p5 by simp
    also have "\<dots> = sources s1 p"
      using p a by (auto simp: H)
    also have "\<dots> = sources s p"
      using p by (simp add: s1)
    finally show "sources s' p = sources s p" .
  qed
  have c6: "\<forall>p. p \<notin> set (a # rest) \<longrightarrow> playlist_prev_of s' p = playlist_prev_of s p"
  proof (intro allI impI)
    fix p assume p: "p \<notin> set (a # rest)"
    then have "playlist_prev_of s' p = playlist_prev_of (unlink_source ctx a n s1) p"
      using p6 by simp
    also have "\<dots> = playlist_prev_of s1 p"
      using p a by (auto simp: H)
    also have "\<dots> = playlist_prev_of s p"
      using p by (simp add: s1)
    finally show "playlist_prev_of s' p = playlist_prev_of s p" .
  qed
  have cs1: "contexts s1 = contexts s" and ss1: "\<And>p. p \<noteq> a \<Longrightarrow> sources s1 p = sources s p"
    by (simp_all add: s1)
  have c7: "\<forall>c. c \<noteq> ctx \<longrightarrow> contexts s' c = contexts s c"
    using p7 by (simp add: C cs1)
  have c7': "q \<noteq> 0 \<longrightarrow> contexts s' = contexts s"
    using p7' by (simp add: C cs1)
  have c7'': "devices s' = devices s"
    by (simp add: p8 unlink_source_devices s1)
  have c8: "q \<noteq> 0 \<longrightarrow> (sources s' q)\<lparr>src_playlist_next := 0\<rparr> = (sources s q)\<lparr>src_playlist_next := 0\<rparr>"
    using p9 a ss1 [of q] by (simp add: H)
  show ?thesis
    unfolding playlist_pass_def using p1 c2 p2(2) p3 c4 c5 c6 c7 c7' c7'' c8 by simp
qed

lemma dpath_unlink:
  assumes "dpath nxt prv a n rest" "distinct rest"
    and "\<And>x. x \<in> set rest \<Longrightarrow> nxt' x = nxt x"
    and "\<And>x. x \<in> set rest \<Longrightarrow> x \<noteq> n \<Longrightarrow> prv' x = prv x"
    and "n \<noteq> 0 \<Longrightarrow> prv' n = q"
  shows "dpath nxt' prv' q n rest"
proof (cases rest)
  case Nil
  with assms(1) show ?thesis by simp
next
  case (Cons b rest')
  with assms(1) have b: "n = b" "b \<noteq> 0" "dpath nxt prv b (nxt b) rest'" by simp_all
  have "dpath nxt' prv' b (nxt b) rest' = dpath nxt prv b (nxt b) rest'"
    using assms(2,3,4) Cons b(1) by (intro dpath_cong) auto
  with b assms(3) [of b] assms(5) Cons show ?thesis by simp
qed

lemma dpath_head: "dpath nxt prv q p ps \<Longrightarrow> p = 0 \<or> p \<in> set ps"
  by (cases ps) simp_all

lemma playlist_loop:
  assumes "dpath (playlist_next_of s) (playlist_prev_of s) q src ps"
    and "q \<notin> set ps" and "distinct ps"
    and "if q = 0 then ctx_playlist (contexts s ctx) = src else playlist_next_of s q = src"
  shows "\<exists>s' ps'. check_al_async_states_playlist R ctx src s = Some s'
           \<and> playlist_pass ctx q ps s s' ps'"
  using assms
proof (induction ps arbitrary: q src s)
  case Nil
  then have "src = 0" by simp
  with Nil playlist_loop_Nil [of q s ctx] show ?case by auto
next
  case (Cons a rest)
  from Cons.prems have a: "src = a" "a \<noteq> 0" "playlist_prev_of s a = q"
    and d: "dpath (playlist_next_of s) (playlist_prev_of s) a (playlist_next_of s a) rest"
    and n: "q \<noteq> a" "q \<notin> set rest" "a \<notin> set rest" "distinct rest"
    by auto
  define n where "n = playlist_next_of s a"
  from polls_check_source_state [of a R] obtain w bs r where
    cs: "check_source_state R a s =
           s\<lparr>world := w, logfile := logfile s @ bs, sources := (sources s)(a := r)\<rparr>"
    and l: "src_links r = src_links (sources s a)"
    unfolding polls_def by blast
  define s1 where "s1 = s\<lparr>world := w, logfile := logfile s @ bs, sources := (sources s)(a := r)\<rparr>"
  from l a have r: "src_playlist_prev r = q" "src_playlist_next r = n"
    "src_name r = src_name (sources s a)" "src_hash_next r = src_hash_next (sources s a)"
    "src_hash_prev r = src_hash_prev (sources s a)"
    by (simp_all add: src_links_def n_def)
  have step: "check_al_async_states_playlist R ctx src s =
     check_al_async_states_playlist R ctx n
       (if src_state r \<noteq> AL_PLAYING then unlink_source ctx a n s1 else s1)"
    using a(2) by (simp add: a(1) playlist_step_unlink cs n_def s1_def)
  have nr: "n = 0 \<or> n \<in> set rest"
    using dpath_head [OF d] by (simp add: n_def)
  show ?case
  proof (cases "src_state r = AL_PLAYING")
    case True
    have "dpath (playlist_next_of s1) (playlist_prev_of s1) a n rest =
          dpath (playlist_next_of s) (playlist_prev_of s) a n rest"
      using n by (intro dpath_cong) (auto simp: s1_def)
    with d have d1: "dpath (playlist_next_of s1) (playlist_prev_of s1) a n rest"
      by (simp add: n_def)
    have l1: "if a = 0 then ctx_playlist (contexts s1 ctx) = n else playlist_next_of s1 a = n"
      using a(2) by (simp add: s1_def r)
    from Cons.IH [OF d1 n(3) n(4) l1] obtain s' ps' where
      res: "check_al_async_states_playlist R ctx n s1 = Some s'"
      and ih: "playlist_pass ctx a rest s1 s' ps'"
      by blast
    have link: "if q = 0 then ctx_playlist (contexts s ctx) = a else playlist_next_of s q = a"
      using Cons.prems(4) by (simp add: a(1))
    have "playlist_pass ctx q (a # rest) s s' (a # ps')"
      using a(2) n(1) n(3) n(2) s1_def r(1) True r(3) r(4) r(5) link ih
      by (rule playlist_loop_keep)
    with res step True show ?thesis by auto
  next
    case False
    define s2 where "s2 = unlink_source ctx a n s1"
    have na: "n \<noteq> a" and nq: "n \<noteq> q \<or> n = 0"
      using nr n a(2) by auto
    have pq: "src_playlist_prev (sources s1 a) = q"
      by (simp add: s1_def r)
    note H = unlink_source_sources [OF na n(1) nq pq, of ctx]
    note C = unlink_source_contexts [OF na pq, of ctx]
    have ss1: "\<And>p. p \<noteq> a \<Longrightarrow> sources s1 p = sources s p"
      by (simp add: s1_def)
    have d2: "dpath (playlist_next_of s2) (playlist_prev_of s2) q n rest"
    proof (rule dpath_unlink [OF d [folded n_def] n(4)])
      fix x assume "x \<in> set rest"
      with n nq show "playlist_next_of s2 x = playlist_next_of s x"
        by (auto simp: s2_def H ss1)
    next
      fix x assume "x \<in> set rest" "x \<noteq> n"
      with n nq show "playlist_prev_of s2 x = playlist_prev_of s x"
        by (auto simp: s2_def H ss1)
    next
      assume "n \<noteq> 0"
      with na nq show "playlist_prev_of s2 n = q"
        by (auto simp: s2_def H)
    qed
    have l2: "if q = 0 then ctx_playlist (contexts s2 ctx) = n else playlist_next_of s2 q = n"
      using n(1) a(2) by (simp add: s2_def H C)
    from Cons.IH [OF d2 n(2) n(4) l2] obtain s' ps' where
      res: "check_al_async_states_playlist R ctx n s2 = Some s'"
      and ih: "playlist_pass ctx q rest s2 s' ps'"
      by blast
    have "playlist_pass ctx q (a # rest) s s' ps'"
      using a(2) n(1) n(3) n(2) nr s1_def r(1) r(3) r(4) r(5) ih [unfolded s2_def]
      by (rule playlist_loop_drop)
    with res step False show ?thesis by (auto simp: s2_def)
  qed
qed


lemma dpath_nonzero: "dpath nxt prv q p ps \<Longrightarrow> 0 \<notin> set ps"
  by (induction ps arbitrary: q p) auto

lemma path_cong: "(\<And>x. nxt' x = nxt x) \<Longrightarrow> path nxt' p ps = path nxt p ps"
  by (induction ps arbitrary: p) auto

lemma pass_frame_fields:
  assumes "pass_frame s s'"
  shows "ctx_next (contexts s' c) = ctx_next (contexts s c)"
    and "ctx_errorlatch (contexts s' c) = ctx_errorlatch (contexts s c)"
    and "ctx_device (contexts s' c) = ctx_device (contexts s c)"
    and "dev_next (devices s' d) = dev_next (devices s d)"
    and "dev_contexts (devices s' d) = dev_contexts (devices s d)"
    and "dev_iscapture (devices s' d) = dev_iscapture (devices s d)"
    and "dev_errorlatch (devices s' d) = dev_errorlatch (devices s d)"
    and "dev_device (devices s' d) = dev_device (devices s d)"
proof -
  from assms have c: "(contexts s' c)\<lparr>ctx_playlist := 0\<rparr> = (contexts s c)\<lparr>ctx_playlist := 0\<rparr>"
    and d: "(devices s' d)\<lparr>dev_connected := 0, dev_capture_samples := 0\<rparr> =
            (devices s d)\<lparr>dev_connected := 0, dev_capture_samples := 0\<rparr>"
    unfolding pass_frame_def by blast+
  show "ctx_next (contexts s' c) = ctx_next (contexts s c)"
    using arg_cong [OF c, of ctx_next] by simp
  show "ctx_errorlatch (contexts s' c) = ctx_errorlatch (contexts s c)"
    using arg_cong [OF c, of ctx_errorlatch] by simp
  show "ctx_device (contexts s' c) = ctx_device (contexts s c)"
    using arg_cong [OF c, of ctx_device] by simp
  show "dev_next (devices s' d) = dev_next (devices s d)"
    using arg_cong [OF d, of dev_next] by simp
  show "dev_contexts (devices s' d) = dev_contexts (devices s d)"
    using arg_cong [OF d, of dev_contexts] by simp
  show "dev_iscapture (devices s' d) = dev_iscapture (devices s d)"
    using arg_cong [OF d, of dev_iscapture] by simp
  show "dev_errorlatch (devices s' d) = dev_errorlatch (devices s d)"
    using arg_cong [OF d, of dev_errorlatch] by simp
  show "dev_device (devices s' d) = dev_device (devices s d)"
    using arg_cong [OF d, of dev_device] by simp
qed

lemma pass_result_refl: "playlists_ok C s pl \<Longrightarrow> pass_result C [] pl s s pl"
  by (simp add: pass_result_def playlists_ok_def pass_frame_refl)

lemma pass_result_ok:
  assumes "pass_result C polled pl s s' pl'" "playlists_ok C s pl"
  shows "playlists_ok C s' pl'"
proof -
  from assms(1) have sub: "\<And>c. set (pl' c) \<subseteq> set (pl c)"
    and pi: "\<forall>c\<in>C. playlist_is s' c (pl' c)"
    unfolding pass_result_def by blast+
  from assms(2) have dj: "\<And>c c'. c \<noteq> c' \<Longrightarrow> set (pl c) \<inter> set (pl c') = {}"
    and nz: "\<And>c. 0 \<notin> set (pl c)"
    unfolding playlists_ok_def by blast+
  have "\<And>c c'. c \<noteq> c' \<Longrightarrow> set (pl' c) \<inter> set (pl' c') = {}"
    using dj sub by blast
  moreover have "\<And>c. 0 \<notin> set (pl' c)"
    using nz sub by blast
  ultimately show ?thesis
    unfolding playlists_ok_def using pi by blast
qed

lemma pass_result_trans:
  assumes r1: "pass_result C d1 pl s s1 pl1"
    and r2: "pass_result C d2 pl1 s1 s2 pl2"
    and ok: "playlists_ok C s pl"
  shows "pass_result C (d1 @ d2) pl s s2 pl2"
proof -
  from r1 have sub1: "\<And>c. set (pl1 c) \<subseteq> set (pl c)"
    and play1: "\<And>c. c \<in> set d1 \<Longrightarrow> list_all (\<lambda>p. src_state (sources s1 p) = AL_PLAYING) (pl1 c)"
    and f1: "pass_frame s s1"
    and fr1: "\<And>p. p \<noteq> 0 \<Longrightarrow> (\<forall>c\<in>set d1. p \<notin> set (pl c)) \<Longrightarrow> sources s1 p = sources s p"
    unfolding pass_result_def by blast+
  from r2 have pi: "\<forall>c\<in>C. playlist_is s2 c (pl2 c)"
    and sub2: "\<And>c. set (pl2 c) \<subseteq> set (pl1 c)"
    and play2: "\<And>c. c \<in> set d2 \<Longrightarrow> list_all (\<lambda>p. src_state (sources s2 p) = AL_PLAYING) (pl2 c)"
    and f2: "pass_frame s1 s2"
    and fr2: "\<And>p. p \<noteq> 0 \<Longrightarrow> (\<forall>c\<in>set d2. p \<notin> set (pl1 c)) \<Longrightarrow> sources s2 p = sources s1 p"
    unfolding pass_result_def by blast+
  from ok have dj: "\<And>c c'. c \<noteq> c' \<Longrightarrow> set (pl c) \<inter> set (pl c') = {}"
    and nz: "\<And>c. 0 \<notin> set (pl c)"
    unfolding playlists_ok_def by blast+
  have sub: "\<forall>c. set (pl2 c) \<subseteq> set (pl c)"
    using sub1 sub2 by blast
  have play: "\<forall>c\<in>set (d1 @ d2). list_all (\<lambda>p. src_state (sources s2 p) = AL_PLAYING) (pl2 c)"
  proof
    fix c assume c: "c \<in> set (d1 @ d2)"
    show "list_all (\<lambda>p. src_state (sources s2 p) = AL_PLAYING) (pl2 c)"
    proof (cases "c \<in> set d2")
      case True
      then show ?thesis by (rule play2)
    next
      case False
      with c have c1: "c \<in> set d1" by simp
      show ?thesis
        unfolding list_all_iff
      proof
        fix p assume p: "p \<in> set (pl2 c)"
        then have p1: "p \<in> set (pl1 c)" and p0: "p \<in> set (pl c)"
          using sub1 sub2 by blast+
        then have "p \<noteq> 0" using nz by metis
        moreover have "\<forall>c'\<in>set d2. p \<notin> set (pl1 c')"
        proof
          fix c' assume "c' \<in> set d2"
          with False have "c \<noteq> c'" by blast
          from dj [OF this] p0 have "p \<notin> set (pl c')" by blast
          with sub1 show "p \<notin> set (pl1 c')" by blast
        qed
        ultimately have "sources s2 p = sources s1 p" by (rule fr2)
        moreover have "src_state (sources s1 p) = AL_PLAYING"
          using play1 [OF c1] p1 by (simp add: list_all_iff)
        ultimately show "src_state (sources s2 p) = AL_PLAYING" by simp
      qed
    qed
  qed
  have fr: "\<forall>p. p \<noteq> 0 \<longrightarrow> (\<forall>c\<in>set (d1 @ d2). p \<notin> set (pl c)) \<longrightarrow> sources s2 p = sources s p"
  proof (intro allI impI)
    fix p assume p: "p \<noteq> 0" "\<forall>c\<in>set (d1 @ d2). p \<notin> set (pl c)"
    then have "\<forall>c\<in>set d2. p \<notin> set (pl1 c)" using sub1 by auto
    with p have "sources s2 p = sources s1 p" by (intro fr2)
    moreover have "sources s1 p = sources s p" using p by (intro fr1) auto
    ultimately show "sources s2 p = sources s p" by simp
  qed
  show ?thesis
    unfolding pass_result_def
    using pi sub play pass_frame_trans [OF f1 f2] fr by blast
qed

lemma context_step_result:
  assumes ok: "playlists_ok C s pl" and a: "a \<in> C"
    and pp: "playlist_pass a 0 (pl a) s s1 ps1"
  shows "pass_result C [a] pl s s1 (pl(a := ps1))"
proof -
  from ok have pi: "\<And>c. c \<in> C \<Longrightarrow> playlist_is s c (pl c)"
    and dj: "\<And>c c'. c \<noteq> c' \<Longrightarrow> set (pl c) \<inter> set (pl c') = {}"
    and nz: "\<And>c. 0 \<notin> set (pl c)"
    unfolding playlists_ok_def by blast+
  from pp have
    p1: "dpath (playlist_next_of s1) (playlist_prev_of s1) 0 (ctx_playlist (contexts s1 a)) ps1"
    and p2: "set ps1 \<subseteq> set (pl a)" "distinct ps1"
    and p3: "list_all (\<lambda>p. src_state (sources s1 p) = AL_PLAYING) ps1"
    and p4: "pass_frame s s1"
    and p5: "\<And>p. p \<notin> set (pl a) \<Longrightarrow> p \<noteq> 0 \<Longrightarrow> sources s1 p = sources s p"
    and p7: "\<And>c. c \<noteq> a \<Longrightarrow> contexts s1 c = contexts s c"
    unfolding playlist_pass_def by simp_all
  have c1: "\<forall>c\<in>C. playlist_is s1 c ((pl(a := ps1)) c)"
  proof
    fix c assume c: "c \<in> C"
    show "playlist_is s1 c ((pl(a := ps1)) c)"
    proof (cases "c = a")
      case True
      with p1 p2 show ?thesis by (simp add: playlist_is_def)
    next
      case False
      have "\<And>x. x \<in> set (pl c) \<Longrightarrow> sources s1 x = sources s x"
      proof -
        fix x assume x: "x \<in> set (pl c)"
        with dj [OF False] have "x \<notin> set (pl a)" by blast
        moreover from x nz have "x \<noteq> 0" by metis
        ultimately show "sources s1 x = sources s x" by (rule p5)
      qed
      then have "dpath (playlist_next_of s1) (playlist_prev_of s1) 0 (ctx_playlist (contexts s c)) (pl c) =
            dpath (playlist_next_of s) (playlist_prev_of s) 0 (ctx_playlist (contexts s c)) (pl c)"
        by (intro dpath_cong) simp
      with pi [OF c] False show ?thesis
        by (simp add: playlist_is_def p7)
    qed
  qed
  have c2: "\<forall>c. set ((pl(a := ps1)) c) \<subseteq> set (pl c)"
    using p2 by simp
  have c3: "\<forall>c\<in>set [a]. list_all (\<lambda>p. src_state (sources s1 p) = AL_PLAYING) ((pl(a := ps1)) c)"
    using p3 by simp
  have c5: "\<forall>p. p \<noteq> 0 \<longrightarrow> (\<forall>c\<in>set [a]. p \<notin> set (pl c)) \<longrightarrow> sources s1 p = sources s p"
    using p5 by simp
  show ?thesis
    unfolding pass_result_def using c1 c2 c3 p4 c5 by blast
qed

lemma contexts_loop:
  assumes "path (\<lambda>c. ctx_next (contexts s c)) c cs" "set cs \<subseteq> C" "playlists_ok C s pl"
  shows "\<exists>s' pl'. check_al_async_states_contexts R c s = Some s' \<and> pass_result C cs pl s s' pl'"
  using assms
proof (induction cs arbitrary: c s pl)
  case Nil
  then have "check_al_async_states_contexts R c s = Some s" "pass_result C [] pl s s pl"
    by (simp_all add: pass_result_refl)
  then show ?case by blast
next
  case (Cons a rest)
  from Cons.prems have a: "c = a" "a \<noteq> 0" "a \<in> C"
    and pr: "path (\<lambda>c. ctx_next (contexts s c)) (ctx_next (contexts s a)) rest"
    and sub: "set rest \<subseteq> C"
    by auto
  from Cons.prems(3) a(3) have pi: "playlist_is s a (pl a)"
    unfolding playlists_ok_def by blast
  then have d: "dpath (playlist_next_of s) (playlist_prev_of s) 0 (ctx_playlist (contexts s a)) (pl a)"
    and di: "distinct (pl a)"
    unfolding playlist_is_def by blast+
  have "if (0::nat) = 0 then ctx_playlist (contexts s a) = ctx_playlist (contexts s a)
        else playlist_next_of s 0 = ctx_playlist (contexts s a)"
    by simp
  from playlist_loop [OF d dpath_nonzero [OF d] di this] obtain s1 ps1 where
    res1: "check_al_async_states_playlist R a (ctx_playlist (contexts s a)) s = Some s1"
    and pp: "playlist_pass a 0 (pl a) s s1 ps1"
    by blast
  have r1: "pass_result C [a] pl s s1 (pl(a := ps1))"
    using Cons.prems(3) a(3) pp by (rule context_step_result)
  then have f1: "pass_frame s s1"
    unfolding pass_result_def by blast
  have ok1: "playlists_ok C s1 (pl(a := ps1))"
    using r1 Cons.prems(3) by (rule pass_result_ok)
  have "path (\<lambda>c. ctx_next (contexts s1 c)) (ctx_next (contexts s1 a)) rest"
    using pr by (simp add: pass_frame_fields [OF f1])
  from Cons.IH [OF this sub ok1] obtain s' pl' where
    res: "check_al_async_states_contexts R (ctx_next (contexts s1 a)) s1 = Some s'"
    and r2: "pass_result C rest (pl(a := ps1)) s1 s' pl'"
    by blast
  have "pass_result C ([a] @ rest) pl s s' pl'"
    using r1 r2 Cons.prems(3) by (rule pass_result_trans)
  moreover have "check_al_async_states_contexts R c s = Some s'"
    using a(2) by (simp add: a(1) contexts_step res1 res)
  ultimately show ?case by auto
qed

lemma check_device_state_bool_effect:
  "\<exists>w bs v. check_device_state_bool R a param dev_connected (\<lambda>v d. d\<lparr>dev_connected := v\<rparr>) s =
     s\<lparr>world := w, logfile := logfile s @ bs,
       devices := (devices s)(a := (devices s a)\<lparr>dev_connected := v\<rparr>)\<rparr>"
proof -
  obtain ival w where q: "REAL_alcGetIntegerv R (dev_device (devices s a)) param (world s) = (ival, w)"
    by (cases "REAL_alcGetIntegerv R (dev_device (devices s a)) param (world s)")
  define nv where "nv = (if ival \<noteq> 0 then ALC_TRUE else ALC_FALSE)"
  show ?thesis
  proof (cases "nv \<noteq> dev_connected (devices s a)")
    case True
    then have "check_device_state_bool R a param dev_connected (\<lambda>v d. d\<lparr>dev_connected := v\<rparr>) s =
       s\<lparr>world := w, logfile := logfile s @ (le32 (ALEE R ALEE_DEVICE_STATE_CHANGED_BOOL) @
            le64 (of_nat a) @ le32 param @ le32 (scast nv)),
         devices := (devices s)(a := (devices s a)\<lparr>dev_connected := nv\<rparr>)\<rparr>"
      by (simp add: check_device_state_bool_def q Let_def nv_def [symmetric] IO_as_write_log
          set_device_def write_log_def)
    then show ?thesis by blast
  next
    case False
    then have "check_device_state_bool R a param dev_connected (\<lambda>v d. d\<lparr>dev_connected := v\<rparr>) s =
       s\<lparr>world := w, logfile := logfile s @ [],
         devices := (devices s)(a := (devices s a)\<lparr>dev_connected := dev_connected (devices s a)\<rparr>)\<rparr>"
      by (simp add: check_device_state_bool_def q Let_def nv_def [symmetric])
    then show ?thesis by blast
  qed
qed

lemma check_device_state_int_effect:
  "\<exists>w bs v. check_device_state_int R a param dev_capture_samples
       (\<lambda>v d. d\<lparr>dev_capture_samples := v\<rparr>) s =
     s\<lparr>world := w, logfile := logfile s @ bs,
       devices := (devices s)(a := (devices s a)\<lparr>dev_capture_samples := v\<rparr>)\<rparr>"
proof -
  obtain ival w where q: "REAL_alcGetIntegerv R (dev_device (devices s a)) param (world s) = (ival, w)"
    by (cases "REAL_alcGetIntegerv R (dev_device (devices s a)) param (world s)")
  show ?thesis
  proof (cases "ival \<noteq> dev_capture_samples (devices s a)")
    case True
    then have "check_device_state_int R a param dev_capture_samples
         (\<lambda>v d. d\<lparr>dev_capture_samples := v\<rparr>) s =
       s\<lparr>world := w, logfile := logfile s @ (le32 (ALEE R ALEE_DEVICE_STATE_CHANGED_INT) @
            le64 (of_nat a) @ le32 param @ le32 ival),
         devices := (devices s)(a := (devices s a)\<lparr>dev_capture_samples := ival\<rparr>)\<rparr>"
      by (simp add: check_device_state_int_def q Let_def IO_as_write_log
          set_device_def write_log_def)
    then show ?thesis by blast
  next
    case False
    then have "check_device_state_int R a param dev_capture_samples
         (\<lambda>v d. d\<lparr>dev_capture_samples := v\<rparr>) s =
       s\<lparr>world := w, logfile := logfile s @ [],
         devices := (devices s)(a := (devices s a)\<lparr>dev_capture_samples := dev_capture_samples (devices s a)\<rparr>)\<rparr>"
      by (simp add: check_device_state_int_def q Let_def)
    then show ?thesis by blast
  qed
qed

lemma pass_result_device:
  assumes "pass_frame s s1" "sources s1 = sources s" "contexts s1 = contexts s"
    and "playlists_ok C s pl"
  shows "pass_result C [] pl s s1 pl"
  using assms by (simp add: pass_result_def playlists_ok_def playlist_is_def)

lemma polled_contexts_cong:
  "pass_frame s s' \<Longrightarrow> polled_contexts s' ds cs = polled_contexts s ds cs"
  by (simp add: polled_contexts_def pass_frame_fields)

lemma devices_loop:
  assumes "path (\<lambda>d. dev_next (devices s d)) d ds"
    and "\<forall>d\<in>set ds. path (\<lambda>c. ctx_next (contexts s c)) (dev_contexts (devices s d)) (cs d)
           \<and> set (cs d) \<subseteq> C"
    and "playlists_ok C s pl"
  shows "\<exists>s' pl'. check_al_async_states_devices R d s = Some s'
           \<and> pass_result C (polled_contexts s ds cs) pl s s' pl'"
  using assms
proof (induction ds arbitrary: d s pl)
  case Nil
  then have "check_al_async_states_devices R d s = Some s"
    "pass_result C (polled_contexts s [] cs) pl s s pl"
    by (simp_all add: pass_result_refl polled_contexts_def)
  then show ?case by blast
next
  case (Cons a rest)
  note ok = Cons.prems(3)
  from Cons.prems have a: "d = a" "a \<noteq> 0"
    and pr: "path (\<lambda>d. dev_next (devices s d)) (dev_next (devices s a)) rest"
    and ca: "path (\<lambda>c. ctx_next (contexts s c)) (dev_contexts (devices s a)) (cs a)" "set (cs a) \<subseteq> C"
    and cr: "\<forall>d\<in>set rest. path (\<lambda>c. ctx_next (contexts s c)) (dev_contexts (devices s d)) (cs d)
           \<and> set (cs d) \<subseteq> C"
    by auto
  define s1 where "s1 = (if dev_supports_disconnect_ext (devices s a) \<noteq> 0
       then check_device_state_bool R a ALC_CONNECTED dev_connected (\<lambda>v d. d\<lparr>dev_connected := v\<rparr>) s
       else s)"
  have "\<exists>w bs v. s1 = s\<lparr>world := w, logfile := logfile s @ bs,
       devices := (devices s)(a := (devices s a)\<lparr>dev_connected := v\<rparr>)\<rparr>"
  proof (cases "dev_supports_disconnect_ext (devices s a) \<noteq> 0")
    case True
    then show ?thesis
      using check_device_state_bool_effect [of R a ALC_CONNECTED s] by (simp add: s1_def)
  next
    case False
    have "s = s\<lparr>world := world s, logfile := logfile s @ [],
       devices := (devices s)(a := (devices s a)\<lparr>dev_connected := dev_connected (devices s a)\<rparr>)\<rparr>"
      by simp
    with False show ?thesis unfolding s1_def by (simp only: if_False) blast
  qed
  then obtain w bs v where e1: "s1 = s\<lparr>world := w, logfile := logfile s @ bs,
       devices := (devices s)(a := (devices s a)\<lparr>dev_connected := v\<rparr>)\<rparr>"
    by blast
  have f1: "pass_frame s s1" and k1: "sources s1 = sources s" "contexts s1 = contexts s"
    by (simp_all add: e1 pass_frame_def)
  have r1: "pass_result C [] pl s s1 pl"
    using f1 k1 ok by (rule pass_result_device)
  have ok1: "playlists_ok C s1 pl"
    using r1 ok by (rule pass_result_ok)
  define X where "X = (if dev_iscapture (devices s a) = 0 then cs a else [])"
  have "\<exists>s2 pl2. (if dev_iscapture (devices s1 a) \<noteq> 0
                     then Some (check_device_state_int R a ALC_CAPTURE_SAMPLES
                                  dev_capture_samples (\<lambda>v d. d\<lparr>dev_capture_samples := v\<rparr>) s1)
                     else check_al_async_states_contexts R (dev_contexts (devices s1 a)) s1) = Some s2
          \<and> pass_result C X pl s1 s2 pl2"
  proof (cases "dev_iscapture (devices s a) = 0")
    case True
    have "path (\<lambda>c. ctx_next (contexts s1 c)) (dev_contexts (devices s1 a)) (cs a)"
      using ca(1) by (simp add: pass_frame_fields [OF f1])
    from contexts_loop [OF this ca(2) ok1, of R] True show ?thesis
      by (simp add: X_def pass_frame_fields [OF f1])
  next
    case False
    define s2 where "s2 = check_device_state_int R a ALC_CAPTURE_SAMPLES
                                  dev_capture_samples (\<lambda>v d. d\<lparr>dev_capture_samples := v\<rparr>) s1"
    from check_device_state_int_effect [of R a ALC_CAPTURE_SAMPLES s1]
    obtain w' bs' v' where e2: "s2 = s1\<lparr>world := w', logfile := logfile s1 @ bs',
       devices := (devices s1)(a := (devices s1 a)\<lparr>dev_capture_samples := v'\<rparr>)\<rparr>"
      unfolding s2_def by blast
    have "pass_frame s1 s2" "sources s2 = sources s1" "contexts s2 = contexts s1"
      by (simp_all add: e2 pass_frame_def)
    then have "pass_result C [] pl s1 s2 pl"
      using ok1 by (rule pass_result_device)
    with False show ?thesis
      by (auto simp: X_def pass_frame_fields [OF f1] s2_def)
  qed
  then obtain s2 pl2 where
    mid: "(if dev_iscapture (devices s1 a) \<noteq> 0
                     then Some (check_device_state_int R a ALC_CAPTURE_SAMPLES
                                  dev_capture_samples (\<lambda>v d. d\<lparr>dev_capture_samples := v\<rparr>) s1)
                     else check_al_async_states_contexts R (dev_contexts (devices s1 a)) s1) = Some s2"
    and r2: "pass_result C X pl s1 s2 pl2"
    by blast
  have r12: "pass_result C ([] @ X) pl s s2 pl2"
    using r1 r2 ok by (rule pass_result_trans)
  then have f12: "pass_frame s s2"
    unfolding pass_result_def by blast
  have ok2: "playlists_ok C s2 pl2"
    using r12 ok by (rule pass_result_ok)
  have pr2: "path (\<lambda>d. dev_next (devices s2 d)) (dev_next (devices s2 a)) rest"
    using pr by (simp add: pass_frame_fields [OF f12])
  have cr2: "\<forall>d\<in>set rest. path (\<lambda>c. ctx_next (contexts s2 c)) (dev_contexts (devices s2 d)) (cs d)
           \<and> set (cs d) \<subseteq> C"
    using cr by (simp add: pass_frame_fields [OF f12])
  from Cons.IH [OF pr2 cr2 ok2] obtain s' pl' where
    res: "check_al_async_states_devices R (dev_next (devices s2 a)) s2 = Some s'"
    and r3: "pass_result C (polled_contexts s2 rest cs) pl2 s2 s' pl'"
    by blast
  have "pass_result C (([] @ X) @ polled_contexts s2 rest cs) pl s s' pl'"
    using r12 r3 ok by (rule pass_result_trans)
  moreover have "([] @ X) @ polled_contexts s2 rest cs = polled_contexts s (a # rest) cs"
    unfolding polled_contexts_cong [OF f12] by (simp add: polled_contexts_def X_def)
  ultimately have "pass_result C (polled_contexts s (a # rest) cs) pl s s' pl'"
    by simp
  moreover have "check_al_async_states_devices R d s = Some s'"
    using a(2) mid res by (simp add: a(1) devices_step Let_def s1_def [symmetric])
  ultimately show ?case by blast
qed

lemma check_al_async_states_total:
  assumes "lists_are s ds cs pl"
  shows "\<exists>s' pl'. check_al_async_states R s = Some s' \<and> lists_are s' ds cs pl'
           \<and> pass_result (\<Union>d\<in>set ds. set (cs d)) (polled_contexts s ds cs) pl s s' pl'"
proof -
  let ?C = "\<Union>d\<in>set ds. set (cs d)"
  from assms have p: "path (\<lambda>d. dev_next (devices s d)) (dev_next (devices s null_device)) ds"
    and c: "\<forall>d\<in>set ds. path (\<lambda>c. ctx_next (contexts s c)) (dev_contexts (devices s d)) (cs d)"
    and ok: "playlists_ok ?C s pl"
    unfolding lists_are_def by blast+
  from c have c': "\<forall>d\<in>set ds. path (\<lambda>c. ctx_next (contexts s c)) (dev_contexts (devices s d)) (cs d)
           \<and> set (cs d) \<subseteq> ?C"
    by blast
  from devices_loop [OF p c' ok, of R] obtain s' pl' where
    res: "check_al_async_states_devices R (dev_next (devices s null_device)) s = Some s'"
    and r: "pass_result ?C (polled_contexts s ds cs) pl s s' pl'"
    by blast
  from r have f: "pass_frame s s'"
    unfolding pass_result_def by blast
  have "lists_are s' ds cs pl'"
    unfolding lists_are_def
    using p c pass_result_ok [OF r ok] by (simp add: pass_frame_fields [OF f])
  with res r show ?thesis
    by (auto simp: check_al_async_states_def)
qed


section \<open>The call-stack collector\<close>

lemma get_callstack_sym_cases:
  assumes "get_callstack_sym R a s = (str, seen, s1)"
  shows "(seen \<and> stackframe_map s a = str \<and> str \<noteq> None \<and> s1 = s) \<or>
     (\<not> seen \<and> str = None \<and> stackframe_map s a = None \<and> stackframe_map s1 = stackframe_map s) \<or>
     (\<not> seen \<and> str \<noteq> None \<and> stackframe_map s a = None
        \<and> stackframe_map s1 = (stackframe_map s)(a := str))"
  using assms
  by (cases "stackframe_map s a")
     (force simp: get_callstack_sym_def get_mapped_stackframe_def add_stackframe_to_map_def Let_def
      split: option.splits prod.splits if_splits)+

lemma scan_props:
  assumes "IO_ENTRYINFO_scan R fs s = (i, news, s')"
  shows "distinct (map fst news)
     \<and> fst ` set news \<inter> dom (stackframe_map s) = {}
     \<and> dom (stackframe_map s') = dom (stackframe_map s) \<union> fst ` set news
     \<and> set (take i fs) \<subseteq> dom (stackframe_map s')
     \<and> None \<notin> snd ` set news
     \<and> stackframe_map s \<subseteq>\<^sub>m stackframe_map s'
     \<and> i \<le> length fs"
  using assms
proof (induction fs arbitrary: s i news s')
  case Nil
  then show ?case by simp
next
  case (Cons a fs)
  obtain str seen s1 where g: "get_callstack_sym R a s = (str, seen, s1)"
    by (cases "get_callstack_sym R a s") auto
  show ?case
  proof (cases "str = None \<and> \<not> seen")
    case True
    with Cons.prems g have "i = 0" "news = []" "s' = s1" by auto
    moreover from get_callstack_sym_cases [OF g] True have "stackframe_map s1 = stackframe_map s"
      by auto
    ultimately show ?thesis by simp
  next
    case False
    obtain j ns s2 where r: "IO_ENTRYINFO_scan R fs s1 = (j, ns, s2)"
      by (cases "IO_ENTRYINFO_scan R fs s1") auto
    from Cons.prems g False r have res: "i = Suc j" "news = (if \<not> seen then [(a, str)] else []) @ ns" "s' = s2"
      by auto
    note ih = Cons.IH [OF r]
    from get_callstack_sym_cases [OF g] False
    consider (old) "seen" "stackframe_map s a = str" "str \<noteq> None" "s1 = s"
      | (new) "\<not> seen" "str \<noteq> None" "stackframe_map s a = None"
          "stackframe_map s1 = (stackframe_map s)(a := str)"
      by auto
    then show ?thesis
    proof cases
      case old
      with ih res show ?thesis by (auto simp: domIff)
    next
      case new
      then obtain m where m: "str = Some m" by auto
      have le: "stackframe_map s \<subseteq>\<^sub>m stackframe_map s1"
        using new by (auto simp: map_le_def domIff)
      with ih have "stackframe_map s \<subseteq>\<^sub>m stackframe_map s2"
        by (blast intro: map_le_trans)
      moreover have "dom (stackframe_map s1) = insert a (dom (stackframe_map s))"
        using new m by auto
      ultimately show ?thesis using ih res new m
        by (auto simp: domIff)
    qed
  qed
qed

lemma fold_IO_PTR: "fold IO_PTR ps s = write_log (concat (map le64 ps)) s"
  by (induction ps arbitrary: s) (simp_all add: IO_as_write_log)

lemma fold_write_log_pairs:
  "fold (\<lambda>(p, str). write_log (g p str)) news s =
     write_log (concat (map (\<lambda>(p, str). g p str) news)) s"
  by (induction news arbitrary: s) (simp_all split: prod.splits)

lemma scan_fields:
  assumes "IO_ENTRYINFO_scan R fs s = (i, news, s')"
  shows "logfile s' = logfile s"
  using assms
proof (induction fs arbitrary: s i news s')
  case Nil
  then show ?case by simp
next
  case (Cons a fs)
  have g: "logfile (snd (snd (get_callstack_sym R a s))) = logfile s"
    by (simp add: get_callstack_sym_def get_mapped_stackframe_def add_stackframe_to_map_def
        Let_def split: option.splits prod.splits)
  from Cons.prems show ?case
    using g Cons.IH
    by (auto split: prod.splits if_splits)
qed

lemma IO_ENTRYINFO_unfold:
  assumes "now R (world s) = (ms, w1)" "backtrace R (MAX_CALLSTACKS R) w1 = (bt, w2)"
    "IO_ENTRYINFO_scan R (captured_frames R bt) (s\<lparr>world := w2\<rparr>) = (i, news, s1)"
    "pthread_self R (world s1) = (tid, w3)"
  shows "IO_ENTRYINFO R e s =
      (write_log (newsyms_bytes R news @ callerinfo_bytes R e ms tid (take i (captured_frames R bt))) s1)
        \<lparr>world := w3\<rparr>"
    and "IO_ENTRYINFO_emitted R s = (news, take i (captured_frames R bt))"
proof -
  have i: "i \<le> length (captured_frames R bt)"
    using scan_props [OF assms(3)] by simp
  show "IO_ENTRYINFO R e s =
      (write_log (newsyms_bytes R news @ callerinfo_bytes R e ms tid (take i (captured_frames R bt))) s1)
        \<lparr>world := w3\<rparr>"
    using assms i
    by (simp add: IO_ENTRYINFO_def Let_def fold_IO_PTR fold_write_log_pairs IO_as_write_log
        IO_STRING_as_write_log newsyms_bytes_def callerinfo_bytes_def min_def)
  show "IO_ENTRYINFO_emitted R s = (news, take i (captured_frames R bt))"
    using assms by (simp add: IO_ENTRYINFO_emitted_def)
qed


lemma entry_props:
  assumes em: "IO_ENTRYINFO_emitted R s = (news, frames)"
  shows "distinct (map fst news)
     \<and> fst ` set news \<inter> dom (stackframe_map s) = {}
     \<and> dom (stackframe_map (IO_ENTRYINFO R e s)) = dom (stackframe_map s) \<union> fst ` set news
     \<and> set frames \<subseteq> dom (stackframe_map (IO_ENTRYINFO R e s))
     \<and> None \<notin> snd ` set news
     \<and> stackframe_map s \<subseteq>\<^sub>m stackframe_map (IO_ENTRYINFO R e s)
     \<and> (\<exists>ms tid. logfile (IO_ENTRYINFO R e s) =
           logfile s @ newsyms_bytes R news @ callerinfo_bytes R e ms tid frames)"
proof -
  obtain ms w1 where a: "now R (world s) = (ms, w1)" by (cases "now R (world s)") auto
  obtain bt w2 where b: "backtrace R (MAX_CALLSTACKS R) w1 = (bt, w2)"
    by (cases "backtrace R (MAX_CALLSTACKS R) w1") auto
  obtain i ns s1 where c: "IO_ENTRYINFO_scan R (captured_frames R bt) (s\<lparr>world := w2\<rparr>) = (i, ns, s1)"
    by (cases "IO_ENTRYINFO_scan R (captured_frames R bt) (s\<lparr>world := w2\<rparr>)") auto
  obtain tid w3 where d: "pthread_self R (world s1) = (tid, w3)"
    by (cases "pthread_self R (world s1)") auto
  note u = IO_ENTRYINFO_unfold [OF a b c d]
  from u(2) em have n: "news = ns" and f: "frames = take i (captured_frames R bt)" by simp_all
  have m: "stackframe_map (IO_ENTRYINFO R e s) = stackframe_map s1"
    by (simp add: u(1))
  have l: "logfile (IO_ENTRYINFO R e s) =
      logfile s @ newsyms_bytes R news @ callerinfo_bytes R e ms tid frames"
    using scan_fields [OF c] by (simp add: u(1) n f)
  from scan_props [OF c] m n f l show ?thesis by auto
qed

lemma session_inv:
  assumes "list_all (\<lambda>c. \<forall>t. stackframe_map (snd c t) = stackframe_map t) calls"
  shows "distinct (map fst (concat (map fst (session_emitted R calls s))))
     \<and> fst ` set (concat (map fst (session_emitted R calls s))) \<inter> dom (stackframe_map s) = {}
     \<and> None \<notin> snd ` set (concat (map fst (session_emitted R calls s)))
     \<and> (\<forall>i < length (session_emitted R calls s).
           set (snd (session_emitted R calls s ! i)) \<subseteq>
             dom (stackframe_map s) \<union>
             fst ` set (concat (map fst (take (Suc i) (session_emitted R calls s)))))"
  using assms
proof (induction calls arbitrary: s)
  case Nil
  then show ?case by simp
next
  case (Cons c calls)
  obtain e rest where c: "c = (e, rest)" by (cases c) auto
  obtain news frames where em: "IO_ENTRYINFO_emitted R s = (news, frames)"
    by (cases "IO_ENTRYINFO_emitted R s") auto
  let ?s' = "rest (IO_ENTRYINFO R e s)"
  let ?evs = "session_emitted R calls ?s'"
  from Cons.prems c have keep: "stackframe_map ?s' = stackframe_map (IO_ENTRYINFO R e s)"
    and rest: "list_all (\<lambda>c. \<forall>t. stackframe_map (snd c t) = stackframe_map t) calls"
    by simp_all
  note ep = entry_props [OF em, of e]
  from ep keep have dom': "dom (stackframe_map ?s') = dom (stackframe_map s) \<union> fst ` set news"
    by simp
  note ih = Cons.IH [OF rest, of ?s']
  have ev: "session_emitted R (c # calls) s = (news, frames) # ?evs"
    by (simp add: c em)
  from ih have "fst ` set (concat (map fst ?evs)) \<inter> dom (stackframe_map ?s') = {}"
    by blast
  then have disj: "fst ` set (concat (map fst ?evs)) \<inter> fst ` set news = {}"
    and old: "fst ` set (concat (map fst ?evs)) \<inter> dom (stackframe_map s) = {}"
    unfolding dom' by blast+
  have 1: "distinct (map fst (news @ concat (map fst ?evs)))"
    using ep ih disj by (simp add: Int_commute)
  have 2: "fst ` set (news @ concat (map fst ?evs)) \<inter> dom (stackframe_map s) = {}"
    using ep old by (simp add: image_Un Int_Un_distrib2)
  have 3: "None \<notin> snd ` set (news @ concat (map fst ?evs))"
    using ep ih by auto
  have 4: "set (snd (((news, frames) # ?evs) ! i)) \<subseteq>
             dom (stackframe_map s) \<union>
             fst ` set (concat (map fst (take (Suc i) ((news, frames) # ?evs))))"
    if "i < length ((news, frames) # ?evs)" for i
  proof (cases i)
    case 0
    with ep keep dom' show ?thesis by auto
  next
    case (Suc k)
    with that have "k < length ?evs" by simp
    with ih have "set (snd (?evs ! k)) \<subseteq>
        dom (stackframe_map ?s') \<union> fst ` set (concat (map fst (take (Suc k) ?evs)))"
      by blast
    then show ?thesis unfolding dom' Suc by (simp add: image_Un) blast
  qed
  show ?case
    unfolding ev using 1 2 3 4 by simp
qed

text \<open>
  Claim C4. Over a recording session that starts with an empty frame map, whatever the
  rest of the calls does short of writing the map: no frame address is put into a
  new-callstack-symbols event twice (so its pair is emitted in one event, once); every
  frame address in the caller-info of a call event has been emitted in the
  new-callstack-symbols event of that call or of an earlier one; \<open>IO_ENTRYINFO\<close> only
  adds to the map; and \<open>IO_ENTRYINFO\<close> appends the new-callstack-symbols event, if any,
  and then the header of the call event, so that the symbols precede their first use.
\<close>

theorem symbol_economy:
  assumes start: "stackframe_map s = (\<lambda>a. None)"
    and rest: "list_all (\<lambda>c. \<forall>t. stackframe_map (snd c t) = stackframe_map t) calls"
  shows "distinct (map fst (concat (map fst (session_emitted R calls s))))
     \<and> (\<forall>i < length (session_emitted R calls s).
           set (snd (session_emitted R calls s ! i)) \<subseteq>
             fst ` set (concat (map fst (take (Suc i) (session_emitted R calls s)))))
     \<and> (\<forall>t e. stackframe_map t \<subseteq>\<^sub>m stackframe_map (IO_ENTRYINFO R e t))
     \<and> (\<forall>t e. \<exists>ms tid. logfile (IO_ENTRYINFO R e t) =
           logfile t @ newsyms_bytes R (fst (IO_ENTRYINFO_emitted R t)) @
           callerinfo_bytes R e ms tid (snd (IO_ENTRYINFO_emitted R t)))"
proof -
  have d: "dom (stackframe_map s) = {}" by (simp add: start)
  have e: "stackframe_map t \<subseteq>\<^sub>m stackframe_map (IO_ENTRYINFO R e t)
     \<and> (\<exists>ms tid. logfile (IO_ENTRYINFO R e t) =
           logfile t @ newsyms_bytes R (fst (IO_ENTRYINFO_emitted R t)) @
           callerinfo_bytes R e ms tid (snd (IO_ENTRYINFO_emitted R t)))" for t e
    using entry_props [of R t "fst (IO_ENTRYINFO_emitted R t)" "snd (IO_ENTRYINFO_emitted R t)" e]
    by simp
  from session_inv [OF rest, of R s] d e show ?thesis by simp
qed

lemma stack_env_session:
  "session_emitted stack_env [(ALEE_alGetError, id), (ALEE_alGetError, id)] (recorder_start ()) =
     [([(10, Some [102, 0]), (11, Some [102, 0])], [10, 11]), ([], [10, 11])]"
  by (simp add: stack_env_def quiet_env_def recorder_start_def IO_ENTRYINFO_emitted_def
      IO_ENTRYINFO_def captured_frames_def get_callstack_sym_def get_mapped_stackframe_def
      add_stackframe_to_map_def strdup_def Let_def IO_as_write_log IO_STRING_as_write_log)

theorem symbol_economy_witness:
  "session_emitted stack_env [(ALEE_alGetError, id), (ALEE_alGetError, id)] (recorder_start ()) =
     [([(10, Some [102, 0]), (11, Some [102, 0])], [10, 11]), ([], [10, 11])]
   \<and> distinct (map fst (concat (map fst (session_emitted stack_env
        [(ALEE_alGetError, id), (ALEE_alGetError, id)] (recorder_start ())))))
   \<and> set (snd (session_emitted stack_env
        [(ALEE_alGetError, id), (ALEE_alGetError, id)] (recorder_start ()) ! 1)) \<subseteq>
      fst ` set (concat (map fst (take 2 (session_emitted stack_env
        [(ALEE_alGetError, id), (ALEE_alGetError, id)] (recorder_start ())))))"
proof -
  have a: "stackframe_map (recorder_start ()) = (\<lambda>a. None)"
    by (simp add: recorder_start_def)
  have b: "list_all (\<lambda>c. \<forall>t :: unit recorder. stackframe_map (snd c t) = stackframe_map t)
      [(ALEE_alGetError, id), (ALEE_alGetError, id)]"
    by simp
  from symbol_economy [OF a b, of stack_env] stack_env_session show ?thesis
    by simp
qed





section \<open>Wrapped calls: arguments on the wire\<close>






section \<open>Freeing shadow records\<close>

lemmas eval_defs =
  IO_START_def IO_END_def IO_END_ALC_def IO_ENTRYINFO_def captured_frames_def
  check_al_error_events_def check_alc_error_events_def check_al_async_states_def
  IO_as_write_log IO_STRING_as_write_log Let_def
  set_source_def set_context_def set_device_def set_buffer_def
  null_device_def zero_DeviceWrapper_def zero_ContextWrapper_def zero_SourceWrapper_def
  zero_BufferWrapper_def recorder_start_def quiet_env_def
  devices_step contexts_step playlist_step source_walk_step buffer_walk_step
  AL_NO_ERROR_def ALC_NO_ERROR_def ALC_INVALID_CONTEXT_def ALC_TRUE_def

text \<open>
  Claim C1, at the input where the code departs from it. \<open>alcDestroyContext\<close> is called
  on the one context of a device and the real call fails, leaving \<open>ALC_INVALID_CONTEXT\<close>
  for the post-call check to latch into the device. The wrapper is freed and taken off
  the device's list all the same.
\<close>

theorem destroy_frees_on_failure:
  "map_option (\<lambda>s. (3 \<in> allocated_contexts s, dev_contexts (devices s 2),
                     dev_errorlatch (devices s 2)))
     (alcDestroyContext failing_destroy_env 3 (one_context_state False)) =
   Some (False, 0, ALC_INVALID_CONTEXT)
   \<and> 3 \<in> allocated_contexts (one_context_state False)
   \<and> dev_contexts (devices (one_context_state False) 2) = 3"
  by (simp add: alcDestroyContext_def failing_destroy_env_def one_context_state_def eval_defs)

section \<open>The playlist\<close>

lemmas source_eval_defs =
  check_source_state_def check_source_state_enum_def check_source_state_uint_def
  check_source_state_int_def check_source_state_bool_def check_source_state_float_def
  check_source_state_float3_def in_order_def source_wrapped_lookup_def
  add_source_to_playlist_def hash_alname_def float_ne_def float_is_nan_def float_is_zero_def
  AL_SOURCE_STATE_def AL_SOURCE_TYPE_def AL_BUFFER_def AL_BUFFERS_QUEUED_def
  AL_BUFFERS_PROCESSED_def AL_SOURCE_RELATIVE_def AL_LOOPING_def AL_SEC_OFFSET_def
  AL_SAMPLE_OFFSET_def AL_BYTE_OFFSET_def AL_GAIN_def AL_MIN_GAIN_def AL_MAX_GAIN_def
  AL_REFERENCE_DISTANCE_def AL_ROLLOFF_FACTOR_def AL_MAX_DISTANCE_def AL_PITCH_def
  AL_CONE_INNER_ANGLE_def AL_CONE_OUTER_ANGLE_def AL_CONE_OUTER_GAIN_def AL_POSITION_def
  AL_VELOCITY_def AL_DIRECTION_def AL_PLAYING_def AL_STOPPED_def AL_INITIAL_def
  AL_TRUE_def AL_FALSE_def

text \<open>
  Claim C3, at the input where the code departs from it. The only source of the context
  is played twice. After the first call it is on the playlist, observed as playing, after
  one poll. The second call's \<open>add_source_to_playlist\<close> takes it for absent (both its
  links are NULL, as for the only member of the list) and links it to itself; the
  polling pass at the end of that call then polls this one source three times (the world
  counts the polls) before it lets go of it.
\<close>

theorem replay_polls_source_again:
  "map_option (\<lambda>s. (world s, ctx_playlist (contexts s 3), src_playlist_next (sources s 4),
                     src_playlist_prev (sources s 4), src_state (sources s 4)))
     (alSourcePlay playing_env 1 (one_source_state 0)) = Some (1, 4, 0, 0, AL_PLAYING)
   \<and> map_option (\<lambda>s. (src_playlist_next (sources s 4), src_playlist_prev (sources s 4)))
     (Option.bind (alSourcePlay playing_env 1 (one_source_state 0)) (add_source_to_playlist 1))
       = Some (4, 4)
   \<and> map_option (\<lambda>s. (world s, ctx_playlist (contexts s 3), src_state (sources s 4)))
     (Option.bind (alSourcePlay playing_env 1 (one_source_state 0)) (alSourcePlay playing_env 1))
       = Some (4, 0, AL_STOPPED)"
  by (simp add: alSourcePlay_def playing_env_def one_source_state_def eval_defs source_eval_defs)

section \<open>The player: fatal errors\<close>

lemmas play_eval_defs =
  process_tracelog_def init_altrace_playback_def IO_UINT32_play_def IO_UINT64_play_def
  IO_ENUM_play_def IO_PTR_play_def IO_EVENTENUM_play_def readle32_def readle64_def
  read_log_def IO_READ_FAIL_def Let_def quit_altrace_playback_def example_penv_def
  example_player_def player_start_def decode_alGetError_def decode_eos_def
  IO_ENTRYINFO_play_def get_mapped_threadid_def add_threadid_to_map_def
  one_call_trace_def

lemma tracelog_loop_step:
  "process_tracelog_loop P fdsize p =
     (if io_failure p
      then Some (0, p\<lparr>visits := visits p @ [Visit_eos False 0]\<rparr>)
      else if \<not> visit_progress P (visits p) (offset p) fdsize
      then Some (- 1, p\<lparr>visits := visits p @ [Visit_progress (offset p) fdsize, Visit_eos False 0],
                         stderr := stderr p @ [Cancelled_file_processing]\<rparr>)
      else (case IO_EVENTENUM_play (p\<lparr>visits := visits p @ [Visit_progress (offset p) fdsize]\<rparr>) of
              (tag, p1) \<Rightarrow>
                if tag = EOS_tag P then Some (1, decode_eos p1)
                else (case decoders P tag of
                        None \<Rightarrow> Some (0, p1\<lparr>visits := visits p1 @ [Visit_eos False 0]\<rparr>)
                      | Some decode \<Rightarrow> process_tracelog_loop P fdsize (decode p1))))"
  by (rule process_tracelog_loop.simps)

lemma bad_magic:
  assumes "le_word (take 4 bytes) \<noteq> ALTRACE_LOG_FILE_MAGIC P"
  shows "process_tracelog P (Some bytes) p =
     Some (0, quit_altrace_playback (p\<lparr>io_failure := length bytes < 4, logfd := Some bytes,
        offset := min 4 (length bytes),
        stderr := stderr p @ (if length bytes < 4 then [Failed_to_read_from_log True] else [])
                    @ [Not_an_OpenAL_log_file]\<rparr>))"
  using assms
  by (auto simp: process_tracelog_def init_altrace_playback_def IO_UINT32_play_def readle32_def
      read_log_def IO_READ_FAIL_def Let_def min_def quit_altrace_playback_def)

lemma bad_version:
  assumes "le_word (take 4 bytes) = ALTRACE_LOG_FILE_MAGIC P" "4 \<le> length bytes"
    "le_word (take 4 (drop 4 bytes)) \<noteq> ALTRACE_LOG_FILE_FORMAT P"
  shows "process_tracelog P (Some bytes) p =
     Some (0, quit_altrace_playback (p\<lparr>io_failure := length bytes < 8, logfd := Some bytes,
        offset := min 8 (length bytes),
        stderr := stderr p @ (if length bytes < 8 then [Failed_to_read_from_log True] else [])
                    @ [Unsupported_log_file_format_version]\<rparr>))"
  using assms
  by (auto simp: process_tracelog_def init_altrace_playback_def IO_UINT32_play_def readle32_def
      read_log_def IO_READ_FAIL_def Let_def min_def quit_altrace_playback_def)

lemma loop_reaches_result:
  "loop_reaches P fdsize p q \<Longrightarrow> process_tracelog_loop P fdsize p = process_tracelog_loop P fdsize q"
proof (induction rule: loop_reaches.induct)
  case (start p)
  show ?case ..
next
  case (event p q tag q1 decode)
  have "process_tracelog_loop P fdsize q = process_tracelog_loop P fdsize (decode q1)"
    using event.hyps(2-6) by (subst tracelog_loop_step) simp
  with event.IH show ?case by simp
qed

lemma unknown_tag_read:
  assumes "\<not> io_failure q" "logfd q = Some bytes" "offset q + 4 \<le> length bytes"
  shows "IO_EVENTENUM_play q = (le_word (take 4 (drop (offset q) bytes)), q\<lparr>offset := offset q + 4\<rparr>)"
  using assms
  by (simp add: IO_EVENTENUM_play_def IO_UINT32_play_def readle32_def read_log_def Let_def min_def)

lemma unknown_tag_loop:
  assumes "\<not> io_failure q" "visit_progress P (visits q) (offset q) fdsize"
    "logfd q = Some bytes" "offset q + 4 \<le> length bytes"
    "le_word (take 4 (drop (offset q) bytes)) = tag" "tag \<noteq> EOS_tag P" "decoders P tag = None"
  shows "process_tracelog_loop P fdsize q =
     Some (0, q\<lparr>offset := offset q + 4,
                 visits := visits q @ [Visit_progress (offset q) fdsize, Visit_eos False 0]\<rparr>)"
proof -
  have "IO_EVENTENUM_play (q\<lparr>visits := visits q @ [Visit_progress (offset q) fdsize]\<rparr>) =
      (tag, q\<lparr>visits := visits q @ [Visit_progress (offset q) fdsize], offset := offset q + 4\<rparr>)"
    using unknown_tag_read [of "q\<lparr>visits := visits q @ [Visit_progress (offset q) fdsize]\<rparr>" bytes] assms
    by simp
  then show ?thesis
    using assms(1,2,6,7) by (subst tracelog_loop_step) simp
qed

lemma header_ok:
  assumes "le_word (take 4 bytes) = ALTRACE_LOG_FILE_MAGIC P"
    "le_word (take 4 (drop 4 bytes)) = ALTRACE_LOG_FILE_FORMAT P" "8 \<le> length bytes"
  shows "init_altrace_playback P (Some bytes) p =
      (True, p\<lparr>io_failure := False, logfd := Some bytes, offset := 8\<rparr>)"
  using assms
  by (simp add: init_altrace_playback_def IO_UINT32_play_def readle32_def read_log_def
      Let_def min_def)

lemma unknown_tag_anywhere:
  assumes "le_word (take 4 bytes) = ALTRACE_LOG_FILE_MAGIC P"
    "le_word (take 4 (drop 4 bytes)) = ALTRACE_LOG_FILE_FORMAT P" "8 \<le> length bytes"
    "loop_reaches P (length bytes)
       (p\<lparr>io_failure := False, logfd := Some bytes, offset := 8, trace_scope := 0\<rparr>) q"
    "\<not> io_failure q" "visit_progress P (visits q) (offset q) (length bytes)"
    "logfd q = Some bytes'" "offset q + 4 \<le> length bytes'"
    "le_word (take 4 (drop (offset q) bytes')) = tag" "tag \<noteq> EOS_tag P" "decoders P tag = None"
  shows "process_tracelog P (Some bytes) p =
     Some (0, quit_altrace_playback (q\<lparr>offset := offset q + 4,
                 visits := visits q @ [Visit_progress (offset q) (length bytes), Visit_eos False 0]\<rparr>))"
  using loop_reaches_result [OF assms(4)] unknown_tag_loop [OF assms(5-11)]
  by (simp add: process_tracelog_def header_ok [OF assms(1-3)])


text \<open>
  Claim C7, as amended. When the magic value or the format version of the stream does
  not match, \<open>process_tracelog\<close> prints a diagnostic and returns the failure indicator 0
  without invoking any callback of the visitor: the eos callback is not invoked. For a
  tag its \<open>switch\<close> does not know, wherever in the trace it is read, the loop invokes
  the eos callback with clean\_flag = false and ends with the result 0, printing nothing;
  and so does \<open>process_tracelog\<close> when its loop reaches a state in which this tag is
  next.
\<close>

theorem bad_header_no_eos:
  "(le_word (take 4 bytes) \<noteq> ALTRACE_LOG_FILE_MAGIC P \<longrightarrow>
      (\<exists>p'. process_tracelog P (Some bytes) p = Some (0, p') \<and> visits p' = visits p
         \<and> stderr p' = stderr p @ (if length bytes < 4 then [Failed_to_read_from_log True] else [])
                          @ [Not_an_OpenAL_log_file]
         \<and> logfd p' = None))
   \<and> (le_word (take 4 bytes) = ALTRACE_LOG_FILE_MAGIC P \<and> 4 \<le> length bytes
        \<and> le_word (take 4 (drop 4 bytes)) \<noteq> ALTRACE_LOG_FILE_FORMAT P \<longrightarrow>
      (\<exists>p'. process_tracelog P (Some bytes) p = Some (0, p') \<and> visits p' = visits p
         \<and> stderr p' = stderr p @ (if length bytes < 8 then [Failed_to_read_from_log True] else [])
                          @ [Unsupported_log_file_format_version]
         \<and> logfd p' = None))
   \<and> (\<not> io_failure q \<and> visit_progress P (visits q) (offset q) fdsize
        \<and> logfd q = Some bytes' \<and> offset q + 4 \<le> length bytes'
        \<and> le_word (take 4 (drop (offset q) bytes')) = tag
        \<and> tag \<noteq> EOS_tag P \<and> decoders P tag = None \<longrightarrow>
      (\<exists>q'. process_tracelog_loop P fdsize q = Some (0, q')
         \<and> visits q' = visits q @ [Visit_progress (offset q) fdsize, Visit_eos False 0]
         \<and> stderr q' = stderr q))
   \<and> (le_word (take 4 bytes) = ALTRACE_LOG_FILE_MAGIC P
        \<and> le_word (take 4 (drop 4 bytes)) = ALTRACE_LOG_FILE_FORMAT P \<and> 8 \<le> length bytes
        \<and> loop_reaches P (length bytes)
             (p\<lparr>io_failure := False, logfd := Some bytes, offset := 8, trace_scope := 0\<rparr>) q
        \<and> \<not> io_failure q \<and> visit_progress P (visits q) (offset q) (length bytes)
        \<and> logfd q = Some bytes' \<and> offset q + 4 \<le> length bytes'
        \<and> le_word (take 4 (drop (offset q) bytes')) = tag
        \<and> tag \<noteq> EOS_tag P \<and> decoders P tag = None \<longrightarrow>
      (\<exists>p'. process_tracelog P (Some bytes) p = Some (0, p')
         \<and> visits p' = visits q @ [Visit_progress (offset q) (length bytes), Visit_eos False 0]
         \<and> stderr p' = stderr q
         \<and> logfd p' = None))"
proof (intro conjI impI)
  assume "le_word (take 4 bytes) \<noteq> ALTRACE_LOG_FILE_MAGIC P"
  from bad_magic [OF this, of p]
  show "\<exists>p'. process_tracelog P (Some bytes) p = Some (0, p') \<and> visits p' = visits p
         \<and> stderr p' = stderr p @ (if length bytes < 4 then [Failed_to_read_from_log True] else [])
                          @ [Not_an_OpenAL_log_file]
         \<and> logfd p' = None"
    by (simp add: quit_altrace_playback_def)
next
  assume "le_word (take 4 bytes) = ALTRACE_LOG_FILE_MAGIC P \<and> 4 \<le> length bytes
        \<and> le_word (take 4 (drop 4 bytes)) \<noteq> ALTRACE_LOG_FILE_FORMAT P"
  then have "process_tracelog P (Some bytes) p =
     Some (0, quit_altrace_playback (p\<lparr>io_failure := length bytes < 8, logfd := Some bytes,
        offset := min 8 (length bytes),
        stderr := stderr p @ (if length bytes < 8 then [Failed_to_read_from_log True] else [])
                    @ [Unsupported_log_file_format_version]\<rparr>))"
    by (intro bad_version) simp_all
  then show "\<exists>p'. process_tracelog P (Some bytes) p = Some (0, p') \<and> visits p' = visits p
         \<and> stderr p' = stderr p @ (if length bytes < 8 then [Failed_to_read_from_log True] else [])
                          @ [Unsupported_log_file_format_version]
         \<and> logfd p' = None"
    by (simp add: quit_altrace_playback_def)
next
  assume "\<not> io_failure q \<and> visit_progress P (visits q) (offset q) fdsize
        \<and> logfd q = Some bytes' \<and> offset q + 4 \<le> length bytes'
        \<and> le_word (take 4 (drop (offset q) bytes')) = tag
        \<and> tag \<noteq> EOS_tag P \<and> decoders P tag = None"
  then have "process_tracelog_loop P fdsize q =
     Some (0, q\<lparr>offset := offset q + 4,
                 visits := visits q @ [Visit_progress (offset q) fdsize, Visit_eos False 0]\<rparr>)"
    using unknown_tag_loop [of q P fdsize bytes' tag] by blast
  then show "\<exists>q'. process_tracelog_loop P fdsize q = Some (0, q')
         \<and> visits q' = visits q @ [Visit_progress (offset q) fdsize, Visit_eos False 0]
         \<and> stderr q' = stderr q"
    by simp
next
  assume "le_word (take 4 bytes) = ALTRACE_LOG_FILE_MAGIC P
        \<and> le_word (take 4 (drop 4 bytes)) = ALTRACE_LOG_FILE_FORMAT P \<and> 8 \<le> length bytes
        \<and> loop_reaches P (length bytes)
             (p\<lparr>io_failure := False, logfd := Some bytes, offset := 8, trace_scope := 0\<rparr>) q
        \<and> \<not> io_failure q \<and> visit_progress P (visits q) (offset q) (length bytes)
        \<and> logfd q = Some bytes' \<and> offset q + 4 \<le> length bytes'
        \<and> le_word (take 4 (drop (offset q) bytes')) = tag
        \<and> tag \<noteq> EOS_tag P \<and> decoders P tag = None"
  then have "process_tracelog P (Some bytes) p =
     Some (0, quit_altrace_playback (q\<lparr>offset := offset q + 4,
                 visits := visits q @ [Visit_progress (offset q) (length bytes), Visit_eos False 0]\<rparr>))"
    using unknown_tag_anywhere [of bytes P p q bytes' tag] by blast
  then show "\<exists>p'. process_tracelog P (Some bytes) p = Some (0, p')
         \<and> visits p' = visits q @ [Visit_progress (offset q) (length bytes), Visit_eos False 0]
         \<and> stderr p' = stderr q
         \<and> logfd p' = None"
    by (simp add: quit_altrace_playback_def)
qed

lemma unknown_tag_trace_reaches:
  "loop_reaches example_player (length unknown_tag_trace)
     (player_start\<lparr>io_failure := False, logfd := Some unknown_tag_trace, offset := 8, trace_scope := 0\<rparr>)
     (decode_alGetError example_penv
        (player_start\<lparr>io_failure := False, logfd := Some unknown_tag_trace, offset := 12,
           trace_scope := 0, visits := [Visit_progress 8 36]\<rparr>))"
proof -
  let ?p0 = "player_start\<lparr>io_failure := False, logfd := Some unknown_tag_trace, offset := 8, trace_scope := 0\<rparr>"
  have a: "\<not> io_failure ?p0" by simp
  have b: "visit_progress example_player (visits ?p0) (offset ?p0) (length unknown_tag_trace)"
    by (simp add: example_player_def example_penv_def)
  have c: "IO_EVENTENUM_play (?p0\<lparr>visits := visits ?p0 @ [Visit_progress (offset ?p0) (length unknown_tag_trace)]\<rparr>) =
      (16, player_start\<lparr>io_failure := False, logfd := Some unknown_tag_trace, offset := 12,
           trace_scope := 0, visits := [Visit_progress 8 36]\<rparr>)"
    by (simp add: IO_EVENTENUM_play_def IO_UINT32_play_def readle32_def read_log_def Let_def
        unknown_tag_trace_def player_start_def)
  have d: "16 \<noteq> EOS_tag example_player"
    by (simp add: example_player_def example_penv_def)
  have e: "decoders example_player 16 = Some (decode_alGetError example_penv)"
    by (simp add: example_player_def)
  show ?thesis
    using loop_reaches.event [OF loop_reaches.start a b c d e] .
qed

theorem bad_header_no_eos_witness:
  "(\<exists>p'. process_tracelog example_penv (Some [0, 0, 0, 0, 1, 0, 0, 0]) player_start = Some (0, p')
      \<and> visits p' = [] \<and> stderr p' = [Not_an_OpenAL_log_file])
   \<and> (\<exists>p'. process_tracelog example_player (Some unknown_tag_trace) player_start = Some (0, p')
      \<and> visits p' = [Visit_progress 8 36,
           Visit_alGetError \<lparr>num_callstack_frames = 0, threadid = 1, ci_trace_scope = 0,
             wait_until = 0, callstack = [], fdoffset = 28\<rparr> 0,
           Visit_progress 32 36, Visit_eos False 0]
      \<and> stderr p' = [])"
proof -
  let ?q = "decode_alGetError example_penv
        (player_start\<lparr>io_failure := False, logfd := Some unknown_tag_trace, offset := 12,
           trace_scope := 0, visits := [Visit_progress 8 36]\<rparr>)"
  have a: "le_word (take 4 [0, 0, 0, 0, 1, 0, 0, 0 :: uint8]) \<noteq> ALTRACE_LOG_FILE_MAGIC example_penv"
    by (simp add: example_penv_def)
  have q: "\<not> io_failure ?q" "offset ?q = 32" "logfd ?q = Some unknown_tag_trace" "stderr ?q = []"
    "visits ?q = [Visit_progress 8 36,
           Visit_alGetError \<lparr>num_callstack_frames = 0, threadid = 1, ci_trace_scope = 0,
             wait_until = 0, callstack = [], fdoffset = 28\<rparr> 0]"
    by (simp_all add: play_eval_defs unknown_tag_trace_def)
  have b: "le_word (take 4 unknown_tag_trace) = ALTRACE_LOG_FILE_MAGIC example_player
        \<and> le_word (take 4 (drop 4 unknown_tag_trace)) = ALTRACE_LOG_FILE_FORMAT example_player
        \<and> 8 \<le> length unknown_tag_trace
        \<and> loop_reaches example_player (length unknown_tag_trace)
             (player_start\<lparr>io_failure := False, logfd := Some unknown_tag_trace, offset := 8, trace_scope := 0\<rparr>) ?q
        \<and> \<not> io_failure ?q \<and> visit_progress example_player (visits ?q) (offset ?q) (length unknown_tag_trace)
        \<and> logfd ?q = Some unknown_tag_trace \<and> offset ?q + 4 \<le> length unknown_tag_trace
        \<and> le_word (take 4 (drop (offset ?q) unknown_tag_trace)) = 99
        \<and> 99 \<noteq> EOS_tag example_player \<and> decoders example_player 99 = None"
    using unknown_tag_trace_reaches q
    by (simp add: example_player_def example_penv_def) (simp add: unknown_tag_trace_def)
  from bad_header_no_eos [where bytes = "[0, 0, 0, 0, 1, 0, 0, 0]" and P = example_penv
        and p = player_start, THEN conjunct1, rule_format, OF a]
    bad_header_no_eos [where P = example_player and p = player_start and bytes = unknown_tag_trace
        and q = ?q and bytes' = unknown_tag_trace and tag = 99, THEN conjunct2,
        THEN conjunct2, THEN conjunct2, rule_format, OF b]
  show ?thesis
    using q by (auto simp: player_start_def unknown_tag_trace_def)
qed

theorem bad_header_counterexample:
  "map_option (\<lambda>r. (fst r, visits (snd r), stderr (snd r)))
     (process_tracelog example_penv (Some [0xA1, 0xE5, 0x04, 0x01, 2, 0, 0, 0]) player_start) =
     Some (0, [], [Unsupported_log_file_format_version])
   \<and> map_option (\<lambda>r. (fst r, visits (snd r), stderr (snd r)))
     (process_tracelog example_penv (Some [0, 0, 0, 0, 1, 0, 0, 0]) player_start) =
     Some (0, [], [Not_an_OpenAL_log_file])"
  by (simp add: process_tracelog_def init_altrace_playback_def IO_UINT32_play_def readle32_def
      read_log_def IO_READ_FAIL_def Let_def quit_altrace_playback_def example_penv_def
      player_start_def)

section \<open>The player: thread ids\<close>

text \<open>
  Claim C9, at the input where the code departs from it. One player process reads two
  traces, one after the other; each holds one call event, of the thread with raw id 7.
  In the first trace the thread is mapped to 1. \<open>quit_altrace_playback\<close> frees the map
  and leaves the counter, so in the second trace the first thread seen is mapped to 2.
\<close>

theorem second_trace_starts_at_two:
  "map_option (\<lambda>r. (fst r, visit_threadids (visits (snd r)), next_mapped_threadid (snd r)))
     (process_tracelog example_player (Some one_call_trace) player_start) = Some (1, [1], 1)
   \<and> map_option (\<lambda>r. (fst r, visit_threadids (visits (snd r)), next_mapped_threadid (snd r)))
     (Option.bind (process_tracelog example_player (Some one_call_trace) player_start)
        (\<lambda>r. process_tracelog example_player (Some one_call_trace) ((snd r)\<lparr>visits := []\<rparr>))) =
     Some (1, [2], 2)"
  by (simp add: play_eval_defs tracelog_loop_step)

end
